theory Spec2Isabelle
  imports Main "HOL-Library.Word"
begin

unbundle bit_operations_syntax

section \<open>JavaScript numbers and typed arrays\<close>

text \<open>
  The emulator is TypeScript. A \<^verbatim>\<open>number\<close> that holds an integer is an \<^typ>\<open>int\<close>;
  the bitwise operators of the language work on the 32-bit two's complement reading of
  their operands, which \<open>toInt32\<close> and \<open>toUint32\<close> write out where a result can leave
  that range. A typed array (\<^verbatim>\<open>Uint8Array\<close>) is a list; reading an element that is
  not there yields \<^verbatim>\<open>undefined\<close>, which is \<open>None\<close> here.
\<close>

definition toInt32 :: "int \<Rightarrow> int" where
  "toInt32 x = signed_take_bit 31 x"

definition toUint32 :: "int \<Rightarrow> int" where
  "toUint32 x = x mod 2 ^ 32"

definition toUint8 :: "int \<Rightarrow> int" where
  "toUint8 x = x mod 256"

text \<open>\<^verbatim>\<open>(x / y) | 0\<close>: the quotient truncated towards zero, then cut to 32 bits.\<close>

definition js_idiv :: "int \<Rightarrow> int \<Rightarrow> int" where
  "js_idiv x y = toInt32 (sgn x * sgn y * (\<bar>x\<bar> div \<bar>y\<bar>))"

text \<open>\<^verbatim>\<open>x % y\<close> for \<open>y \<noteq> 0\<close> has the sign of \<open>x\<close>; \<^verbatim>\<open>x % 0\<close> is NaN (\<open>None\<close>).\<close>

definition js_rem :: "int \<Rightarrow> int \<Rightarrow> int" where
  "js_rem x y = sgn x * (\<bar>x\<bar> mod \<bar>y\<bar>)"

definition js_rem_nan :: "int \<Rightarrow> int \<Rightarrow> int option" where
  "js_rem_nan x y = (if y = 0 then None else Some (js_rem x y))"

definition ta_get :: "int list \<Rightarrow> int \<Rightarrow> int option" where
  "ta_get xs i = (if 0 \<le> i \<and> nat i < length xs then Some (xs ! nat i) else None)"

text \<open>A store into a \<^verbatim>\<open>Uint8Array\<close> keeps the low byte; a store out of range is dropped.\<close>

definition ta_set8 :: "int list \<Rightarrow> int \<Rightarrow> int \<Rightarrow> int list" where
  "ta_set8 xs i v = (if 0 \<le> i \<and> nat i < length xs then xs[nat i := toUint8 v] else xs)"

section \<open>Bus (bus.ts)\<close>

text \<open>
  A handler reads or writes for one address. It is a closure over its component in the
  source; here it is a function of the state \<open>'w\<close> of whatever the bus is connected to.
  The two maps are arrays of \<open>0x10000\<close> slots, empty (\<open>None\<close>) until assigned. The host's
  break sink (\<^verbatim>\<open>system.break\<close>, of the \<^verbatim>\<open>SystemInterface\<close> given to the constructor) is
  the field \<open>system_break\<close>: what the host does with the message is its own business.
\<close>

type_synonym 'w ReadHandler = "int \<Rightarrow> 'w \<Rightarrow> int \<times> 'w"
type_synonym 'w WriteHandler = "int \<Rightarrow> int \<Rightarrow> 'w \<Rightarrow> 'w"

record 'w Bus =
  system_break :: "string \<Rightarrow> 'w \<Rightarrow> 'w"
  readMap :: "int \<rightharpoonup> 'w ReadHandler"
  writeMap :: "int \<rightharpoonup> 'w WriteHandler"

text \<open>\<^verbatim>\<open>address.toString(16).padStart(4, '0')\<close>\<close>

definition hexDigit :: "nat \<Rightarrow> char" where
  "hexDigit n = ''0123456789abcdef'' ! n"

function toString16_nat :: "nat \<Rightarrow> string" where
  "toString16_nat n =
     (if n < 16 then [hexDigit n] else toString16_nat (n div 16) @ [hexDigit (n mod 16)])"
  by pat_completeness auto
termination
  by (relation "measure id") auto

declare toString16_nat.simps [simp del]

definition toString16 :: "int \<Rightarrow> string" where
  "toString16 x = (if x < 0 then CHR ''-'' # toString16_nat (nat (- x)) else toString16_nat (nat x))"

definition padStart :: "nat \<Rightarrow> char \<Rightarrow> string \<Rightarrow> string" where
  "padStart n c s = replicate (n - length s) c @ s"

definition invalidRead :: "(string \<Rightarrow> 'w \<Rightarrow> 'w) \<Rightarrow> 'w ReadHandler" where
  "invalidRead brk address w =
     (0, brk (''invalid read from 0x'' @ padStart 4 (CHR ''0'') (toString16 address)) w)"

definition invalidWrite :: "(string \<Rightarrow> 'w \<Rightarrow> 'w) \<Rightarrow> 'w WriteHandler" where
  "invalidWrite brk address v w =
     brk (''invalid write to 0x'' @ padStart 4 (CHR ''0'') (toString16 address)) w"

definition Bus_constructor :: "(string \<Rightarrow> 'w \<Rightarrow> 'w) \<Rightarrow> 'w Bus" where
  "Bus_constructor brk =
     fold (\<lambda>i b. b\<lparr> readMap := (readMap b)(int i \<mapsto> invalidRead brk),
                     writeMap := (writeMap b)(int i \<mapsto> invalidWrite brk) \<rparr>)
          [0..<0x10000]
          \<lparr> system_break = brk, readMap = Map.empty, writeMap = Map.empty \<rparr>"

text \<open>
  Modelled from the spec: \<^verbatim>\<open>Bus.map\<close>, which is not in \<^verbatim>\<open>bus.ts\<close> as given (the file holds
  the constructor, the two invalid handlers and the two maps). Spec 4.1:
  \<^verbatim>\<open>map(address, read, write)\<close> installs a pair for one address.
\<close>

definition bus_map :: "int \<Rightarrow> 'w ReadHandler \<Rightarrow> 'w WriteHandler \<Rightarrow> 'w Bus \<Rightarrow> 'w Bus" where
  "bus_map address r wr b =
     b\<lparr> readMap := (readMap b)(address \<mapsto> r), writeMap := (writeMap b)(address \<mapsto> wr) \<rparr>"

text \<open>
  Modelled from the spec: the high-RAM region \<open>0xFF80..0xFFFE\<close> of spec 4.1 and 5, the
  one part of the address space that stays live while the bus is locked.
\<close>

definition highRam :: "int \<Rightarrow> bool" where
  "highRam address \<longleftrightarrow> 0xff80 \<le> address \<and> address \<le> 0xfffe"

text \<open>
  Modelled from the spec: \<^verbatim>\<open>Bus.read\<close>, which is not in \<^verbatim>\<open>bus.ts\<close> as given. Spec 4.1:
  \<^verbatim>\<open>read(a)\<close> dispatches to the installed pair; while the bus is locked, all reads
  originating outside the PPU return \<open>0xFF\<close>, except access to the high-RAM region
  \<open>0xFF80..0xFFFE\<close>, which remains live. The lock is the single boolean of spec 3; it
  is part of the state of the machine, and a read is given its value as the argument
  \<open>locked\<close>. The spec gives \<^verbatim>\<open>read\<close> no argument for the origin of an access: the one
  read the PPU makes itself (\<^verbatim>\<open>executeDma\<close>) comes after its own \<^verbatim>\<open>unlock()\<close>. Calling an
  empty slot would be a \<^verbatim>\<open>TypeError\<close>: the result \<open>None\<close>.
\<close>

definition bus_read :: "bool \<Rightarrow> 'w Bus \<Rightarrow> int \<Rightarrow> 'w \<Rightarrow> (int \<times> 'w) option" where
  "bus_read locked b address w =
     (if locked \<and> \<not> highRam address then Some (0xff, w)
      else (case readMap b address of None \<Rightarrow> None | Some h \<Rightarrow> Some (h address w)))"

text \<open>
  Modelled from the spec: \<^verbatim>\<open>Bus.write\<close>, which is not in \<^verbatim>\<open>bus.ts\<close> as given. Spec 4.1:
  \<^verbatim>\<open>write(a, v)\<close> dispatches to the installed pair; while the bus is locked, all writes
  originating outside the PPU are ignored, except access to the high-RAM region
  \<open>0xFF80..0xFFFE\<close>. The lock and \<open>None\<close> are as for \<open>bus_read\<close>.
\<close>

definition bus_write :: "bool \<Rightarrow> 'w Bus \<Rightarrow> int \<Rightarrow> int \<Rightarrow> 'w \<Rightarrow> 'w option" where
  "bus_write locked b address v w =
     (if locked \<and> \<not> highRam address then Some w
      else (case writeMap b address of None \<Rightarrow> None | Some h \<Rightarrow> Some (h address v w)))"

text \<open>The value of a string of hexadecimal digits, to read an address back from a message.\<close>

definition hexValue :: "char \<Rightarrow> nat" where
  "hexValue c = (if c \<in> set ''0123456789abcdef''
                 then length (takeWhile (\<lambda>d. d \<noteq> c) ''0123456789abcdef'') else 0)"

definition parseHex :: "string \<Rightarrow> nat" where
  "parseHex s = foldl (\<lambda>n c. 16 * n + hexValue c) 0 s"

text \<open>A host that keeps the messages its break sink received, for the examples.\<close>

definition log_break :: "string \<Rightarrow> string list \<Rightarrow> string list" where
  "log_break msg w = w @ [msg]"

section \<open>Instruction table (instruction.ts)\<close>

text \<open>
  The enums of \<^verbatim>\<open>instruction.ts\<close>, with a prefix where the name is taken in HOL.
  \<open>am_ind_reg8\<close> and \<open>op_ldh\<close> are not members of the enums as given: \<^verbatim>\<open>cpu.ts\<close>
  names \<^verbatim>\<open>AddressingMode.ind_reg8\<close> and \<^verbatim>\<open>Operation.ldh\<close> in its \<^verbatim>\<open>case\<close> labels, and
  no entry of the table has them.
\<close>

datatype Operation =
  op_invalid | op_and | op_call | op_cp | op_cpl | op_dec | op_di | op_ei | op_inc | op_jp
  | op_jrnz | op_ld | op_ldd | op_ldi | op_nop | op_or | op_pop | op_push | op_ret | op_xor
  | op_ldh

datatype AddressingMode =
  am_implicit | am_imm16 | am_imm8 | am_reg8 | am_reg16 | am_reg16_imm16 | am_reg8_imm8
  | am_imm8_reg8 | am_immind8_reg8 | am_ind8_reg8 | am_ind8_imm8 | am_reg8_ind8 | am_reg8_reg8
  | am_imm8io_reg8 | am_reg8_imm8io | am_reg8io_reg8 | am_reg8_reg8io | am_ind_reg8

record Instruction =
  opcode :: int
  operation :: Operation
  addressingMode :: AddressingMode
  par1 :: int
  par2 :: int
  cycles :: int
  len :: int

text \<open>The enums \<^verbatim>\<open>r8\<close>, \<^verbatim>\<open>r16\<close> and \<^verbatim>\<open>flag\<close> of \<^verbatim>\<open>cpu.ts\<close>.\<close>

abbreviation (input) r8_f :: int where "r8_f \<equiv> 0"
abbreviation (input) r8_a :: int where "r8_a \<equiv> 1"
abbreviation (input) r8_c :: int where "r8_c \<equiv> 2"
abbreviation (input) r8_b :: int where "r8_b \<equiv> 3"
abbreviation (input) r8_e :: int where "r8_e \<equiv> 4"
abbreviation (input) r8_d :: int where "r8_d \<equiv> 5"
abbreviation (input) r8_l :: int where "r8_l \<equiv> 6"
abbreviation (input) r8_h :: int where "r8_h \<equiv> 7"

abbreviation (input) r16_af :: int where "r16_af \<equiv> 0"
abbreviation (input) r16_bc :: int where "r16_bc \<equiv> 1"
abbreviation (input) r16_de :: int where "r16_de \<equiv> 2"
abbreviation (input) r16_hl :: int where "r16_hl \<equiv> 3"
abbreviation (input) r16_sp :: int where "r16_sp \<equiv> 4"

abbreviation (input) flag_z :: int where "flag_z \<equiv> 0x80"
abbreviation (input) flag_n :: int where "flag_n \<equiv> 0x40"
abbreviation (input) flag_h :: int where "flag_h \<equiv> 0x20"
abbreviation (input) flag_c :: int where "flag_c \<equiv> 0x10"

text \<open>
  The table is an array of \<open>0x100\<close> entries. \<^verbatim>\<open>apply(opcode, instruction)\<close> merges the
  fields given into the entry of the opcode; the fields given are an update of the
  entry here. Every opcode the file passes to \<^verbatim>\<open>apply\<close> has been initialised before,
  so the table is left alone where there is no entry.
\<close>

type_synonym InstructionTable = "int \<rightharpoonup> Instruction"

definition apply_entry ::
  "int \<Rightarrow> (Instruction \<Rightarrow> Instruction) \<Rightarrow> InstructionTable \<Rightarrow> InstructionTable" where
  "apply_entry opc upd t =
     (case t opc of None \<Rightarrow> t | Some i \<Rightarrow> t(opc \<mapsto> (upd i)\<lparr> opcode := opc \<rparr>))"

text \<open>\<^verbatim>\<open>list.forEach((x, i) => f(x, i))\<close>\<close>

definition forEach :: "'a list \<Rightarrow> ('a \<Rightarrow> int \<Rightarrow> 's \<Rightarrow> 's) \<Rightarrow> 's \<Rightarrow> 's" where
  "forEach xs f t = fold (\<lambda>(x, i). f x (int i)) (zip xs [0..<length xs]) t"

definition applySeriesR8_1 ::
  "int \<Rightarrow> int \<Rightarrow> (Instruction \<Rightarrow> Instruction) \<Rightarrow> InstructionTable \<Rightarrow> InstructionTable" where
  "applySeriesR8_1 baseB baseC upd t =
     forEach [r8_c, r8_e, r8_l, r8_a]
       (\<lambda>reg i. apply_entry (baseC + push_bit 4 i) (\<lambda>e. (upd e)\<lparr> par1 := reg \<rparr>))
       (forEach [r8_b, r8_d, r8_h]
          (\<lambda>reg i. apply_entry (baseB + push_bit 4 i) (\<lambda>e. (upd e)\<lparr> par1 := reg \<rparr>)) t)"

definition instructions_init :: InstructionTable where
  "instructions_init =
     fold (\<lambda>i t. t(int i \<mapsto> \<lparr> opcode = int i, operation = op_invalid,
                               addressingMode = am_implicit, par1 = 0, par2 = 0,
                               cycles = 0, len = 1 \<rparr>))
          [0..<0x100] Map.empty"

text \<open>The statements of the file that fill the table, in their order.\<close>

definition instructions_build :: "(InstructionTable \<Rightarrow> InstructionTable) list" where
  "instructions_build =
   [ apply_entry 0 (\<lambda>e. e\<lparr> operation := op_nop, cycles := 1, len := 1 \<rparr>),
     apply_entry 0xc3 (\<lambda>e. e\<lparr> operation := op_jp, addressingMode := am_imm16, cycles := 4, len := 3 \<rparr>),

     apply_entry 0xa8 (\<lambda>e. e\<lparr> operation := op_xor, addressingMode := am_reg8, par1 := r8_b, cycles := 1, len := 1 \<rparr>),
     apply_entry 0xa9 (\<lambda>e. e\<lparr> operation := op_xor, addressingMode := am_reg8, par1 := r8_c, cycles := 1, len := 1 \<rparr>),
     apply_entry 0xaa (\<lambda>e. e\<lparr> operation := op_xor, addressingMode := am_reg8, par1 := r8_d, cycles := 1, len := 1 \<rparr>),
     apply_entry 0xab (\<lambda>e. e\<lparr> operation := op_xor, addressingMode := am_reg8, par1 := r8_e, cycles := 1, len := 1 \<rparr>),
     apply_entry 0xac (\<lambda>e. e\<lparr> operation := op_xor, addressingMode := am_reg8, par1 := r8_h, cycles := 1, len := 1 \<rparr>),
     apply_entry 0xad (\<lambda>e. e\<lparr> operation := op_xor, addressingMode := am_reg8, par1 := r8_l, cycles := 1, len := 1 \<rparr>),
     apply_entry 0xaf (\<lambda>e. e\<lparr> operation := op_xor, addressingMode := am_reg8, par1 := r8_a, cycles := 1, len := 1 \<rparr>),

     apply_entry 0x31 (\<lambda>e. e\<lparr> operation := op_ld, addressingMode := am_reg16_imm16, par1 := r16_sp, cycles := 3, len := 3 \<rparr>),
     apply_entry 0x21 (\<lambda>e. e\<lparr> operation := op_ld, addressingMode := am_reg16_imm16, par1 := r16_hl, cycles := 3, len := 3 \<rparr>),
     apply_entry 0x11 (\<lambda>e. e\<lparr> operation := op_ld, addressingMode := am_reg16_imm16, par1 := r16_de, cycles := 3, len := 3 \<rparr>),
     apply_entry 0x01 (\<lambda>e. e\<lparr> operation := op_ld, addressingMode := am_reg16_imm16, par1 := r16_bc, cycles := 3, len := 3 \<rparr>),
     apply_entry 0x36 (\<lambda>e. e\<lparr> operation := op_ld, addressingMode := am_ind8_imm8, par1 := r16_hl, cycles := 3, len := 2 \<rparr>),
     apply_entry 0xea (\<lambda>e. e\<lparr> operation := op_ld, addressingMode := am_immind8_reg8, par2 := r8_a, cycles := 4, len := 3 \<rparr>),
     apply_entry 0xf0 (\<lambda>e. e\<lparr> operation := op_ld, addressingMode := am_reg8_imm8io, par1 := r8_a, cycles := 3, len := 2 \<rparr>),
     apply_entry 0xe0 (\<lambda>e. e\<lparr> operation := op_ld, addressingMode := am_imm8io_reg8, par2 := r8_a, cycles := 3, len := 2 \<rparr>),
     apply_entry 0xe2 (\<lambda>e. e\<lparr> operation := op_ld, addressingMode := am_reg8io_reg8, par1 := r8_c, cycles := 2, len := 1 \<rparr>),
     apply_entry 0xf2 (\<lambda>e. e\<lparr> operation := op_ld, addressingMode := am_reg8_reg8io, par2 := r8_c, cycles := 2, len := 1 \<rparr>),

     forEach [r8_c, r8_e, r8_l, r8_a] (\<lambda>reg1 i1.
       forEach [r8_a, r8_b, r8_c, r8_d, r8_e, r8_h, r8_l] (\<lambda>reg2 i2 t.
         if reg1 \<noteq> reg2
         then apply_entry (push_bit 4 (4 + i1) OR (7 + i2))
                (\<lambda>e. e\<lparr> operation := op_ld, addressingMode := am_reg8_reg8,
                         par1 := reg1, par2 := reg2, cycles := 1, len := 1 \<rparr>) t
         else t)),

     applySeriesR8_1 0x06 0x0e (\<lambda>e. e\<lparr> operation := op_ld, addressingMode := am_reg8_imm8, cycles := 2, len := 2 \<rparr>),

     apply_entry 0x22 (\<lambda>e. e\<lparr> operation := op_ldi, addressingMode := am_ind8_reg8, par1 := r16_hl, par2 := r8_a, cycles := 2, len := 1 \<rparr>),
     apply_entry 0x32 (\<lambda>e. e\<lparr> operation := op_ldd, addressingMode := am_ind8_reg8, par1 := r16_hl, par2 := r8_a, cycles := 2, len := 1 \<rparr>),
     apply_entry 0x2a (\<lambda>e. e\<lparr> operation := op_ldi, addressingMode := am_reg8_ind8, par1 := r8_a, par2 := r16_hl, cycles := 2, len := 1 \<rparr>),
     apply_entry 0x3a (\<lambda>e. e\<lparr> operation := op_ldd, addressingMode := am_reg8_ind8, par1 := r8_a, par2 := r16_hl, cycles := 2, len := 1 \<rparr>),

     applySeriesR8_1 0x04 0x0c (\<lambda>e. e\<lparr> operation := op_inc, addressingMode := am_reg8, cycles := 1, len := 1 \<rparr>),
     applySeriesR8_1 0x05 0x0d (\<lambda>e. e\<lparr> operation := op_dec, addressingMode := am_reg8, cycles := 1, len := 1 \<rparr>),
     forEach [r16_bc, r16_de, r16_hl, r16_sp] (\<lambda>reg i t.
       apply_entry (push_bit 4 i OR 0x03)
         (\<lambda>e. e\<lparr> operation := op_inc, addressingMode := am_reg16, par1 := reg, cycles := 2, len := 1 \<rparr>)
         (apply_entry (push_bit 4 i OR 0x0b)
            (\<lambda>e. e\<lparr> operation := op_dec, addressingMode := am_reg16, par1 := reg, cycles := 2, len := 1 \<rparr>) t)),

     apply_entry 0x20 (\<lambda>e. e\<lparr> operation := op_jrnz, addressingMode := am_imm8, cycles := 2, len := 2 \<rparr>),

     apply_entry 0xf3 (\<lambda>e. e\<lparr> operation := op_di, addressingMode := am_implicit, cycles := 1, len := 1 \<rparr>),
     apply_entry 0xfb (\<lambda>e. e\<lparr> operation := op_ei, addressingMode := am_implicit, cycles := 1, len := 1 \<rparr>),

     apply_entry 0xfe (\<lambda>e. e\<lparr> operation := op_cp, addressingMode := am_imm8, cycles := 2, len := 2 \<rparr>),

     apply_entry 0xcd (\<lambda>e. e\<lparr> operation := op_call, addressingMode := am_imm16, cycles := 8, len := 3 \<rparr>),

     forEach [r8_b, r8_c, r8_d, r8_e, r8_h, r8_l] (\<lambda>reg i t.
       apply_entry (0xa0 + i)
         (\<lambda>e. e\<lparr> operation := op_and, addressingMode := am_reg8, par1 := reg, cycles := 1, len := 1 \<rparr>)
         (apply_entry (0xb0 + i)
            (\<lambda>e. e\<lparr> operation := op_or, addressingMode := am_reg8, par1 := reg, cycles := 1, len := 1 \<rparr>) t)),
     apply_entry 0xb7 (\<lambda>e. e\<lparr> operation := op_or, addressingMode := am_reg8, par1 := r8_a, cycles := 1, len := 1 \<rparr>),
     apply_entry 0xa7 (\<lambda>e. e\<lparr> operation := op_and, addressingMode := am_reg8, par1 := r8_a, cycles := 1, len := 1 \<rparr>),

     apply_entry 0xc9 (\<lambda>e. e\<lparr> operation := op_ret, addressingMode := am_implicit, cycles := 4, len := 1 \<rparr>),

     apply_entry 0x2f (\<lambda>e. e\<lparr> operation := op_cpl, addressingMode := am_implicit, cycles := 1, len := 1 \<rparr>),

     forEach [r16_bc, r16_de, r16_hl, r16_af] (\<lambda>reg i t.
       apply_entry (push_bit 4 (i + 0xc) OR 0x01)
         (\<lambda>e. e\<lparr> operation := op_pop, addressingMode := am_reg16, par1 := reg, cycles := 3, len := 1 \<rparr>)
         (apply_entry (push_bit 4 (i + 0xc) OR 0x05)
            (\<lambda>e. e\<lparr> operation := op_push, addressingMode := am_reg16, par1 := reg, cycles := 4, len := 1 \<rparr>) t)) ]"

definition instructions :: InstructionTable where
  "instructions = fold (\<lambda>f t. f t) instructions_build instructions_init"

section \<open>CPU (cpu.ts)\<close>

text \<open>
  \<^verbatim>\<open>r8\<close> and \<^verbatim>\<open>r16\<close> are two views of one buffer of ten bytes: \<^verbatim>\<open>r16[i]\<close> is the bytes
  \<open>2i\<close> (low) and \<open>2i + 1\<close> (high) of \<^verbatim>\<open>r8\<close>. The state keeps the bytes. The register
  numbers the table holds are within the buffer.
\<close>

text \<open>The field \<^verbatim>\<open>p\<close> of the state, the program counter, is \<open>state_p\<close> here.\<close>

record CpuState =
  r8 :: "int list"
  state_p :: int
  enableInterrupts :: bool

definition r8_get :: "CpuState \<Rightarrow> int \<Rightarrow> int" where
  "r8_get s i = r8 s ! nat i"

definition r8_set :: "CpuState \<Rightarrow> int \<Rightarrow> int \<Rightarrow> CpuState" where
  "r8_set s i v = s\<lparr> r8 := ta_set8 (r8 s) i v \<rparr>"

definition r16_get :: "CpuState \<Rightarrow> int \<Rightarrow> int" where
  "r16_get s i = r8 s ! nat (2 * i) OR push_bit 8 (r8 s ! nat (2 * i + 1))"

definition r16_set :: "CpuState \<Rightarrow> int \<Rightarrow> int \<Rightarrow> CpuState" where
  "r16_set s i v =
     s\<lparr> r8 := ta_set8 (ta_set8 (r8 s) (2 * i) v) (2 * i + 1) (drop_bit 8 (v mod 0x10000)) \<rparr>"

text \<open>
  What the CPU is given: the bus, the clock and the system. \<^verbatim>\<open>Bus.read\<close> and
  \<^verbatim>\<open>Bus.write\<close>, the interface \<^verbatim>\<open>Clock\<close> and \<^verbatim>\<open>SystemInterface\<close> are not in the sources
  as given, so the methods the CPU calls are arguments, acting on the state \<open>'w\<close> of the
  rest of the machine.
\<close>

record 'w CpuEnv =
  env_read :: "int \<Rightarrow> 'w \<Rightarrow> int \<times> 'w"
  env_write :: "int \<Rightarrow> int \<Rightarrow> 'w \<Rightarrow> 'w"
  env_clock_increment :: "int \<Rightarrow> 'w \<Rightarrow> 'w"
  env_break :: "string \<Rightarrow> 'w \<Rightarrow> 'w"

text \<open>
  Modelled from the spec: \<^verbatim>\<open>Bus.read16\<close>, which is not in \<^verbatim>\<open>bus.ts\<close> as given. Spec 4.1:
  \<^verbatim>\<open>read16(a)\<close> reads little-endian from a, a+1 (wrap at 16 bits).
\<close>

definition env_read16 :: "'w CpuEnv \<Rightarrow> int \<Rightarrow> 'w \<Rightarrow> int \<times> 'w" where
  "env_read16 env a w =
     (let (lo, w1) = env_read env a w;
          (hi, w2) = env_read env ((a + 1) AND 0xffff) w1
      in (lo OR push_bit 8 hi, w2))"

datatype CpuError = BadAddressingMode | NoInstruction

definition extendSign8 :: "int \<Rightarrow> int" where
  "extendSign8 x = (if x AND 0x80 \<noteq> 0 then - ((toInt32 (NOT x) + 1) AND 0xff) else x)"

definition Cpu_reset :: "CpuState \<Rightarrow> CpuState" where
  "Cpu_reset s =
     (let s1 = r16_set s r16_af 0x0100;
          s2 = r16_set s1 r16_bc 0x0013;
          s3 = r16_set s2 r16_de 0x00d8;
          s4 = r16_set s3 r16_hl 0x014d;
          s5 = s4\<lparr> state_p := 0x0100 \<rparr>;
          s6 = r16_set s5 r16_sp 0xfffe
      in s6\<lparr> enableInterrupts := False \<rparr>)"

definition Cpu_constructor :: CpuState where
  "Cpu_constructor = \<lparr> r8 = replicate 10 0, state_p = 0, enableInterrupts = False \<rparr>"

definition getArg1 ::
  "'w CpuEnv \<Rightarrow> Instruction \<Rightarrow> CpuState \<Rightarrow> 'w \<Rightarrow> CpuError + (int \<times> 'w)" where
  "getArg1 env ins s w =
     (case addressingMode ins of
        am_imm8 \<Rightarrow> Inr (env_read env ((state_p s + par1 ins) AND 0xffff) w)
      | am_imm8_reg8 \<Rightarrow> Inr (env_read env ((state_p s + par1 ins) AND 0xffff) w)
      | am_imm16 \<Rightarrow> Inr (env_read16 env ((state_p s + par1 ins) AND 0xffff) w)
      | am_reg8 \<Rightarrow> Inr (r8_get s (par1 ins), w)
      | am_reg16_imm16 \<Rightarrow> Inr (r16_get s (par1 ins), w)
      | am_reg8_imm8 \<Rightarrow> Inr (r8_get s (par1 ins), w)
      | am_ind_reg8 \<Rightarrow> Inr (env_read env (r16_get s (par1 ins)) w)
      | _ \<Rightarrow> Inl BadAddressingMode)"

definition setArg1 ::
  "'w CpuEnv \<Rightarrow> Instruction \<Rightarrow> int \<Rightarrow> CpuState \<Rightarrow> 'w \<Rightarrow> CpuError + (CpuState \<times> 'w)" where
  "setArg1 env ins v s w =
     (case addressingMode ins of
        am_reg8 \<Rightarrow> Inr (r8_set s (par1 ins) v, w)
      | am_reg16_imm16 \<Rightarrow> Inr (r16_set s (par1 ins) v, w)
      | am_reg8_imm8 \<Rightarrow> Inr (r8_set s (par1 ins) v, w)
      | am_ind_reg8 \<Rightarrow> Inr (s, env_write env (r16_get s (par1 ins)) (v AND 0xff) w)
      | _ \<Rightarrow> Inl BadAddressingMode)"

definition getArg2 ::
  "'w CpuEnv \<Rightarrow> Instruction \<Rightarrow> CpuState \<Rightarrow> 'w \<Rightarrow> CpuError + (int \<times> 'w)" where
  "getArg2 env ins s w =
     (case addressingMode ins of
        am_reg16_imm16 \<Rightarrow> Inr (env_read16 env ((state_p s + par2 ins) AND 0xffff) w)
      | am_reg8_imm8 \<Rightarrow> Inr (env_read env ((state_p s + par2 ins) AND 0xffff) w)
      | am_ind_reg8 \<Rightarrow> Inr (r8_get s (par2 ins), w)
      | am_imm8_reg8 \<Rightarrow> Inr (r8_get s (par2 ins), w)
      | _ \<Rightarrow> Inl BadAddressingMode)"

text \<open>Sequencing of steps that may throw.\<close>

definition thenDo :: "'e + 'a \<Rightarrow> ('a \<Rightarrow> 'e + 'b) \<Rightarrow> 'e + 'b" where
  "thenDo r f = (case r of Inl e \<Rightarrow> Inl e | Inr x \<Rightarrow> f x)"

definition advance :: "Instruction \<Rightarrow> CpuState \<Rightarrow> CpuState" where
  "advance ins s = s\<lparr> state_p := (state_p s + len ins) AND 0xffff \<rparr>"

text \<open>
  \<^verbatim>\<open>dispatch\<close> returns the cycles it reports, the registers and the rest of the machine,
  or the error thrown.
\<close>

definition dispatch ::
  "'w CpuEnv \<Rightarrow> Instruction \<Rightarrow> CpuState \<Rightarrow> 'w \<Rightarrow> CpuError + (int \<times> CpuState \<times> 'w)" where
  "dispatch env ins s w =
     (case operation ins of
        op_dec \<Rightarrow>
          (let w1 = env_clock_increment env (cycles ins) w in
           thenDo (getArg1 env ins s w1) (\<lambda>(operand, w2).
           let result = operand - 1 in
           thenDo (setArg1 env ins result s w2) (\<lambda>(s1, w3).
           let s2 = r8_set s1 r8_f
                      ((r8_get s1 r8_f AND flag_c) OR flag_n
                       OR (if result AND 0xff = 0 then flag_z else 0)
                       OR (if ((operand AND 0x0f) - 1) AND 0xf0 > 0 then flag_h else 0))
           in Inr (cycles ins, advance ins s2, w3))))
      | op_di \<Rightarrow>
          (let w1 = env_clock_increment env (cycles ins) w
           in Inr (cycles ins, advance ins (s\<lparr> enableInterrupts := False \<rparr>), w1))
      | op_inc \<Rightarrow>
          (let w1 = env_clock_increment env (cycles ins) w in
           thenDo (getArg1 env ins s w1) (\<lambda>(operand, w2).
           let result = operand + 1 in
           thenDo (setArg1 env ins result s w2) (\<lambda>(s1, w3).
           let s2 = r8_set s1 r8_f
                      ((r8_get s1 r8_f AND flag_c)
                       OR (if result AND 0xff = 0 then flag_z else 0)
                       OR (if ((operand AND 0x0f) + 1) AND 0xf0 > 0 then flag_h else 0))
           in Inr (cycles ins, advance ins s2, w3))))
      | op_jp \<Rightarrow>
          (let w1 = env_clock_increment env (cycles ins) w in
           thenDo (getArg1 env ins s w1) (\<lambda>(target, w2).
           Inr (cycles ins, s\<lparr> state_p := target \<rparr>, w2)))
      | op_jrnz \<Rightarrow>
          (let condition = (r8_get s r8_f AND flag_z = 0);
               cyc = cycles ins + (if condition then 1 else 0);
               w1 = env_clock_increment env cyc w in
           thenDo (getArg1 env ins s w1) (\<lambda>(arg, w2).
           let displacement = extendSign8 arg;
               s1 = advance ins s;
               s2 = (if condition then s1\<lparr> state_p := (state_p s1 + displacement) AND 0xffff \<rparr> else s1)
           in Inr (cyc, s2, w2)))
      | op_ld \<Rightarrow>
          (let w1 = env_clock_increment env (cycles ins) w in
           thenDo (getArg2 env ins s w1) (\<lambda>(v, w2).
           thenDo (setArg1 env ins v s w2) (\<lambda>(s1, w3).
           Inr (cycles ins, advance ins s1, w3))))
      | op_ldd \<Rightarrow>
          (let w1 = env_clock_increment env (cycles ins) w in
           thenDo (getArg2 env ins s w1) (\<lambda>(v, w2).
           thenDo (setArg1 env ins v s w2) (\<lambda>(s1, w3).
           let s2 = r16_set s1 r16_hl ((r16_get s1 r16_hl - 1) AND 0xffff)
           in Inr (cycles ins, advance ins s2, w3))))
      | op_ldh \<Rightarrow>
          (let w1 = env_clock_increment env (cycles ins) w in
           thenDo (getArg1 env ins s w1) (\<lambda>(a, w2).
           thenDo (getArg2 env ins s w2) (\<lambda>(v, w3).
           Inr (cycles ins, advance ins s, env_write env ((0xff00 + a) AND 0xffff) v w3))))
      | op_ldi \<Rightarrow>
          (let w1 = env_clock_increment env (cycles ins) w in
           thenDo (getArg2 env ins s w1) (\<lambda>(v, w2).
           thenDo (setArg1 env ins v s w2) (\<lambda>(s1, w3).
           let s2 = r16_set s1 r16_hl ((r16_get s1 r16_hl + 1) AND 0xffff)
           in Inr (cycles ins, advance ins s2, w3))))
      | op_nop \<Rightarrow>
          (let w1 = env_clock_increment env (cycles ins) w
           in Inr (cycles ins, advance ins s, w1))
      | op_xor \<Rightarrow>
          (let w1 = env_clock_increment env (cycles ins) w in
           thenDo (getArg1 env ins s w1) (\<lambda>(arg, w2).
           let s1 = r8_set s r8_a (toInt32 (r8_get s r8_a XOR arg));
               s2 = r8_set s1 r8_f (if r8_get s1 r8_a \<noteq> 0 then 0 else flag_z)
           in Inr (cycles ins, advance ins s2, w2)))
      | _ \<Rightarrow> Inr (0, s, env_break env ''invalid instruction'' w))"

text \<open>
  \<^verbatim>\<open>decodeInstruction\<close> reads the opcode at the address and looks it up; \<^verbatim>\<open>step\<close>
  dispatches \<open>count\<close> instructions. An opcode without entry would be a \<^verbatim>\<open>TypeError\<close>.
\<close>

definition decodeInstruction :: "'w CpuEnv \<Rightarrow> int \<Rightarrow> 'w \<Rightarrow> Instruction option \<times> 'w" where
  "decodeInstruction env address w =
     (let (opc, w1) = env_read env address w in (instructions opc, w1))"

fun step :: "'w CpuEnv \<Rightarrow> nat \<Rightarrow> CpuState \<Rightarrow> 'w \<Rightarrow> CpuError + (CpuState \<times> 'w)" where
  "step env 0 s w = Inr (s, w)"
| "step env (Suc n) s w =
     (case decodeInstruction env (state_p s) w of
        (None, w1) \<Rightarrow> Inl NoInstruction
      | (Some ins, w1) \<Rightarrow>
          thenDo (dispatch env ins s w1) (\<lambda>(c, s1, w2). step env n s1 w2))"

section \<open>PPU (ppu.ts)\<close>

text \<open>
  The PPU calls the interrupt controller and the bus. Neither \<^verbatim>\<open>interrupt.ts\<close> nor the
  methods of the bus are among the sources.
\<close>

text \<open>
  Modelled from the spec: the interrupt kinds of \<^verbatim>\<open>interrupt.ts\<close>, which is not among
  the sources. Spec 3: the bits are vblank \<open>0x01\<close>, stat \<open>0x02\<close>, timer \<open>0x04\<close>, serial
  \<open>0x08\<close>, joypad \<open>0x10\<close>.
\<close>

datatype irq = irq_vblank | irq_stat | irq_timer | irq_serial | irq_joypad

definition irq_bit :: "irq \<Rightarrow> int" where
  "irq_bit k = (case k of irq_vblank \<Rightarrow> 0x01 | irq_stat \<Rightarrow> 0x02 | irq_timer \<Rightarrow> 0x04
                | irq_serial \<Rightarrow> 0x08 | irq_joypad \<Rightarrow> 0x10)"

datatype ppuMode = hblank | vblank | oamScan | draw

definition ppuMode_value :: "ppuMode \<Rightarrow> int" where
  "ppuMode_value m = (case m of hblank \<Rightarrow> 0 | vblank \<Rightarrow> 1 | oamScan \<Rightarrow> 2 | draw \<Rightarrow> 3)"

text \<open>The enums \<^verbatim>\<open>reg\<close>, \<^verbatim>\<open>lcdc\<close> and \<^verbatim>\<open>stat\<close> of the source.\<close>

abbreviation (input) reg_base :: int where "reg_base \<equiv> 0xff40"
abbreviation (input) reg_lcdc :: nat where "reg_lcdc \<equiv> 0"
abbreviation (input) reg_stat :: nat where "reg_stat \<equiv> 1"
abbreviation (input) reg_scy :: nat where "reg_scy \<equiv> 2"
abbreviation (input) reg_scx :: nat where "reg_scx \<equiv> 3"
abbreviation (input) reg_ly :: nat where "reg_ly \<equiv> 4"
abbreviation (input) reg_lyc :: nat where "reg_lyc \<equiv> 5"
abbreviation (input) reg_dma :: nat where "reg_dma \<equiv> 6"
abbreviation (input) reg_bgp :: nat where "reg_bgp \<equiv> 7"
abbreviation (input) reg_wx :: nat where "reg_wx \<equiv> 11"

abbreviation (input) lcdc_enable :: int where "lcdc_enable \<equiv> 0x80"
abbreviation (input) lcdc_bgTileDataArea :: int where "lcdc_bgTileDataArea \<equiv> 0x10"
abbreviation (input) lcdc_bgTileMapArea :: int where "lcdc_bgTileMapArea \<equiv> 0x08"

abbreviation (input) stat_sourceLY :: int where "stat_sourceLY \<equiv> 0x40"
abbreviation (input) stat_sourceModeOAM :: int where "stat_sourceModeOAM \<equiv> 0x20"
abbreviation (input) stat_sourceModeVblank :: int where "stat_sourceModeVblank \<equiv> 0x10"
abbreviation (input) stat_sourceModeHblank :: int where "stat_sourceModeHblank \<equiv> 0x08"

text \<open>
  The arrays have the sizes the class gives them: \<open>vram\<close> \<open>0x2000\<close> bytes, \<open>oam\<close>
  \<open>0xa0\<close> bytes, \<open>reg\<close> 12 bytes and each buffer \<open>160 * 144\<close> 32-bit entries
  (\<open>Ppu_sized\<close>); \<open>paletteBG\<close> is a copy of the palette.
  \<^verbatim>\<open>vram16\<close> is a 16-bit little-endian view of \<open>vram\<close>.
\<close>

record Ppu =
  clockInMode :: int
  scanline :: int
  frame :: int
  mode :: ppuMode
  skipFrame :: bool
  vram :: "int list"
  oam :: "int list"
  stat :: bool
  dmaInProgress :: bool
  dmaCycle :: int
  reg :: "int list"
  paletteBG :: "int list"
  frontBuffer :: "int list"
  backBuffer :: "int list"

text \<open>
  The world the PPU acts in: its own state, the interrupt requests, the bus lock, and
  in \<open>ext\<close> whatever else the handlers on the bus can reach.
\<close>

record 'x World =
  ppu :: Ppu
  raised :: "irq list"
  busLocked :: bool
  ext :: 'x

text \<open>
  \<^verbatim>\<open>Bus.read\<close>, which \<^verbatim>\<open>executeDma\<close> calls, is not in \<^verbatim>\<open>bus.ts\<close> as given either. It is an
  argument \<open>rd\<close> of the functions that need it: a read may answer from, and change,
  anything in the world.
\<close>

type_synonym 'x BusRead = "int \<Rightarrow> 'x World \<Rightarrow> int \<times> 'x World"

definition Ppu_sized :: "Ppu \<Rightarrow> bool" where
  "Ppu_sized s \<longleftrightarrow> length (vram s) = 0x2000 \<and> length (oam s) = 0xa0 \<and> length (reg s) = 12
     \<and> length (frontBuffer s) = 160 * 144
     \<and> length (backBuffer s) = 160 * 144"

text \<open>
  Modelled from the spec: \<^verbatim>\<open>Interrupt.raise\<close>, of \<^verbatim>\<open>interrupt.ts\<close>, which is not among the
  sources. Spec 4.2: \<^verbatim>\<open>raise(kind)\<close> sets a bit in IF. The world keeps the requests made,
  oldest first (\<open>raised\<close>), so that they can be counted; IF follows from them.
\<close>

definition raise :: "irq \<Rightarrow> 'x World \<Rightarrow> 'x World" where
  "raise k w = w\<lparr> raised := raised w @ [k] \<rparr>"

definition IF_of :: "irq list \<Rightarrow> int" where
  "IF_of ks = fold (\<lambda>k f. f OR irq_bit k) ks 0"

text \<open>
  Modelled from the spec: \<^verbatim>\<open>Bus.lock\<close> and \<^verbatim>\<open>Bus.unlock\<close>, which are not in \<^verbatim>\<open>bus.ts\<close> as
  given. Spec 3: a single boolean bus lock; spec 4.1: \<^verbatim>\<open>lock()\<close> and \<^verbatim>\<open>unlock()\<close> are
  called by the PPU during OAM DMA.
\<close>

definition lock :: "'x World \<Rightarrow> 'x World" where
  "lock w = w\<lparr> busLocked := True \<rparr>"

definition unlock :: "'x World \<Rightarrow> 'x World" where
  "unlock w = w\<lparr> busLocked := False \<rparr>"

text \<open>\<^verbatim>\<open>(this.reg[reg.lcdc] & lcdc.enable) !== 0\<close>\<close>

definition lcdEnabled :: "Ppu \<Rightarrow> bool" where
  "lcdEnabled s \<longleftrightarrow> (reg s ! reg_lcdc) AND lcdc_enable \<noteq> 0"

text \<open>A store into a \<^verbatim>\<open>Uint32Array\<close>.\<close>

definition ta_set32 :: "int list \<Rightarrow> int \<Rightarrow> int \<Rightarrow> int list" where
  "ta_set32 xs i v = (if 0 \<le> i \<and> nat i < length xs then xs[nat i := toUint32 v] else xs)"

text \<open>\<^verbatim>\<open>x << n\<close> on 32-bit integers; \<^verbatim>\<open>undefined\<close> counts as 0 in a bit operation.\<close>

definition js_shl :: "int \<Rightarrow> int \<Rightarrow> int" where
  "js_shl x n = toInt32 (push_bit (nat (n mod 32)) x)"

definition num_or_0 :: "int option \<Rightarrow> int" where
  "num_or_0 v = (case v of None \<Rightarrow> 0 | Some x \<Rightarrow> x)"

definition vram16_get :: "Ppu \<Rightarrow> int \<Rightarrow> int option" where
  "vram16_get s k =
     (case (ta_get (vram s) (2 * k), ta_get (vram s) (2 * k + 1)) of
        (Some lo, Some hi) \<Rightarrow> Some (lo OR push_bit 8 hi)
      | _ \<Rightarrow> None)"

definition swapBuffers :: "Ppu \<Rightarrow> Ppu" where
  "swapBuffers s = s\<lparr> frontBuffer := backBuffer s, backBuffer := frontBuffer s,
                       frame := toInt32 (frame s + 1) \<rparr>"

definition backgroundTileData :: "Ppu \<Rightarrow> int \<Rightarrow> int \<Rightarrow> int \<Rightarrow> int option" where
  "backgroundTileData s nx ny y =
     (let tileMapBase = (if (reg s ! reg_lcdc) AND lcdc_bgTileMapArea \<noteq> 0 then 0x1c00 else 0x1800)
      in case ta_get (vram s) (tileMapBase + js_rem ny 32 * 32 + js_rem nx 32) of
           None \<Rightarrow> None
         | Some index \<Rightarrow>
             if index \<ge> 0x80 then vram16_get s (0x0400 + 8 * (index - 0x80) + y)
             else (let tileDataBase =
                         (if (reg s ! reg_lcdc) AND lcdc_bgTileDataArea \<noteq> 0 then 0x0000 else 0x800)
                   in vram16_get s (tileDataBase + 8 * index + y)))"

text \<open>
  The loop of \<^verbatim>\<open>renderLine\<close> over the pixels of a line; the first argument counts the
  pixels still to draw.
\<close>

fun renderPixels ::
  "nat \<Rightarrow> Ppu \<Rightarrow> int \<Rightarrow> int \<Rightarrow> int \<Rightarrow> int \<Rightarrow> int \<Rightarrow> int \<Rightarrow> int list \<Rightarrow> int list" where
  "renderPixels 0 s bgTileNY bgTileY bgTileX bgTileNX bgTileData pixelAddress buf = buf"
| "renderPixels (Suc n) s bgTileNY bgTileY bgTileX bgTileNX bgTileData pixelAddress buf =
     (let indexedBG = drop_bit 14 (bgTileData AND 0x8000) OR drop_bit 7 (bgTileData AND 0x80);
          buf1 = ta_set32 buf pixelAddress (num_or_0 (ta_get (paletteBG s) indexedBG))
      in if bgTileX = 7
         then renderPixels n s bgTileNY bgTileY 0 (bgTileNX + 1)
                (num_or_0 (backgroundTileData s (bgTileNX + 1) bgTileNY bgTileY))
                (pixelAddress + 1) buf1
         else renderPixels n s bgTileNY bgTileY (bgTileX + 1) bgTileNX
                (js_shl bgTileData 1) (pixelAddress + 1) buf1)"

definition renderLine :: "Ppu \<Rightarrow> Ppu" where
  "renderLine s =
     (let backgroundX = reg s ! reg_scx;
          backgroundY = reg s ! reg_scy + scanline s;
          bgTileNY = js_idiv backgroundY 8;
          bgTileY = js_rem backgroundY 8;
          bgTileX = js_rem backgroundX 8;
          bgTileNX = js_idiv backgroundX 8;
          bgTileData = js_shl (num_or_0 (backgroundTileData s bgTileNX bgTileNY bgTileY)) bgTileX;
          pixelAddress = 160 * scanline s
      in s\<lparr> backBuffer := renderPixels 160 s bgTileNY bgTileY bgTileX bgTileNX bgTileData
                                pixelAddress (backBuffer s) \<rparr>)"

text \<open>\<^verbatim>\<open>consumeClocks(clocks)\<close> returns the number of clocks it used.\<close>

definition consumeClocks :: "int \<Rightarrow> 'x World \<Rightarrow> int \<times> 'x World" where
  "consumeClocks clocks w =
     (let s = ppu w in
      case mode s of
        oamScan \<Rightarrow>
          if clocks + clockInMode s \<ge> 80
          then (80 - clockInMode s, w\<lparr> ppu := s\<lparr> mode := draw, clockInMode := 0 \<rparr> \<rparr>)
          else (clocks, w\<lparr> ppu := s\<lparr> clockInMode := clockInMode s + clocks \<rparr> \<rparr>)
      | draw \<Rightarrow>
          if clocks + clockInMode s \<ge> 172
          then (172 - clockInMode s,
                w\<lparr> ppu := renderLine (s\<lparr> mode := hblank, clockInMode := 0 \<rparr>) \<rparr>)
          else (clocks, w\<lparr> ppu := s\<lparr> clockInMode := clockInMode s + clocks \<rparr> \<rparr>)
      | hblank \<Rightarrow>
          if clocks + clockInMode s \<ge> 204
          then (let s1 = s\<lparr> scanline := scanline s + 1 \<rparr>
                in if scanline s1 = 144
                   then (204 - clockInMode s,
                         raise irq_vblank
                           (w\<lparr> ppu := s1\<lparr> mode := vblank, clockInMode := 0 \<rparr> \<rparr>))
                   else (204 - clockInMode s,
                         w\<lparr> ppu := s1\<lparr> mode := oamScan, clockInMode := 0 \<rparr> \<rparr>))
          else (clocks, w\<lparr> ppu := s\<lparr> clockInMode := clockInMode s + clocks \<rparr> \<rparr>)
      | vblank \<Rightarrow>
          if clocks + clockInMode s \<ge> 4560
          then (let s1 = s\<lparr> mode := oamScan, clockInMode := 0, scanline := 0 \<rparr>;
                    s2 = (if \<not> skipFrame s1 then swapBuffers s1 else s1)
                in (4560 - clockInMode s, w\<lparr> ppu := s2\<lparr> skipFrame := False \<rparr> \<rparr>))
          else (clocks,
                w\<lparr> ppu := s\<lparr> clockInMode := clockInMode s + clocks,
                              scanline := 144 + js_idiv (clockInMode s + clocks) 456 \<rparr> \<rparr>))"

definition updateStat :: "'x World \<Rightarrow> 'x World" where
  "updateStat w =
     (let s = ppu w;
          oldStat = stat s;
          statval = reg s ! reg_stat;
          newStat = ((reg s ! reg_lcdc) AND lcdc_enable \<noteq> 0 \<and>
                     ((statval AND stat_sourceLY \<noteq> 0 \<and> scanline s = reg s ! reg_lyc) \<or>
                      (statval AND stat_sourceModeOAM \<noteq> 0 \<and> mode s = oamScan) \<or>
                      (statval AND stat_sourceModeVblank \<noteq> 0 \<and> mode s = vblank) \<or>
                      (statval AND stat_sourceModeHblank \<noteq> 0 \<and> mode s = hblank)));
          w1 = w\<lparr> ppu := s\<lparr> stat := newStat \<rparr> \<rparr>
      in if newStat \<and> \<not> oldStat \<and> (reg s ! reg_lcdc) AND lcdc_enable \<noteq> 0x00
         then raise irq_stat w1 else w1)"

text \<open>
  The copy loop of \<^verbatim>\<open>executeDma\<close>: \<^verbatim>\<open>this.oam[i] = this.bus.read(base + i)\<close>, first
  argument the number of bytes still to copy.
\<close>

fun dmaCopy :: "'x BusRead \<Rightarrow> int \<Rightarrow> nat \<Rightarrow> int \<Rightarrow> 'x World \<Rightarrow> 'x World" where
  "dmaCopy rd base 0 i w = w"
| "dmaCopy rd base (Suc k) i w =
     (let (v, w1) = rd (base + i) w
      in dmaCopy rd base k (i + 1) (w1\<lparr> ppu := (ppu w1)\<lparr> oam := ta_set8 (oam (ppu w1)) i v \<rparr> \<rparr>))"

text \<open>\<^verbatim>\<open>this.reg[reg.dma] % 0xe0 << 8\<close>: the remainder binds tighter than the shift.\<close>

definition executeDma :: "'x BusRead \<Rightarrow> 'x World \<Rightarrow> 'x World" where
  "executeDma rd w =
     (let w1 = unlock w;
          w2 = w1\<lparr> ppu := (ppu w1)\<lparr> dmaInProgress := False, dmaCycle := 0 \<rparr> \<rparr>;
          base = js_shl (js_rem (reg (ppu w2) ! reg_dma) 0xe0) 8
      in dmaCopy rd base 160 0 w2)"

text \<open>The first loop of \<^verbatim>\<open>cycle\<close>; it returns the clocks left over and the world.\<close>

function dmaLoop :: "'x BusRead \<Rightarrow> int \<Rightarrow> 'x World \<Rightarrow> int \<times> 'x World" where
  "dmaLoop rd systemClocks w =
     (if dmaInProgress (ppu w) \<and> systemClocks > 0
      then (let w1 = w\<lparr> ppu := (ppu w)\<lparr> dmaCycle := dmaCycle (ppu w) + 1 \<rparr> \<rparr>;
                w2 = (if dmaCycle (ppu w1) > 640 then executeDma rd w1 else w1);
                w3 = (if (reg (ppu w2) ! reg_lcdc) AND lcdc_enable \<noteq> 0
                      then snd (consumeClocks 1 w2) else w2)
            in dmaLoop rd (systemClocks - 1) w3)
      else (systemClocks, w))"
  by pat_completeness auto
termination
  by (relation "measure (\<lambda>(rd, n, w). nat n)") auto

declare dmaLoop.simps [simp del]

text \<open>
  The second loop of \<^verbatim>\<open>cycle\<close>. It ends because a call of \<^verbatim>\<open>consumeClocks\<close> uses at
  least one clock unless the clock in the mode had already reached the mode's length,
  and then it sets that clock to 0.
\<close>

definition modeLength :: "ppuMode \<Rightarrow> int" where
  "modeLength m = (case m of oamScan \<Rightarrow> 80 | draw \<Rightarrow> 172 | hblank \<Rightarrow> 204 | vblank \<Rightarrow> 4560)"

definition overdue :: "'x World \<Rightarrow> bool" where
  "overdue w \<longleftrightarrow> clockInMode (ppu w) \<ge> modeLength (mode (ppu w))"

function modeLoop :: "int \<Rightarrow> 'x World \<Rightarrow> 'x World" where
  "modeLoop systemClocks w =
     (if systemClocks > 0
      then (let (consumed, w1) = consumeClocks systemClocks w
            in modeLoop (systemClocks - consumed) (updateStat w1))
      else w)"
  by pat_completeness auto
termination
proof (relation "inv_image (less_than <*lex*> less_than)
                   (\<lambda>(n, w). (if overdue w then 1 else (0::nat), nat n))")
  show "wf (inv_image (less_than <*lex*> less_than)
              (\<lambda>(n, w :: 'x World). (if overdue w then 1 else (0::nat), nat n)))"
    by (intro wf_inv_image wf_lex_prod wf_less_than)
next
  fix systemClocks :: int and w :: "'x World" and x consumed and w1 :: "'x World"
  assume pos: "0 < systemClocks"
    and x: "x = consumeClocks systemClocks w"
    and c: "(consumed, w1) = x"
  have keep: "overdue (updateStat w1) = overdue w1"
    by (simp add: updateStat_def overdue_def raise_def Let_def)
  have rl: "\<And>s. mode (renderLine s) = mode s" "\<And>s. clockInMode (renderLine s) = clockInMode s"
    by (simp_all add: renderLine_def Let_def)
  have sb: "\<And>s. mode (swapBuffers s) = mode s" "\<And>s. clockInMode (swapBuffers s) = clockInMode s"
    by (simp_all add: swapBuffers_def)
  from x c have cc: "consumeClocks systemClocks w = (consumed, w1)" by simp
  have "(overdue w \<and> \<not> overdue w1) \<or> (\<not> overdue w \<and> \<not> overdue w1 \<and> 1 \<le> consumed)"
    using cc pos
    by (cases "mode (ppu w)")
       (auto simp add: consumeClocks_def overdue_def modeLength_def raise_def Let_def rl sb
             split: if_splits)
  then show "((systemClocks - consumed, updateStat w1), (systemClocks, w))
         \<in> inv_image (less_than <*lex*> less_than)
              (\<lambda>(n, w). (if overdue w then 1 else (0::nat), nat n))"
    using pos by (auto simp add: keep)
qed

declare modeLoop.simps [simp del]

definition cycle :: "'x BusRead \<Rightarrow> int \<Rightarrow> 'x World \<Rightarrow> 'x World" where
  "cycle rd systemClocks w =
     (let (n, w1) = dmaLoop rd systemClocks w
      in if (reg (ppu w1) ! reg_lcdc) AND lcdc_enable = 0 then w1 else modeLoop n w1)"

text \<open>
  The handlers. Those that touch only the PPU are functions of the PPU state. A read
  returns \<open>None\<close> where the source reads an element the array does not have.
\<close>

definition vramRead :: "int \<Rightarrow> Ppu \<Rightarrow> int option" where
  "vramRead address s =
     (if (reg s ! reg_lcdc) AND lcdc_enable = 0 \<or> mode s \<noteq> draw
      then ta_get (vram s) (address AND 0x1fff) else Some 0xff)"

definition vramWrite :: "int \<Rightarrow> int \<Rightarrow> Ppu \<Rightarrow> Ppu" where
  "vramWrite address v s =
     (if (reg s ! reg_lcdc) AND lcdc_enable = 0 \<or> mode s \<noteq> draw
      then s\<lparr> vram := ta_set8 (vram s) (address AND 0x1fff) v \<rparr> else s)"

definition oamRead :: "int \<Rightarrow> Ppu \<Rightarrow> int option" where
  "oamRead address s =
     (if (reg s ! reg_lcdc) AND lcdc_enable = 0 \<or> (mode s \<noteq> draw \<and> mode s \<noteq> oamScan)
      then ta_get (oam s) (address AND 0xff) else Some 0xff)"

definition oamWrite :: "int \<Rightarrow> int \<Rightarrow> Ppu \<Rightarrow> Ppu" where
  "oamWrite address v s =
     (if (reg s ! reg_lcdc) AND lcdc_enable = 0 \<or> (mode s \<noteq> draw \<and> mode s \<noteq> oamScan)
      then s\<lparr> oam := ta_set8 (oam s) (address AND 0xff) v \<rparr> else s)"

definition registerRead :: "int \<Rightarrow> Ppu \<Rightarrow> int option" where
  "registerRead address s = ta_get (reg s) (address - reg_base)"

definition registerWrite :: "int \<Rightarrow> int \<Rightarrow> 'x World \<Rightarrow> 'x World" where
  "registerWrite address v w =
     updateStat (w\<lparr> ppu := (ppu w)\<lparr> reg := ta_set8 (reg (ppu w)) (address - reg_base) v \<rparr> \<rparr>)"

definition statRead :: "int \<Rightarrow> Ppu \<Rightarrow> int" where
  "statRead address s =
     ((reg s ! reg_stat) AND 0xf8) OR (if reg s ! reg_lyc = scanline s then 0x04 else 0)
       OR ppuMode_value (mode s)"

definition lyRead :: "int \<Rightarrow> Ppu \<Rightarrow> int" where
  "lyRead address s = scanline s"

definition stubWrite :: "int \<Rightarrow> int \<Rightarrow> Ppu \<Rightarrow> Ppu" where
  "stubWrite address v s = s"

definition dmaWrite :: "int \<Rightarrow> int \<Rightarrow> 'x World \<Rightarrow> 'x World" where
  "dmaWrite address v w =
     lock (w\<lparr> ppu := (ppu w)\<lparr> reg := ta_set8 (reg (ppu w)) (int reg_dma) v,
                              dmaCycle := 0, dmaInProgress := True \<rparr> \<rparr>)"

text \<open>
  \<^verbatim>\<open>PALETTE_CLASSIC\<close> (\<^verbatim>\<open>palette.ts\<close>) is not among the sources: it is the argument \<open>pal\<close>.
\<close>

definition bgpWrite :: "int list \<Rightarrow> int \<Rightarrow> int \<Rightarrow> Ppu \<Rightarrow> Ppu" where
  "bgpWrite pal address v0 s =
     (let v = v0 AND 0xff;
          s1 = s\<lparr> reg := ta_set8 (reg s) (int reg_bgp) v \<rparr>
      in s1\<lparr> paletteBG :=
               fold (\<lambda>i p. ta_set32 p (int i)
                               (num_or_0 (ta_get pal (drop_bit (2 * i) v AND 0x03))))
                    [0..<4] (paletteBG s1) \<rparr>)"

definition lcdcWrite :: "int list \<Rightarrow> int \<Rightarrow> int \<Rightarrow> Ppu \<Rightarrow> Ppu" where
  "lcdcWrite pal address v s =
     (let oldValue = reg s ! reg_lcdc;
          s1 = s\<lparr> reg := ta_set8 (reg s) (int reg_lcdc) v \<rparr>;
          s2 = (if (NOT oldValue) AND (reg s1 ! reg_lcdc) AND lcdc_enable \<noteq> 0
                then s1\<lparr> skipFrame := True \<rparr> else s1)
      in if oldValue AND (NOT (reg s2 ! reg_lcdc)) AND lcdc_enable \<noteq> 0
         then swapBuffers (s2\<lparr> backBuffer :=
                 replicate (length (backBuffer s2)) (toUint32 (num_or_0 (ta_get pal 4))) \<rparr>)
         else s2)"

text \<open>The field initialisers of the class, then \<^verbatim>\<open>reset()\<close>.\<close>

definition Ppu_new :: "int list \<Rightarrow> Ppu" where
  "Ppu_new pal =
     \<lparr> clockInMode = 0, scanline = 0, frame = 0, mode = oamScan, skipFrame = False,
       vram = replicate 0x2000 0, oam = replicate 0xa0 0, stat = False,
       dmaInProgress = False, dmaCycle = 0, reg = replicate (reg_wx + 1) 0,
       paletteBG = pal, frontBuffer = replicate (160 * 144) 0,
       backBuffer = replicate (160 * 144) 0 \<rparr>"

definition Ppu_reset :: "int list \<Rightarrow> Ppu \<Rightarrow> Ppu" where
  "Ppu_reset pal s =
     s\<lparr> clockInMode := 0, mode := oamScan, scanline := 0, frame := 0, stat := False,
        dmaInProgress := False, dmaCycle := 0, skipFrame := False,
        vram := replicate (length (vram s)) 0,
        oam := replicate (length (oam s)) 0,
        reg := (replicate (length (reg s)) 0)[reg_lcdc := lcdc_enable],
        paletteBG := take 4 pal @ drop 4 (paletteBG s),
        frontBuffer := replicate (length (frontBuffer s)) (toUint32 (num_or_0 (ta_get pal 4))),
        backBuffer := replicate (length (backBuffer s)) (toUint32 (num_or_0 (ta_get pal 4))) \<rparr>"

subsection \<open>The frame schedule of the spec\<close>

text \<open>
  Spec 4.5 in its own words, for comparison with \<open>cycle\<close>: a scanline is 456 clocks,
  80 of OAM scan, 172 of drawing, 204 of horizontal blank; after the horizontal blank
  of line 143 come 4560 clocks of vertical blank, LY counting on through 153; then the
  frame restarts. A position \<open>p\<close> counts the clocks since the start of the frame.
\<close>

abbreviation (input) frameClocks :: int where "frameClocks \<equiv> 70224"

definition spec_mode :: "int \<Rightarrow> ppuMode" where
  "spec_mode p =
     (if p < 144 * 456
      then (if p mod 456 < 80 then oamScan
            else if p mod 456 < 80 + 172 then draw
            else hblank)
      else vblank)"

definition spec_ly :: "int \<Rightarrow> int" where
  "spec_ly p = p div 456"

definition spec_clockInMode :: "int \<Rightarrow> int" where
  "spec_clockInMode p =
     (if p < 144 * 456
      then (if p mod 456 < 80 then p mod 456
            else if p mod 456 < 80 + 172 then p mod 456 - 80
            else p mod 456 - (80 + 172))
      else p - 144 * 456)"

definition at_position :: "Ppu \<Rightarrow> int \<Rightarrow> bool" where
  "at_position s p \<longleftrightarrow>
     mode s = spec_mode p \<and> scanline s = spec_ly p \<and> clockInMode s = spec_clockInMode p"

definition vblank_requests :: "'x World \<Rightarrow> int" where
  "vblank_requests w = int (length (filter (\<lambda>k. k = irq_vblank) (raised w)))"

text \<open>A bus whose reads change neither the PPU nor the interrupt requests.\<close>

definition reads_keep_ppu :: "'x BusRead \<Rightarrow> bool" where
  "reads_keep_ppu rd \<longleftrightarrow>
     (\<forall>a w. ppu (snd (rd a w)) = ppu w \<and> raised (snd (rd a w)) = raised w)"

text \<open>
  The invariant of the proofs: after \<open>P\<close> clocks, counted from the start of some
  frame, the PPU is at position \<open>P mod 70224\<close> of the schedule and one vertical-blank
  interrupt was requested for every vertical blank entered. \<open>C\<close> is the number of
  requests made before.
\<close>

definition tracks :: "int \<Rightarrow> int \<Rightarrow> 'x World \<Rightarrow> bool" where
  "tracks P C w \<longleftrightarrow>
     lcdEnabled (ppu w) \<and> 0 \<le> P \<and> at_position (ppu w) (P mod frameClocks)
     \<and> vblank_requests w = C + P div frameClocks + (if P mod frameClocks \<ge> 144 * 456 then 1 else 0)"

subsection \<open>OAM DMA in progress\<close>

text \<open>
  The state of a transfer that was started by a write of \<open>v\<close> to the DMA register and
  has seen \<open>d\<close> clocks since.
\<close>

definition dma_pending :: "int \<Rightarrow> int \<Rightarrow> 'x World \<Rightarrow> bool" where
  "dma_pending v d w \<longleftrightarrow>
     dmaInProgress (ppu w) \<and> busLocked w \<and> dmaCycle (ppu w) = d
     \<and> reg (ppu w) ! reg_dma = v \<and> length (oam (ppu w)) = 0xa0"

text \<open>
  The world in which \<^verbatim>\<open>executeDma\<close> makes its reads: the bus released, the flag and the
  counter of the transfer cleared (its first three statements).
\<close>

definition dma_released :: "'x World \<Rightarrow> 'x World" where
  "dma_released w = (unlock w)\<lparr> ppu := (ppu (unlock w))\<lparr> dmaInProgress := False, dmaCycle := 0 \<rparr> \<rparr>"

text \<open>
  The bytes the bus returns when the \<open>k\<close> addresses \<open>base + i\<close>, \<open>base + i + 1\<close>, ... are
  read one after the other, every read in the world the one before it left.
\<close>

fun busBytes :: "'x BusRead \<Rightarrow> int \<Rightarrow> nat \<Rightarrow> int \<Rightarrow> 'x World \<Rightarrow> int list" where
  "busBytes rd base 0 i w = []"
| "busBytes rd base (Suc k) i w =
     (let (v, w1) = rd (base + i) w in v # busBytes rd base k (i + 1) w1)"

text \<open>
  What a transfer needs of the bus: a read of one of the 160 source addresses changes
  nothing of the world but \<open>ext\<close>, and neither its answer nor what it does to \<open>ext\<close>
  depends on the contents of OAM. The source addresses of a transfer lie in
  \<open>0x0000..0xDF9F\<close>. The one handler of the PPU there, \<open>vramRead\<close>, changes nothing and
  does not look at OAM, whatever the mode; the handlers of the other components and
  the invalid handler of the bus cannot reach the state of the PPU.
\<close>

definition reads_beside_oam :: "'x BusRead \<Rightarrow> int \<Rightarrow> bool" where
  "reads_beside_oam rd base \<longleftrightarrow>
     (\<forall>i w xs. 0 \<le> i \<and> i < 160 \<longrightarrow>
        rd (base + i) (w\<lparr> ppu := (ppu w)\<lparr> oam := xs \<rparr> \<rparr>)
          = (fst (rd (base + i) w),
             w\<lparr> ppu := (ppu w)\<lparr> oam := xs \<rparr>, ext := ext (snd (rd (base + i) w)) \<rparr>))"

section \<open>Cartridge: MBC3 (CartridgeMbc3.ts)\<close>

text \<open>
  \<^verbatim>\<open>CartridgeBase\<close> is not among the sources. What the controller takes from it
  (\<^verbatim>\<open>type()\<close>, \<^verbatim>\<open>size()\<close>, \<^verbatim>\<open>ramSize()\<close>, all read from the image header) is given:
  the type is a field of the state, the two sizes are arguments of the constructor.
  The names of the MBC3 types are those the controller and the spec (section 6) use.
\<close>

datatype CartridgeType =
  mbc3 | mbc3_ram | mbc3_ram_battery | mbc3_timer_battery | mbc3_timer_ram_battery

text \<open>
  \<^verbatim>\<open>romBanks[i]\<close> and \<^verbatim>\<open>ramBanks[i]\<close> are \<^verbatim>\<open>subarray\<close> views of \<^verbatim>\<open>image\<close> and
  \<^verbatim>\<open>ram\<close>: they share the storage. \<^verbatim>\<open>romBank1\<close> and \<^verbatim>\<open>ramBank\<close> are always assigned
  together with their index (\<^verbatim>\<open>ramBank = ramBanks[ramBankIndex]\<close>, or \<^verbatim>\<open>ram\<close> itself
  when there is no RAM), so the model keeps the index and reads through it.
  \<^verbatim>\<open>romBanks\<close> has \<^verbatim>\<open>(romSize / 0x4000) | 0\<close> entries (\<open>romBanks_length\<close>), \<^verbatim>\<open>ramBanks\<close> has
  \<^verbatim>\<open>(ramSize / 0x2000) | 0\<close>, where \<^verbatim>\<open>ramSize\<close> is the length of \<^verbatim>\<open>ram\<close>.
  An index is \<open>None\<close> when the source computed NaN (\<^verbatim>\<open>value % 0\<close>).
  Every \<^verbatim>\<open>Date.now()\<close> of the source is an argument \<open>now\<close>, already in seconds and
  cut to 32 bits: \<^verbatim>\<open>(Date.now() / 1000) | 0\<close>.
\<close>

record Mbc3 =
  cartridgeType :: CartridgeType
  image :: "int list"
  romBanks_length :: int
  ram :: "int list"
  romBankIndex :: "int option"
  ramBankIndex :: "int option"
  secondsLatched :: int
  minutesLatched :: int
  hoursLatched :: int
  daysLatched :: int
  secondsCurrent :: int
  minutesCurrent :: int
  hoursCurrent :: int
  daysCurrent :: int
  halt :: bool
  ramEnable :: bool
  registerSelect :: int
  lastLatch :: int
  referenceTimestamp :: int

datatype Mbc3Error = InvalidRomSize | InvalidRamSize

definition ramBanks_length :: "Mbc3 \<Rightarrow> int" where
  "ramBanks_length s = int (length (ram s)) div 0x2000"

definition Mbc3_constructor ::
  "CartridgeType \<Rightarrow> int list \<Rightarrow> int \<Rightarrow> int \<Rightarrow> int \<Rightarrow> Mbc3Error + Mbc3" where
  "Mbc3_constructor ty img romSize ramSize now =
     (if js_rem romSize 0x4000 \<noteq> 0 \<or> romSize > 2 * 1024 * 1024 \<or> romSize < 2 * 0x4000
      then Inl InvalidRomSize
      else if js_rem ramSize 0x2000 \<noteq> 0 then Inl InvalidRamSize
      else Inr \<lparr> cartridgeType = ty, image = img, romBanks_length = js_idiv romSize 0x4000,
                 ram = replicate (nat ramSize) 0,
                 romBankIndex = Some 0x01, ramBankIndex = Some 0x00,
                 secondsLatched = 0, minutesLatched = 0, hoursLatched = 0, daysLatched = 0,
                 secondsCurrent = 0, minutesCurrent = 0, hoursCurrent = 0, daysCurrent = 0,
                 halt = False, ramEnable = False, registerSelect = 0,
                 lastLatch = 0xff, referenceTimestamp = now \<rparr>)"

definition materializeClock :: "int \<Rightarrow> Mbc3 \<Rightarrow> Mbc3" where
  "materializeClock now s =
     (let time0 = now - referenceTimestamp s;
          time1 = (if time0 < 0 then 0 else time0);
          days = js_idiv time1 (24 * 3600);
          time2 = time1 - days * 24 * 3600;
          hours = js_idiv time2 3600;
          time3 = time2 - days * 3600;
          minutes = js_idiv time3 60;
          time4 = time3 - minutes * 60
      in s\<lparr> daysCurrent := days, hoursCurrent := hours,
             minutesCurrent := minutes, secondsCurrent := time4 \<rparr>)"

definition latch :: "int \<Rightarrow> Mbc3 \<Rightarrow> Mbc3" where
  "latch now s =
     (let s1 = materializeClock now s
      in s1\<lparr> secondsCurrent := secondsLatched s1, minutesCurrent := minutesLatched s1,
              hoursCurrent := hoursLatched s1, daysCurrent := daysLatched s1 \<rparr>)"

definition updateClock :: "int \<Rightarrow> Mbc3 \<Rightarrow> Mbc3" where
  "updateClock now s =
     (let time = (daysCurrent s AND 0x01ff) * 24 * 3600 + js_rem (hoursCurrent s) 24 * 3600
                 + js_rem (minutesCurrent s) 60 * 60 + js_rem (secondsCurrent s) 60
      in s\<lparr> referenceTimestamp := now - time \<rparr>)"

definition is_battery :: "CartridgeType \<Rightarrow> bool" where
  "is_battery ty = (case ty of
       mbc3_ram_battery \<Rightarrow> True
     | mbc3_timer_battery \<Rightarrow> True
     | mbc3_timer_ram_battery \<Rightarrow> True
     | _ \<Rightarrow> False)"

text \<open>
  \<^verbatim>\<open>reset(savedRam?)\<close>. The first \<open>now\<close> is the \<^verbatim>\<open>Date.now()\<close> of the default branch,
  the second the one of \<^verbatim>\<open>latch()\<close>.
\<close>

definition Mbc3_reset :: "int \<Rightarrow> int \<Rightarrow> int list option \<Rightarrow> Mbc3 \<Rightarrow> Mbc3" where
  "Mbc3_reset now1 now2 savedRam s =
     (let s1 = s\<lparr> romBankIndex := Some 0x01, ramBankIndex := Some 0x00, halt := False,
                  lastLatch := 0xff, ramEnable := False, registerSelect := 0 \<rparr>;
          n = length (ram s1);
          s2 = (if is_battery (cartridgeType s1)
                then (case savedRam of
                        None \<Rightarrow> s1
                      | Some sv \<Rightarrow>
                          if length sv = n + 4
                          then s1\<lparr> ram := (if n > 0 then take n sv else ram s1),
                                   referenceTimestamp :=
                                     toInt32 (sv ! n OR push_bit 8 (sv ! (n + 1))
                                              OR push_bit 16 (sv ! (n + 2))
                                              OR push_bit 24 (sv ! (n + 3))) \<rparr>
                          else s1)
                else s1\<lparr> ram := replicate n 0, referenceTimestamp := now1 \<rparr>)
      in latch now2 s2)"

definition clearRam :: "int \<Rightarrow> Mbc3 \<Rightarrow> Mbc3" where
  "clearRam now s = s\<lparr> ram := replicate (length (ram s)) 0, referenceTimestamp := now \<rparr>"

definition getRam :: "Mbc3 \<Rightarrow> int list option" where
  "getRam s =
     (if is_battery (cartridgeType s)
      then Some (ram s @ [toUint8 (referenceTimestamp s),
                          toUint8 (drop_bit 8 (toUint32 (referenceTimestamp s))),
                          toUint8 (drop_bit 16 (toUint32 (referenceTimestamp s))),
                          toUint8 (drop_bit 24 (toUint32 (referenceTimestamp s)))])
      else None)"

definition readRegister :: "int \<Rightarrow> Mbc3 \<Rightarrow> int" where
  "readRegister register s =
     (if register = 0x08 then secondsLatched s
      else if register = 0x09 then minutesLatched s
      else if register = 0x0a then hoursLatched s
      else if register = 0x0b then daysLatched s AND 0xff
      else if register = 0x0c then
        drop_bit 8 (daysLatched s AND 0x0100) OR (if halt s then 0x40 else 0)
          OR (if daysLatched s > 0x01ff then 0x80 else 0)
      else 0x00)"

text \<open>
  \<^verbatim>\<open>writeRegister\<close>: \<open>now1\<close> is the time \<^verbatim>\<open>materializeClock\<close> sees, \<open>now2\<close> the
  time \<^verbatim>\<open>updateClock\<close> sees.
\<close>

definition writeRegister :: "int \<Rightarrow> int \<Rightarrow> int \<Rightarrow> int \<Rightarrow> Mbc3 \<Rightarrow> Mbc3" where
  "writeRegister now1 now2 register v s =
     (let s1 = (if \<not> halt s then materializeClock now1 s else s) in
      if register = 0x08 then
        (let s2 = s1\<lparr> secondsCurrent := v AND 60 \<rparr>
         in if \<not> halt s2 then updateClock now2 s2 else s2)
      else if register = 0x09 then
        (let s2 = s1\<lparr> minutesCurrent := v AND 60 \<rparr>
         in if \<not> halt s2 then updateClock now2 s2 else s2)
      else if register = 0x0a then
        (let s2 = s1\<lparr> hoursCurrent := v AND 24 \<rparr>
         in if \<not> halt s2 then updateClock now2 s2 else s2)
      else if register = 0x0b then
        (let s2 = s1\<lparr> daysCurrent := (daysCurrent s1 AND NOT 0xff) OR v \<rparr>
         in if \<not> halt s2 then updateClock now2 s2 else s2)
      else if register = 0x0c then
        (let s2 = s1\<lparr> halt := (v AND 0x40 \<noteq> 0) \<rparr>;
             s3 = s2\<lparr> daysCurrent := (daysCurrent s2 AND 0xff) OR push_bit 8 (v AND 0x01) \<rparr>
         in if \<not> halt s3 then updateClock now2 s3 else s3)
      else s)"

text \<open>
  The element \<open>i\<close> of \<^verbatim>\<open>ramBank\<close>: of the view \<^verbatim>\<open>ramBanks[ramBankIndex]\<close>
  (\<open>0x2000\<close> bytes of \<^verbatim>\<open>ram\<close>) when there is RAM, of the empty \<^verbatim>\<open>ram\<close> otherwise.
  \<open>None\<close> is no element (\<^verbatim>\<open>undefined\<close>).
\<close>

definition ramBank_index :: "Mbc3 \<Rightarrow> int \<Rightarrow> int option" where
  "ramBank_index s i =
     (case ramBankIndex s of
        None \<Rightarrow> None
      | Some k \<Rightarrow>
          if 0 \<le> k \<and> k < ramBanks_length s \<and> 0 \<le> i \<and> i < 0x2000
          then Some (k * 0x2000 + i) else None)"

definition romBank1_index :: "Mbc3 \<Rightarrow> int \<Rightarrow> int option" where
  "romBank1_index s i =
     (case romBankIndex s of
        None \<Rightarrow> None
      | Some k \<Rightarrow>
          if 0 \<le> k \<and> k < romBanks_length s \<and> 0 \<le> i \<and> i < 0x4000
          then Some (k * 0x4000 + i) else None)"

definition readBank0 :: "int \<Rightarrow> Mbc3 \<Rightarrow> int option" where
  "readBank0 address s = ta_get (image s) address"

definition readBank1 :: "int \<Rightarrow> Mbc3 \<Rightarrow> int option" where
  "readBank1 address s =
     (case romBank1_index s (address AND 0x3fff) of
        None \<Rightarrow> None
      | Some j \<Rightarrow> ta_get (image s) j)"

definition readBankRam :: "int \<Rightarrow> Mbc3 \<Rightarrow> int option" where
  "readBankRam address s =
     (if \<not> ramEnable s then Some 0xff
      else if registerSelect s > 0 then Some (readRegister (registerSelect s) s)
      else (case ramBank_index s (address - 0xa000) of
              None \<Rightarrow> None
            | Some j \<Rightarrow> ta_get (ram s) j))"

definition writeRamEnable :: "int \<Rightarrow> int \<Rightarrow> Mbc3 \<Rightarrow> Mbc3" where
  "writeRamEnable address v s = s\<lparr> ramEnable := (v = 0x0a \<and> length (ram s) > 0) \<rparr>"

definition writeRomBankIndex :: "int \<Rightarrow> int \<Rightarrow> Mbc3 \<Rightarrow> Mbc3" where
  "writeRomBankIndex address v s =
     s\<lparr> romBankIndex := (if v = 0x00 then Some 0x01 else js_rem_nan v (romBanks_length s)) \<rparr>"

definition writeRamBankIndex :: "int \<Rightarrow> int \<Rightarrow> Mbc3 \<Rightarrow> Mbc3" where
  "writeRamBankIndex address v s =
     (if v \<le> 0x03
      then s\<lparr> ramBankIndex := js_rem_nan v (ramBanks_length s), registerSelect := 0 \<rparr>
      else s\<lparr> registerSelect := v \<rparr>)"

definition writeLatch :: "int \<Rightarrow> int \<Rightarrow> int \<Rightarrow> Mbc3 \<Rightarrow> Mbc3" where
  "writeLatch now address v s =
     (let s1 = (if v = 0x01 \<and> lastLatch s = 0x00 then latch now s else s)
      in s1\<lparr> lastLatch := v \<rparr>)"

definition writeBankRam :: "int \<Rightarrow> int \<Rightarrow> int \<Rightarrow> int \<Rightarrow> Mbc3 \<Rightarrow> Mbc3" where
  "writeBankRam now1 now2 address v s =
     (if \<not> ramEnable s then s
      else if registerSelect s > 0 then writeRegister now1 now2 (registerSelect s) v s
      else (case ramBank_index s (address - 0xa000) of
              None \<Rightarrow> s
            | Some j \<Rightarrow> s\<lparr> ram := ta_set8 (ram s) j v \<rparr>))"

text \<open>
  A cartridge for the examples: 32 KiB of ROM, one 8 KiB bank of RAM, battery and
  timer, built and reset at time 1000.
\<close>

definition demo_cart :: Mbc3 where
  "demo_cart =
     (case Mbc3_constructor mbc3_timer_ram_battery (replicate 0x8000 0) 0x8000 0x2000 1000 of
        Inr s \<Rightarrow> Mbc3_reset 1000 1000 None s
      | Inl e \<Rightarrow> undefined)"

text \<open>The same cartridge with RAM enabled and the selector written with \<open>r\<close>.\<close>

definition rtc_cart :: "int \<Rightarrow> Mbc3" where
  "rtc_cart r = writeRamBankIndex 0x4000 r (writeRamEnable 0x0000 0x0a demo_cart)"

text \<open>The same cartridge after the byte \<open>0x42\<close> was stored at \<open>0xa000\<close>.\<close>

definition saved_cart :: Mbc3 where
  "saved_cart = writeBankRam 1000 1000 0xa000 0x42 (writeRamEnable 0x0000 0x0a demo_cart)"

text \<open>
  A PPU for the examples: freshly built and reset, with some five-colour palette, in a
  world where nothing else is mapped; the bus answers \<open>0x11\<close> below \<open>0x00a0\<close> and
  \<open>0x22\<close> everywhere else.
\<close>

definition demo_palette :: "int list" where
  "demo_palette = [0xffffffff, 0xffaaaaaa, 0xff555555, 0xff000000, 0xff88aa88]"

definition demo_world :: "unit World" where
  "demo_world = \<lparr> ppu = Ppu_reset demo_palette (Ppu_new demo_palette), raised = [],
                   busLocked = False, ext = () \<rparr>"

definition demo_rd :: "unit BusRead" where
  "demo_rd a w = (if a < 0xa0 then 0x11 else 0x22, w)"

text \<open>
  A bus wired as \<^verbatim>\<open>Ppu.install\<close> wires it: \<open>vramRead\<close> answers at \<open>0x8000..0x9FFF\<close> and
  \<open>oamRead\<close> at \<open>0xFE00..0xFE9F\<close>; everywhere else it answers as \<open>demo_rd\<close>. A byte the
  array does not have is \<^verbatim>\<open>undefined\<close>, which a byte array stores as 0.
\<close>

definition wired_rd :: "unit BusRead" where
  "wired_rd a w =
     (if 0x8000 \<le> a \<and> a < 0xa000 then (num_or_0 (vramRead a (ppu w)), w)
      else if 0xfe00 \<le> a \<and> a < 0xfea0 then (num_or_0 (oamRead a (ppu w)), w)
      else demo_rd a w)"

text \<open>
  A machine for the examples, as the tests of the repository set it up: a bus on which
  every address is plain memory, a clock that counts the cycles, a break sink that
  keeps its messages.
\<close>

record TestWorld =
  memory :: "int \<Rightarrow> int"
  cpuCycles :: int
  breaks :: "string list"

definition test_env :: "TestWorld CpuEnv" where
  "test_env =
     \<lparr> env_read = (\<lambda>a w. (memory w a, w)),
       env_write = (\<lambda>a v w. w\<lparr> memory := (memory w)(a := v) \<rparr>),
       env_clock_increment = (\<lambda>c w. w\<lparr> cpuCycles := cpuCycles w + c \<rparr>),
       env_break = (\<lambda>m w. w\<lparr> breaks := breaks w @ [m] \<rparr>) \<rparr>"

text \<open>
  The CPU after \<^verbatim>\<open>reset\<close>, with interrupts enabled and the stack pointer at \<open>0x1000\<close>;
  a NOP at \<open>0x0100\<close>, IF (\<open>0xFF0F\<close>) holding the vblank bit and IE (\<open>0xFFFF\<close>) \<open>0x1F\<close>.
\<close>

definition irq_cpu :: CpuState where
  "irq_cpu = (r16_set (Cpu_reset Cpu_constructor) r16_sp 0x1000)\<lparr> enableInterrupts := True \<rparr>"

definition irq_world :: TestWorld where
  "irq_world = \<lparr> memory = (\<lambda>a. 0)(0x0100 := 0x00, 0xff0f := 0x01, 0xffff := 0x1f),
                  cpuCycles = 0, breaks = [] \<rparr>"

text \<open>The bytes \<open>C3 34 12\<close> (JP \<open>0x1234\<close>) at \<open>0x0100\<close>, and \<open>FE 42\<close> (CP \<open>0x42\<close>).\<close>

definition jp_world :: TestWorld where
  "jp_world = \<lparr> memory = (\<lambda>a. 0)(0x0100 := 0xc3, 0x0101 := 0x34, 0x0102 := 0x12),
                 cpuCycles = 0, breaks = [] \<rparr>"

definition cp_world :: TestWorld where
  "cp_world = \<lparr> memory = (\<lambda>a. 0)(0x0100 := 0xfe, 0x0101 := 0x42),
                 cpuCycles = 0, breaks = [] \<rparr>"

section \<open>Properties of the bus\<close>

lemma ctor_maps_aux:
  "readMap (fold (\<lambda>i b. b\<lparr> readMap := (readMap b)(int i \<mapsto> r),
                     writeMap := (writeMap b)(int i \<mapsto> wr) \<rparr>) [0..<n] b0) a
     = (if 0 \<le> a \<and> a < int n then Some r else readMap b0 a)
   \<and> writeMap (fold (\<lambda>i b. b\<lparr> readMap := (readMap b)(int i \<mapsto> r),
                     writeMap := (writeMap b)(int i \<mapsto> wr) \<rparr>) [0..<n] b0) a
     = (if 0 \<le> a \<and> a < int n then Some wr else writeMap b0 a)"
  by (induction n) auto

lemma ctor_maps:
  "readMap (Bus_constructor brk) a = (if 0 \<le> a \<and> a < 0x10000 then Some (invalidRead brk) else None)"
  "writeMap (Bus_constructor brk) a = (if 0 \<le> a \<and> a < 0x10000 then Some (invalidWrite brk) else None)"
  using ctor_maps_aux[where r = "invalidRead brk" and wr = "invalidWrite brk" and n = "0x10000"
      and a = a and ?b0.0 = "\<lparr> system_break = brk, readMap = Map.empty, writeMap = Map.empty \<rparr>"]
  by (simp_all add: Bus_constructor_def)

lemma hexValue_hexDigit: "(k::nat) < 16 \<Longrightarrow> hexValue (hexDigit k) = k"
proof -
  have "\<forall>k \<in> set [0..<16]. hexValue (hexDigit k) = k"
    by code_simp
  then show "k < 16 \<Longrightarrow> hexValue (hexDigit k) = k" by simp
qed

lemma parseHex_snoc: "parseHex (s @ [c]) = 16 * parseHex s + hexValue c"
  by (simp add: parseHex_def)

lemma parseHex_toString16_nat: "parseHex (toString16_nat n) = n"
proof (induction n rule: toString16_nat.induct)
  case (1 n)
  show ?case
  proof (cases "n < 16")
    case True
    then show ?thesis by (subst toString16_nat.simps) (simp add: parseHex_def hexValue_hexDigit)
  next
    case False
    then show ?thesis using 1
      by (subst toString16_nat.simps) (simp add: parseHex_snoc hexValue_hexDigit)
  qed
qed

lemma parseHex_zeros: "parseHex (replicate k (CHR ''0'') @ s) = parseHex s"
proof (induction k)
  case 0 then show ?case by simp
next
  case (Suc k)
  have z: "hexValue (CHR ''0'') = 0" by (simp add: hexValue_def)
  have "parseHex (CHR ''0'' # t) = parseHex t" for t
    by (simp add: parseHex_def z)
  then show ?case using Suc by simp
qed

lemma parseHex_address: "0 \<le> a \<Longrightarrow> parseHex (padStart 4 (CHR ''0'') (toString16 a)) = nat a"
  by (simp add: padStart_def toString16_def parseHex_zeros parseHex_toString16_nat)

lemma fold_bus_map_other:
  "a \<notin> fst ` set ms \<Longrightarrow>
     readMap (fold (\<lambda>(x, r, wr). bus_map x r wr) ms b) a = readMap b a
     \<and> writeMap (fold (\<lambda>(x, r, wr). bus_map x r wr) ms b) a = writeMap b a"
  by (induction ms arbitrary: b) (auto simp add: bus_map_def)

lemma fold_bus_map_some:
  "readMap b a \<noteq> None \<Longrightarrow> writeMap b a \<noteq> None \<Longrightarrow>
     readMap (fold (\<lambda>(x, r, wr). bus_map x r wr) ms b) a \<noteq> None
     \<and> writeMap (fold (\<lambda>(x, r, wr). bus_map x r wr) ms b) a \<noteq> None"
  by (induction ms arbitrary: b) (auto simp add: bus_map_def)

text \<open>
  Claim C3, with the bus lock of spec 4.1. Take the bus as the constructor leaves it,
  with any handler pairs installed afterwards by \<open>bus_map\<close>, and an address \<open>a\<close> of
  the 65536 for which no pair was installed. When the access is not stopped by the
  lock (the bus is not locked, or \<open>a\<close> is in \<open>0xFF80..0xFFFE\<close>), a read calls the break
  sink with \<open>invalid read from 0x\<close> followed by the address as four hexadecimal
  digits, and returns 0; a write calls the break sink with the like message and does
  nothing else. The digits give the address back. While the bus is locked, a read of
  an address outside \<open>0xFF80..0xFFFE\<close> returns \<open>0xFF\<close> and a write there does nothing;
  the break sink is not called. Right after the constructor the slot of \<open>a\<close> holds the
  invalid handlers, and whatever is installed later and whatever the lock, a read and
  a write of \<open>a\<close> return.
\<close>

theorem C3_unmapped_access:
  assumes "0 \<le> a" and "a < 0x10000"
  shows "(a \<notin> fst ` set ms \<and> (\<not> locked \<or> highRam a) \<longrightarrow>
            bus_read locked (fold (\<lambda>(x, r, wr). bus_map x r wr) ms (Bus_constructor brk)) a w
              = Some (0, brk (''invalid read from 0x'' @ padStart 4 (CHR ''0'') (toString16 a)) w)
          \<and> bus_write locked (fold (\<lambda>(x, r, wr). bus_map x r wr) ms (Bus_constructor brk)) a v w
              = Some (brk (''invalid write to 0x'' @ padStart 4 (CHR ''0'') (toString16 a)) w))
       \<and> (locked \<and> \<not> highRam a \<longrightarrow>
            bus_read locked (fold (\<lambda>(x, r, wr). bus_map x r wr) ms (Bus_constructor brk)) a w
              = Some (0xff, w)
          \<and> bus_write locked (fold (\<lambda>(x, r, wr). bus_map x r wr) ms (Bus_constructor brk)) a v w
              = Some w)
       \<and> parseHex (padStart 4 (CHR ''0'') (toString16 a)) = nat a
       \<and> readMap (Bus_constructor brk) a = Some (invalidRead brk)
       \<and> writeMap (Bus_constructor brk) a = Some (invalidWrite brk)
       \<and> bus_read locked (fold (\<lambda>(x, r, wr). bus_map x r wr) ms (Bus_constructor brk)) a w \<noteq> None
       \<and> bus_write locked (fold (\<lambda>(x, r, wr). bus_map x r wr) ms (Bus_constructor brk)) a v w
            \<noteq> None"
proof -
  let ?b = "fold (\<lambda>(x, r, wr). bus_map x r wr) ms (Bus_constructor brk)"
  have c: "readMap (Bus_constructor brk) a = Some (invalidRead brk)"
    "writeMap (Bus_constructor brk) a = Some (invalidWrite brk)"
    using assms by (simp_all add: ctor_maps)
  have 1: "a \<notin> fst ` set ms \<and> (\<not> locked \<or> highRam a) \<longrightarrow>
            bus_read locked ?b a w
              = Some (0, brk (''invalid read from 0x'' @ padStart 4 (CHR ''0'') (toString16 a)) w)
          \<and> bus_write locked ?b a v w
              = Some (brk (''invalid write to 0x'' @ padStart 4 (CHR ''0'') (toString16 a)) w)"
    using fold_bus_map_other[of a ms "Bus_constructor brk"] c
    by (auto simp add: bus_read_def bus_write_def invalidRead_def invalidWrite_def)
  have 2: "locked \<and> \<not> highRam a \<longrightarrow>
            bus_read locked ?b a w = Some (0xff, w) \<and> bus_write locked ?b a v w = Some w"
    by (simp add: bus_read_def bus_write_def)
  have 3: "parseHex (padStart 4 (CHR ''0'') (toString16 a)) = nat a"
    using assms(1) by (rule parseHex_address)
  have 4: "bus_read locked ?b a w \<noteq> None \<and> bus_write locked ?b a v w \<noteq> None"
    using fold_bus_map_some[of "Bus_constructor brk" a ms] c
    by (auto simp add: bus_read_def bus_write_def split: option.splits)
  from 1 2 3 4 c show ?thesis by blast
qed

lemma hex_1234: "padStart 4 (CHR ''0'') (toString16 0x1234) = ''1234''"
  by (simp add: padStart_def toString16_def toString16_nat.simps hexDigit_def)

lemma hex_ff80: "padStart 4 (CHR ''0'') (toString16 0xff80) = ''ff80''"
  by (simp add: padStart_def toString16_def toString16_nat.simps hexDigit_def)

theorem C3_witness:
  "(0::int) \<le> 0x1234 \<and> (0x1234::int) < 0x10000
   \<and> bus_read False (Bus_constructor log_break) 0x1234 []
       = Some (0, [''invalid read from 0x1234''])
   \<and> bus_write False (Bus_constructor log_break) 0x1234 0x56 []
       = Some [''invalid write to 0x1234'']
   \<and> parseHex ''1234'' = 0x1234
   \<and> highRam 0xff80
   \<and> bus_read True (Bus_constructor log_break) 0xff80 []
       = Some (0, [''invalid read from 0xff80''])
   \<and> \<not> highRam 0x1234
   \<and> bus_read True (Bus_constructor log_break) 0x1234 [] = Some (0xff, [])"
  using C3_unmapped_access [of "0x1234" "[]" False log_break "[]" "0x56"]
    C3_unmapped_access [of "0xff80" "[]" True log_break "[]" "0x56"]
    C3_unmapped_access [of "0x1234" "[]" True log_break "[]" "0x56"]
  by (simp add: hex_1234 hex_ff80 log_break_def highRam_def)

text \<open>
  The claim as stated fails while the bus is locked: \<open>0x1234\<close> has no installed pair,
  and a read of it then returns \<open>0xFF\<close>, not 0, and neither the read nor a write calls
  the break sink.
\<close>

theorem C3_counterexample:
  "readMap (Bus_constructor log_break) 0x1234 = Some (invalidRead log_break)
   \<and> bus_read True (Bus_constructor log_break) 0x1234 [] = Some (0xff, [])
   \<and> bus_write True (Bus_constructor log_break) 0x1234 0x56 [] = Some []"
  by (simp add: bus_read_def bus_write_def highRam_def ctor_maps)
section \<open>Properties of the CPU\<close>

subsection \<open>Entries of the instruction table\<close>

lemma init_lookup_aux:
  "fold (\<lambda>i t. t(int i \<mapsto> f i)) [0..<n] t0 k
     = (if 0 \<le> k \<and> k < int n then Some (f (nat k)) else t0 k)"
  by (induction n) auto

lemma init_lookup:
  "instructions_init k =
     (if 0 \<le> k \<and> k < 0x100
      then Some \<lparr> opcode = k, operation = op_invalid, addressingMode = am_implicit,
                  par1 = 0, par2 = 0, cycles = 0, len = 1 \<rparr>
      else None)"
  unfolding instructions_init_def
  by (subst init_lookup_aux) simp

lemma apply_entry_lookup:
  "apply_entry opc upd t k
     = (if k = opc then map_option (\<lambda>i. (upd i)\<lparr> opcode := opc \<rparr>) (t opc) else t k)"
  by (simp add: apply_entry_def split: option.splits)

lemmas table_simps =
  instructions_def instructions_build_def applySeriesR8_1_def forEach_def
  apply_entry_lookup init_lookup

lemma instructions_00:
  "instructions 0x00 = Some \<lparr> opcode = 0x00, operation = op_nop, addressingMode = am_implicit,
       par1 = 0, par2 = 0, cycles = 1, len = 1 \<rparr>"
  by (simp add: table_simps)

lemma instructions_c3:
  "instructions 0xc3 = Some \<lparr> opcode = 0xc3, operation = op_jp, addressingMode = am_imm16,
       par1 = 0, par2 = 0, cycles = 4, len = 3 \<rparr>"
  by (simp add: table_simps)

lemma instructions_fe:
  "instructions 0xfe = Some \<lparr> opcode = 0xfe, operation = op_cp, addressingMode = am_imm8,
       par1 = 0, par2 = 0, cycles = 2, len = 2 \<rparr>"
  by (simp add: table_simps)

lemma irq_cpu_fields:
  "state_p irq_cpu = 0x0100" "enableInterrupts irq_cpu = True" "r16_get irq_cpu r16_sp = 0x1000"
  by (simp_all add: irq_cpu_def Cpu_reset_def Cpu_constructor_def r16_set_def r16_get_def
        ta_set8_def toUint8_def Let_def)

lemma irq_world_fields:
  "memory irq_world 0x0100 = 0x00" "memory irq_world 0xff0f AND memory irq_world 0xffff AND 0x1f = 0x01"
  by (simp_all add: irq_world_def)

lemma reset_cpu_fields:
  "state_p (Cpu_reset Cpu_constructor) = 0x0100"
  "enableInterrupts (Cpu_reset Cpu_constructor) = False"
  by (simp_all add: Cpu_reset_def Cpu_constructor_def r16_set_def Let_def)

subsection \<open>Interrupt dispatch\<close>

text \<open>
  Claim C1 says that a step with IME true and an interrupt pending in \<open>IE & IF & 0x1F\<close>
  services the interrupt before it decodes an instruction. \<^verbatim>\<open>Cpu.step\<close> as given does
  not: with interrupts enabled, the vblank bit set in IF and enabled in IE, one step
  executes the NOP at \<open>0x0100\<close>. The program counter becomes \<open>0x0101\<close>, not \<open>0x0040\<close>;
  IME stays set, IF and the stack are untouched, and the clock advances by the one
  M-cycle of the NOP, not by five.
\<close>

theorem C1_failing_input:
  "enableInterrupts irq_cpu \<and> memory irq_world 0xffff AND memory irq_world 0xff0f AND 0x1f = 0x01
   \<and> step test_env 1 irq_cpu irq_world
       = Inr (irq_cpu\<lparr> state_p := 0x0101 \<rparr>, irq_world\<lparr> cpuCycles := 1 \<rparr>)"
  by (simp add: irq_cpu_fields irq_world_def test_env_def decodeInstruction_def instructions_00
        dispatch_def thenDo_def advance_def)

subsection \<open>The program counter after a step\<close>

text \<open>
  Claim C2 says that a step on an instruction of the table advances the program counter
  by the length of the instruction or, for JP a16, sets it to the 16-bit little-endian
  immediate that follows the opcode byte. With \<open>C3 34 12\<close> at \<open>0x0100\<close> the step sets it
  to \<open>0x34C3\<close>, not to \<open>0x1234\<close>: the entry of \<open>0xC3\<close> leaves \<open>par1\<close> at 0, so that
  \<^verbatim>\<open>getArg1\<close> reads the 16 bits at the opcode itself.
\<close>

theorem C2_failing_input:
  "step test_env 1 (Cpu_reset Cpu_constructor) jp_world
     = Inr ((Cpu_reset Cpu_constructor)\<lparr> state_p := 0x34c3 \<rparr>, jp_world\<lparr> cpuCycles := 4 \<rparr>)"
  by (simp add: jp_world_def test_env_def decodeInstruction_def instructions_c3
        dispatch_def thenDo_def getArg1_def env_read16_def reset_cpu_fields Let_def)

text \<open>
  An instruction of the table whose operation \<^verbatim>\<open>dispatch\<close> has no case for, here CP d8
  (\<open>0xFE\<close>, length 2), leaves the program counter where it is and calls the break sink.
\<close>

lemma cp_not_dispatched:
  "step test_env 1 (Cpu_reset Cpu_constructor) cp_world
     = Inr (Cpu_reset Cpu_constructor, cp_world\<lparr> breaks := [''invalid instruction''] \<rparr>)"
  by (simp add: cp_world_def test_env_def decodeInstruction_def instructions_fe
        dispatch_def thenDo_def reset_cpu_fields Let_def)

section \<open>Properties of the PPU\<close>

subsection \<open>Arithmetic of positions\<close>

lemma and_mask_mod: "(a::int) AND (2 ^ n - 1) = a mod 2 ^ n"
  by (simp add: take_bit_eq_mod flip: take_bit_eq_mask mask_eq_exp_minus_1)

lemma vram_index: "0x8000 \<le> a \<Longrightarrow> a \<le> 0x9fff \<Longrightarrow> (a::int) AND 0x1fff = a - 0x8000"
proof -
  assume a: "0x8000 \<le> a" "a \<le> 0x9fff"
  have "a AND 0x1fff = a mod 0x2000" using and_mask_mod[of a 13] by simp
  also have "\<dots> = (a - 0x8000) mod 0x2000" by (simp add: mod_diff_eq[symmetric, of a 32768 8192])
  also have "\<dots> = a - 0x8000" using a by simp
  finally show ?thesis .
qed

lemma oam_index: "0xfe00 \<le> a \<Longrightarrow> a \<le> 0xfe9f \<Longrightarrow> (a::int) AND 0xff = a - 0xfe00"
proof -
  assume a: "0xfe00 \<le> a" "a \<le> 0xfe9f"
  have "a AND 0xff = a mod 0x100" using and_mask_mod[of a 8] by simp
  also have "\<dots> = (a - 0xfe00) mod 0x100" by (simp add: mod_diff_eq[symmetric, of a 65024 256])
  also have "\<dots> = a - 0xfe00" using a by simp
  finally show ?thesis .
qed

lemma js_idiv_pos: "0 \<le> x \<Longrightarrow> 0 < y \<Longrightarrow> x < 2 ^ 31 \<Longrightarrow> js_idiv x y = x div y"
proof -
  assume a: "0 \<le> x" "0 < y" "x < 2 ^ 31"
  have d: "0 \<le> x div y" using a by (simp add: pos_imp_zdiv_nonneg_iff)
  have d2: "x div y \<le> x" using zdiv_mono2[of x 1 y] a by simp
  have s: "sgn x * sgn y * (\<bar>x\<bar> div \<bar>y\<bar>) = x div y" using a by (cases "x = 0") (simp_all add: sgn_if)
  have "signed_take_bit 31 (x div y) = x div y"
    using d d2 a by (intro signed_take_bit_int_eq_self) auto
  then show ?thesis by (simp add: js_idiv_def toInt32_def s)
qed

lemma within_b:
  fixes x k b :: int
  assumes "0 \<le> k" "x mod b + k < b" "0 < b"
  shows "(x + k) mod b = x mod b + k" "(x + k) div b = x div b"
proof -
  have e: "x + k = b * (x div b) + (x mod b + k)" by simp
  have r: "0 \<le> x mod b + k" using assms by simp
  show "(x + k) div b = x div b" using int_div_pos_eq[OF e r assms(2)] .
  show "(x + k) mod b = x mod b + k" using int_mod_pos_eq[OF e r assms(2)] .
qed

lemma at_end_b:
  fixes x k b :: int
  assumes "x mod b + k = b" "0 < b"
  shows "(x + k) mod b = 0" "(x + k) div b = x div b + 1"
proof -
  have "x + k = b * (x div b) + (x mod b + k)" by simp
  also have "\<dots> = b * (x div b) + b" using assms by simp
  also have "\<dots> = b * (x div b + 1) + 0" by (simp add: ring_distribs)
  finally have e: "x + k = b * (x div b + 1) + 0" .
  show "(x + k) div b = x div b + 1" using int_div_pos_eq[OF e] assms(2) by simp
  show "(x + k) mod b = 0" using int_mod_pos_eq[OF e] assms(2) by simp
qed

lemma decomp456:
  fixes d r :: int
  assumes "0 \<le> r" "r < 456"
  shows "(456 * d + r) mod 456 = r" "(456 * d + r) div 456 = d"
  using int_mod_pos_eq[OF refl assms] int_div_pos_eq[OF refl assms] by auto

lemma spec_at:
  fixes d r :: int
  assumes "0 \<le> r" "r < 456"
  shows "spec_ly (456 * d + r) = d"
    and "spec_mode (456 * d + r) =
          (if d < 144 then (if r < 80 then oamScan else if r < 252 then draw else hblank) else vblank)"
    and "spec_clockInMode (456 * d + r) =
          (if d < 144 then (if r < 80 then r else if r < 252 then r - 80 else r - 252)
           else 456 * (d - 144) + r)"
proof -
  have lt: "456 * d + r < 144 * 456 \<longleftrightarrow> d < 144" using assms by auto
  show "spec_ly (456 * d + r) = d" by (simp add: spec_ly_def decomp456[OF assms])
  show "spec_mode (456 * d + r) =
          (if d < 144 then (if r < 80 then oamScan else if r < 252 then draw else hblank) else vblank)"
    unfolding spec_mode_def decomp456[OF assms] using lt by simp
  show "spec_clockInMode (456 * d + r) =
          (if d < 144 then (if r < 80 then r else if r < 252 then r - 80 else r - 252)
           else 456 * (d - 144) + r)"
    unfolding spec_clockInMode_def decomp456[OF assms] using lt by simp
qed

lemma renderLine_keeps:
  "mode (renderLine s) = mode s" "clockInMode (renderLine s) = clockInMode s"
  "scanline (renderLine s) = scanline s" "reg (renderLine s) = reg s"
  "oam (renderLine s) = oam s" "dmaInProgress (renderLine s) = dmaInProgress s"
  "dmaCycle (renderLine s) = dmaCycle s"
  by (simp_all add: renderLine_def Let_def)

lemma swapBuffers_keeps:
  "mode (swapBuffers s) = mode s" "clockInMode (swapBuffers s) = clockInMode s"
  "scanline (swapBuffers s) = scanline s" "reg (swapBuffers s) = reg s"
  "oam (swapBuffers s) = oam s" "dmaInProgress (swapBuffers s) = dmaInProgress s"
  "dmaCycle (swapBuffers s) = dmaCycle s"
  by (simp_all add: swapBuffers_def)

lemma consumeClocks_keeps:
  "reg (ppu (snd (consumeClocks c w))) = reg (ppu w)"
  "oam (ppu (snd (consumeClocks c w))) = oam (ppu w)"
  "dmaInProgress (ppu (snd (consumeClocks c w))) = dmaInProgress (ppu w)"
  "dmaCycle (ppu (snd (consumeClocks c w))) = dmaCycle (ppu w)"
  "busLocked (snd (consumeClocks c w)) = busLocked w"
  "ext (snd (consumeClocks c w)) = ext w"
  by (cases "mode (ppu w)";
      simp add: consumeClocks_def Let_def raise_def renderLine_keeps swapBuffers_keeps)+

subsection \<open>One call of \<^verbatim>\<open>consumeClocks\<close>\<close>

lemma tracks_parts:
  assumes "tracks P C w"
  defines "q \<equiv> P mod 70224"
  defines "d \<equiv> q div 456" and "r \<equiv> q mod 456"
  shows "lcdEnabled (ppu w)" "0 \<le> P" "0 \<le> q" "q < 70224" "0 \<le> r" "r < 456" "q = 456 * d + r"
    "0 \<le> d" "d < 154"
    "mode (ppu w) = (if d < 144 then (if r < 80 then oamScan else if r < 252 then draw else hblank) else vblank)"
    "scanline (ppu w) = d"
    "clockInMode (ppu w) = (if d < 144 then (if r < 80 then r else if r < 252 then r - 80 else r - 252)
           else 456 * (d - 144) + r)"
    "vblank_requests w = C + P div 70224 + (if d \<ge> 144 then 1 else 0)"
proof -
  show q: "0 \<le> q" "q < 70224" by (simp_all add: q_def)
  show r: "0 \<le> r" "r < 456" by (simp_all add: r_def)
  show e: "q = 456 * d + r" by (simp add: d_def r_def)
  show "0 \<le> d" "d < 154" using q r e by auto
  from assms(1) have a: "at_position (ppu w) q" by (simp add: tracks_def q_def)
  show "lcdEnabled (ppu w)" "0 \<le> P" using assms(1) by (simp_all add: tracks_def)
  from a show "mode (ppu w) = (if d < 144 then (if r < 80 then oamScan else if r < 252 then draw else hblank) else vblank)"
    using spec_at(2)[OF r, of d] e by (simp add: at_position_def)
  from a show "scanline (ppu w) = d" using spec_at(1)[OF r, of d] e by (simp add: at_position_def)
  from a show "clockInMode (ppu w) = (if d < 144 then (if r < 80 then r else if r < 252 then r - 80 else r - 252)
           else 456 * (d - 144) + r)" using spec_at(3)[OF r, of d] e by (simp add: at_position_def)
  have "q \<ge> 144 * 456 \<longleftrightarrow> d \<ge> 144" using r e by auto
  then show "vblank_requests w = C + P div 70224 + (if d \<ge> 144 then 1 else 0)"
    using assms(1) by (simp add: tracks_def q_def)
qed

lemma tracksI:
  fixes d' r' :: int
  assumes "lcdEnabled (ppu w')" "0 \<le> P'" "P' mod 70224 = 456 * d' + r'" "0 \<le> r'" "r' < 456"
    "mode (ppu w') = (if d' < 144 then (if r' < 80 then oamScan else if r' < 252 then draw else hblank) else vblank)"
    "scanline (ppu w') = d'"
    "clockInMode (ppu w') = (if d' < 144 then (if r' < 80 then r' else if r' < 252 then r' - 80 else r' - 252)
           else 456 * (d' - 144) + r')"
    "vblank_requests w' = C + P' div 70224 + (if d' \<ge> 144 then 1 else 0)"
  shows "tracks P' C w'"
proof -
  have "456 * d' + r' \<ge> 144 * 456 \<longleftrightarrow> d' \<ge> 144" using assms(4,5) by auto
  then show ?thesis
    using assms spec_at[OF assms(4,5), of d']
    by (simp add: tracks_def at_position_def)
qed

lemma vblank_requests_upd [simp]:
  "vblank_requests (w\<lparr> ppu := s \<rparr>) = vblank_requests w"
  "vblank_requests (raise irq_vblank w) = vblank_requests w + 1"
  "vblank_requests (raise irq_stat w) = vblank_requests w"
  by (simp_all add: vblank_requests_def raise_def)

lemma consume_tracks:
  assumes t: "tracks P C w" and c: "0 < c"
  shows "1 \<le> fst (consumeClocks c w) \<and> fst (consumeClocks c w) \<le> c
         \<and> tracks (P + fst (consumeClocks c w)) C (snd (consumeClocks c w))"
proof -
  define q where "q = P mod 70224"
  define d where "d = q div 456"
  define r where "r = q mod 456"
  note f = tracks_parts[OF t, folded q_def, folded d_def r_def]
  have lcd: "lcdEnabled (ppu w)" and P0: "0 \<le> P" and q: "0 \<le> q" "q < 70224"
    and r: "0 \<le> r" "r < 456" and e: "q = 456 * d + r" and d: "0 \<le> d" "d < 154"
    and sl: "scanline (ppu w) = d"
    using f by blast+
  have m: "mode (ppu w) = (if d < 144 then (if r < 80 then oamScan else if r < 252 then draw else hblank) else vblank)"
    using f(10) .
  have cim: "clockInMode (ppu w) = (if d < 144 then (if r < 80 then r else if r < 252 then r - 80 else r - 252)
           else 456 * (d - 144) + r)" using f(12) .
  have v: "vblank_requests w = C + P div 70224 + (if d \<ge> 144 then 1 else 0)" using f(13) .
  have lcd': "lcdEnabled (ppu (snd (consumeClocks c w)))"
    using lcd by (simp add: lcdEnabled_def consumeClocks_keeps)
  have step_in: "(P + k) mod 70224 = q + k \<and> (P + k) div 70224 = P div 70224"
    if "0 \<le> k" "q + k < 70224" for k
    using within_b[of k P 70224] that by (simp add: q_def)
  have step_end: "(P + k) mod 70224 = 0 \<and> (P + k) div 70224 = P div 70224 + 1"
    if "q + k = 70224" for k
    using at_end_b[of P 70224 k] that by (simp add: q_def)
  consider (oam) "d < 144" "r < 80" | (draw) "d < 144" "80 \<le> r" "r < 252"
    | (hbl) "d < 144" "252 \<le> r" | (vbl) "144 \<le> d" by linarith
  then show ?thesis
  proof cases
    case oam
    then have m': "mode (ppu w) = oamScan" and cim': "clockInMode (ppu w) = r" using m cim by simp_all
    show ?thesis
    proof (cases "80 \<le> c + r")
      case True
      have cc: "consumeClocks c w = (80 - r, w\<lparr> ppu := (ppu w)\<lparr> mode := draw, clockInMode := 0 \<rparr> \<rparr>)"
        using True by (simp add: consumeClocks_def Let_def m' cim')
      have "tracks (P + (80 - r)) C (snd (consumeClocks c w))"
      proof (rule tracksI[where d' = d and r' = 80])
        show "lcdEnabled (ppu (snd (consumeClocks c w)))" by (rule lcd')
        show "0 \<le> P + (80 - r)" using P0 oam by simp
        show "(P + (80 - r)) mod 70224 = 456 * d + 80" using step_in[of "80 - r"] oam e by simp
        show "vblank_requests (snd (consumeClocks c w)) = C + (P + (80 - r)) div 70224 + (if 144 \<le> d then 1 else 0)"
          using step_in[of "80 - r"] oam e v by (simp add: cc)
      qed (simp_all add: cc oam sl)
      then show ?thesis using True oam c by (simp add: cc)
    next
      case False
      have cc: "consumeClocks c w = (c, w\<lparr> ppu := (ppu w)\<lparr> clockInMode := r + c \<rparr> \<rparr>)"
        using False by (simp add: consumeClocks_def Let_def m' cim')
      have "tracks (P + c) C (snd (consumeClocks c w))"
      proof (rule tracksI[where d' = d and r' = "r + c"])
        show "lcdEnabled (ppu (snd (consumeClocks c w)))" by (rule lcd')
        show "0 \<le> P + c" using P0 c by simp
        show "(P + c) mod 70224 = 456 * d + (r + c)" using step_in[of c] oam e c False by simp
        show "vblank_requests (snd (consumeClocks c w)) = C + (P + c) div 70224 + (if 144 \<le> d then 1 else 0)"
          using step_in[of c] oam e v c False by (simp add: cc)
      qed (use False c r oam in \<open>simp_all add: cc sl m'\<close>)
      then show ?thesis using c by (simp add: cc)
    qed
  next
    case draw
    then have m': "mode (ppu w) = ppuMode.draw" and cim': "clockInMode (ppu w) = r - 80" using m cim by simp_all
    show ?thesis
    proof (cases "172 \<le> c + (r - 80)")
      case True
      have cc: "consumeClocks c w = (252 - r, w\<lparr> ppu := renderLine ((ppu w)\<lparr> mode := hblank, clockInMode := 0 \<rparr>) \<rparr>)"
        using True by (simp add: consumeClocks_def Let_def m' cim')
      have "tracks (P + (252 - r)) C (snd (consumeClocks c w))"
      proof (rule tracksI[where d' = d and r' = 252])
        show "lcdEnabled (ppu (snd (consumeClocks c w)))" by (rule lcd')
        show "0 \<le> P + (252 - r)" using P0 draw by simp
        show "(P + (252 - r)) mod 70224 = 456 * d + 252" using step_in[of "252 - r"] draw e by simp
        show "vblank_requests (snd (consumeClocks c w)) = C + (P + (252 - r)) div 70224 + (if 144 \<le> d then 1 else 0)"
          using step_in[of "252 - r"] draw e v by (simp add: cc)
      qed (simp_all add: cc draw sl renderLine_keeps)
      then show ?thesis using True draw c by (simp add: cc)
    next
      case False
      have cc: "consumeClocks c w = (c, w\<lparr> ppu := (ppu w)\<lparr> clockInMode := r - 80 + c \<rparr> \<rparr>)"
        using False by (simp add: consumeClocks_def Let_def m' cim')
      have "tracks (P + c) C (snd (consumeClocks c w))"
      proof (rule tracksI[where d' = d and r' = "r + c"])
        show "lcdEnabled (ppu (snd (consumeClocks c w)))" by (rule lcd')
        show "0 \<le> P + c" using P0 c by simp
        show "(P + c) mod 70224 = 456 * d + (r + c)" using step_in[of c] draw e c False by simp
        show "vblank_requests (snd (consumeClocks c w)) = C + (P + c) div 70224 + (if 144 \<le> d then 1 else 0)"
          using step_in[of c] draw e v c False by (simp add: cc)
      qed (use False c r draw in \<open>simp_all add: cc sl m'\<close>)
      then show ?thesis using c by (simp add: cc)
    qed
  next
    case hbl
    then have m': "mode (ppu w) = hblank" and cim': "clockInMode (ppu w) = r - 252" using m cim by simp_all
    show ?thesis
    proof (cases "204 \<le> c + (r - 252)")
      case True
      show ?thesis
      proof (cases "d + 1 = 144")
        case last: True
        have cc: "consumeClocks c w = (456 - r,
               raise irq_vblank (w\<lparr> ppu := (ppu w)\<lparr> scanline := d + 1, mode := vblank, clockInMode := 0 \<rparr> \<rparr>))"
          using True last by (simp add: consumeClocks_def Let_def m' cim' sl)
        have "tracks (P + (456 - r)) C (snd (consumeClocks c w))"
        proof (rule tracksI[where d' = "d + 1" and r' = 0])
          show "lcdEnabled (ppu (snd (consumeClocks c w)))" by (rule lcd')
          show "0 \<le> P + (456 - r)" using P0 r by simp
          show "(P + (456 - r)) mod 70224 = 456 * (d + 1) + 0" using step_in[of "456 - r"] hbl r e by simp
          show "vblank_requests (snd (consumeClocks c w)) = C + (P + (456 - r)) div 70224 + (if 144 \<le> d + 1 then 1 else 0)"
            using step_in[of "456 - r"] hbl r e v last by (simp add: cc)
        qed (simp_all add: cc last raise_def)
        then show ?thesis using True hbl c r by (simp add: cc)
      next
        case notlast: False
        have cc: "consumeClocks c w = (456 - r,
               w\<lparr> ppu := (ppu w)\<lparr> scanline := d + 1, mode := oamScan, clockInMode := 0 \<rparr> \<rparr>)"
          using True notlast by (simp add: consumeClocks_def Let_def m' cim' sl)
        have d1: "d + 1 < 144" using hbl notlast by simp
        have "tracks (P + (456 - r)) C (snd (consumeClocks c w))"
        proof (rule tracksI[where d' = "d + 1" and r' = 0])
          show "lcdEnabled (ppu (snd (consumeClocks c w)))" by (rule lcd')
          show "0 \<le> P + (456 - r)" using P0 r by simp
          show "(P + (456 - r)) mod 70224 = 456 * (d + 1) + 0" using step_in[of "456 - r"] hbl r e by simp
          show "vblank_requests (snd (consumeClocks c w)) = C + (P + (456 - r)) div 70224 + (if 144 \<le> d + 1 then 1 else 0)"
            using step_in[of "456 - r"] hbl r e v d1 by (simp add: cc)
        qed (use d1 in \<open>simp_all add: cc\<close>)
        then show ?thesis using True hbl c r by (simp add: cc)
      qed
    next
      case False
      have cc: "consumeClocks c w = (c, w\<lparr> ppu := (ppu w)\<lparr> clockInMode := r - 252 + c \<rparr> \<rparr>)"
        using False by (simp add: consumeClocks_def Let_def m' cim')
      have "tracks (P + c) C (snd (consumeClocks c w))"
      proof (rule tracksI[where d' = d and r' = "r + c"])
        show "lcdEnabled (ppu (snd (consumeClocks c w)))" by (rule lcd')
        show "0 \<le> P + c" using P0 c by simp
        show "(P + c) mod 70224 = 456 * d + (r + c)" using step_in[of c] hbl e c False by simp
        show "vblank_requests (snd (consumeClocks c w)) = C + (P + c) div 70224 + (if 144 \<le> d then 1 else 0)"
          using step_in[of c] hbl e v c False by (simp add: cc)
      qed (use False c r hbl in \<open>simp_all add: cc sl m'\<close>)
      then show ?thesis using c by (simp add: cc)
    qed
  next
    case vbl
    then have m': "mode (ppu w) = vblank" and cim': "clockInMode (ppu w) = q - 65664" using m cim e by simp_all
    show ?thesis
    proof (cases "4560 \<le> c + (q - 65664)")
      case True
      define s2 where "s2 = (let s1 = (ppu w)\<lparr> mode := oamScan, clockInMode := 0, scanline := 0 \<rparr>
                              in (if \<not> skipFrame s1 then swapBuffers s1 else s1)\<lparr> skipFrame := False \<rparr>)"
      have cc: "consumeClocks c w = (70224 - q, w\<lparr> ppu := s2 \<rparr>)"
        using True by (simp add: consumeClocks_def Let_def m' cim' s2_def)
      have s2: "mode s2 = oamScan" "clockInMode s2 = 0" "scanline s2 = 0"
        by (simp_all add: s2_def Let_def swapBuffers_keeps)
      have "tracks (P + (70224 - q)) C (snd (consumeClocks c w))"
      proof (rule tracksI[where d' = 0 and r' = 0])
        show "lcdEnabled (ppu (snd (consumeClocks c w)))" by (rule lcd')
        show "0 \<le> P + (70224 - q)" using P0 q by simp
        show "(P + (70224 - q)) mod 70224 = 456 * 0 + 0" using step_end[of "70224 - q"] by simp
        show "vblank_requests (snd (consumeClocks c w)) = C + (P + (70224 - q)) div 70224 + (if 144 \<le> (0::int) then 1 else 0)"
          using step_end[of "70224 - q"] v vbl by (simp add: cc)
      qed (simp_all add: cc s2)
      then show ?thesis using True q c by (simp add: cc)
    next
      case False
      have k: "js_idiv (q - 65664 + c) 456 = (q - 65664 + c) div 456"
        using False vbl e r c by (intro js_idiv_pos) auto
      have cc: "consumeClocks c w = (c, w\<lparr> ppu := (ppu w)\<lparr> clockInMode := q - 65664 + c,
                     scanline := 144 + (q - 65664 + c) div 456 \<rparr> \<rparr>)"
        using False by (simp add: consumeClocks_def Let_def m' cim' k)
      define d' where "d' = (q + c) div 456"
      define r' where "r' = (q + c) mod 456"
      have r': "0 \<le> r'" "r' < 456" and e': "q + c = 456 * d' + r'" by (simp_all add: d'_def r'_def)
      have ge: "144 \<le> d'" using e' r' vbl e r c by auto
      have dv: "(q - 65664 + c) div 456 = d' - 144"
        using int_div_pos_eq[of "q - 65664 + c" 456 "d' - 144" r'] e' r' by simp
      have "tracks (P + c) C (snd (consumeClocks c w))"
      proof (rule tracksI[where d' = d' and r' = r'])
        show "lcdEnabled (ppu (snd (consumeClocks c w)))" by (rule lcd')
        show "0 \<le> P + c" using P0 c by simp
        show "(P + c) mod 70224 = 456 * d' + r'" using step_in[of c] c False e' by simp
        show "vblank_requests (snd (consumeClocks c w)) = C + (P + c) div 70224 + (if 144 \<le> d' then 1 else 0)"
          using step_in[of c] v c False vbl ge by (simp add: cc)
        show "clockInMode (ppu (snd (consumeClocks c w))) =
          (if d' < 144 then if r' < 80 then r' else if r' < 252 then r' - 80 else r' - 252
           else 456 * (d' - 144) + r')" using ge e' by (simp add: cc)
      qed (use ge r' in \<open>simp_all add: cc m' dv\<close>)
      then show ?thesis using c by (simp add: cc)
    qed
  qed
qed

subsection \<open>The loops of \<^verbatim>\<open>cycle\<close>\<close>

lemma updateStat_keeps:
  "reg (ppu (updateStat w)) = reg (ppu w)"
  "oam (ppu (updateStat w)) = oam (ppu w)"
  "dmaInProgress (ppu (updateStat w)) = dmaInProgress (ppu w)"
  "dmaCycle (ppu (updateStat w)) = dmaCycle (ppu w)"
  "mode (ppu (updateStat w)) = mode (ppu w)"
  "scanline (ppu (updateStat w)) = scanline (ppu w)"
  "clockInMode (ppu (updateStat w)) = clockInMode (ppu w)"
  "busLocked (updateStat w) = busLocked w"
  "ext (updateStat w) = ext w"
  "vblank_requests (updateStat w) = vblank_requests w"
  by (simp_all add: updateStat_def Let_def raise_def vblank_requests_def)

lemma updateStat_tracks: "tracks P C (updateStat w) = tracks P C w"
  by (simp add: tracks_def at_position_def lcdEnabled_def updateStat_keeps)

lemma modeLoop_tracks:
  "tracks P C w \<Longrightarrow> 0 \<le> n \<Longrightarrow> tracks (P + n) C (modeLoop n w)"
proof (induction n w arbitrary: P rule: modeLoop.induct)
  case (1 n w)
  show ?case
  proof (cases "0 < n")
    case True
    obtain k w1 where cc: "consumeClocks n w = (k, w1)" by force
    from consume_tracks[OF "1.prems"(1) True] cc
    have k: "1 \<le> k" "k \<le> n" "tracks (P + k) C w1" by simp_all
    have "tracks (P + k + (n - k)) C (modeLoop (n - k) (updateStat w1))"
      using "1.IH"[OF True refl cc[symmetric], of "P + k"] k by (simp add: updateStat_tracks)
    then show ?thesis using True cc by (simp add: modeLoop.simps[of n w])
  next
    case False
    then show ?thesis using "1.prems" by (subst modeLoop.simps) simp
  qed
qed

lemma modeLoop_keeps:
  "reg (ppu (modeLoop n w)) = reg (ppu w) \<and> oam (ppu (modeLoop n w)) = oam (ppu w)
   \<and> dmaInProgress (ppu (modeLoop n w)) = dmaInProgress (ppu w)
   \<and> dmaCycle (ppu (modeLoop n w)) = dmaCycle (ppu w)
   \<and> busLocked (modeLoop n w) = busLocked w \<and> ext (modeLoop n w) = ext w"
proof (induction n w rule: modeLoop.induct)
  case (1 n w)
  show ?case
  proof (cases "0 < n")
    case True
    obtain k w1 where cc: "consumeClocks n w = (k, w1)" by force
    have w1: "reg (ppu w1) = reg (ppu w)" "oam (ppu w1) = oam (ppu w)"
      "dmaInProgress (ppu w1) = dmaInProgress (ppu w)" "dmaCycle (ppu w1) = dmaCycle (ppu w)"
      "busLocked w1 = busLocked w" "ext w1 = ext w"
      using consumeClocks_keeps[of n w] by (simp_all add: cc)
    have st: "modeLoop n w = modeLoop (n - k) (updateStat w1)"
      using True cc by (simp add: modeLoop.simps[of n w])
    show ?thesis
      unfolding st using "1.IH"[OF True refl cc[symmetric]]
      by (simp add: updateStat_keeps w1)
  next
    case False
    then show ?thesis by (subst (1 2 3 4 5 6) modeLoop.simps) simp
  qed
qed

lemma dmaCopy_keeps:
  assumes "reads_keep_ppu rd"
  shows "\<exists>xs. ppu (dmaCopy rd base k i w) = (ppu w)\<lparr> oam := xs \<rparr>"
    and "raised (dmaCopy rd base k i w) = raised w"
proof -
  have "(\<exists>xs. ppu (dmaCopy rd base k i w) = (ppu w)\<lparr> oam := xs \<rparr>)
        \<and> raised (dmaCopy rd base k i w) = raised w"
  proof (induction k arbitrary: i w)
    case 0
    have "ppu w = (ppu w)\<lparr> oam := oam (ppu w) \<rparr>" by simp
    then show ?case by (metis dmaCopy.simps(1))
  next
    case (Suc k)
    obtain v w1 where rd: "rd (base + i) w = (v, w1)" by force
    have w1: "ppu w1 = ppu w" "raised w1 = raised w"
      using assms rd by (metis reads_keep_ppu_def snd_conv)+
    let ?w2 = "w1\<lparr> ppu := (ppu w1)\<lparr> oam := ta_set8 (oam (ppu w1)) i v \<rparr> \<rparr>"
    from Suc.IH[of "i + 1" ?w2] obtain xs' where
      oeq: "ppu (dmaCopy rd base k (i + 1) ?w2) = (ppu ?w2)\<lparr> oam := xs' \<rparr>"
      and ra: "raised (dmaCopy rd base k (i + 1) ?w2) = raised ?w2" by blast
    have "ppu (dmaCopy rd base (Suc k) i w) = (ppu w)\<lparr> oam := xs' \<rparr>"
      using oeq by (simp add: rd w1)
    moreover have "raised (dmaCopy rd base (Suc k) i w) = raised w"
      using ra by (simp add: rd w1)
    ultimately show ?case by blast
  qed
  then show "\<exists>xs. ppu (dmaCopy rd base k i w) = (ppu w)\<lparr> oam := xs \<rparr>"
    and "raised (dmaCopy rd base k i w) = raised w" by blast+
qed

lemma executeDma_tracks:
  assumes "reads_keep_ppu rd"
  shows "tracks P C (executeDma rd w) = tracks P C w"
proof -
  let ?w2 = "(unlock w)\<lparr> ppu := (ppu (unlock w))\<lparr> dmaInProgress := False, dmaCycle := 0 \<rparr> \<rparr>"
  let ?base = "js_shl (js_rem (reg (ppu ?w2) ! 6) 0xe0) 8"
  have ex: "executeDma rd w = dmaCopy rd ?base 160 0 ?w2"
    by (simp add: executeDma_def Let_def)
  obtain xs' where oeq: "ppu (dmaCopy rd ?base 160 0 ?w2) = (ppu ?w2)\<lparr> oam := xs' \<rparr>"
    using dmaCopy_keeps(1)[OF assms] by blast
  have ra: "raised (dmaCopy rd ?base 160 0 ?w2) = raised ?w2"
    using dmaCopy_keeps(2)[OF assms] by blast
  show ?thesis
    unfolding ex tracks_def at_position_def lcdEnabled_def vblank_requests_def oeq ra
    by (simp add: unlock_def)
qed

lemma vblank_count_closed:
  fixes x :: int
  shows "x div 70224 + (if x mod 70224 \<ge> 144 * 456 then 1 else 0) = (x + 4560) div 70224"
proof (cases "x mod 70224 \<ge> 144 * 456")
  case True
  have "(x + 4560) div 70224 = x div 70224 + 1"
    using int_div_pos_eq[of "x + 4560" 70224 "x div 70224 + 1" "x mod 70224 - 65664"] True
    by (simp add: algebra_simps)
  then show ?thesis using True by simp
next
  case False
  have "(x + 4560) div 70224 = x div 70224"
    using within_b(2)[of 4560 x 70224] False by simp
  then show ?thesis using False by simp
qed

lemma dmaLoop_tracks:
  "reads_keep_ppu rd \<Longrightarrow> tracks P C w \<Longrightarrow> 0 \<le> n \<Longrightarrow>
     0 \<le> fst (dmaLoop rd n w) \<and> fst (dmaLoop rd n w) \<le> n
     \<and> tracks (P + (n - fst (dmaLoop rd n w))) C (snd (dmaLoop rd n w))"
proof (induction rd n w arbitrary: P rule: dmaLoop.induct)
  case (1 rd n w)
  show ?case
  proof (cases "dmaInProgress (ppu w) \<and> 0 < n")
    case True
    define w1 where "w1 = w\<lparr> ppu := (ppu w)\<lparr> dmaCycle := dmaCycle (ppu w) + 1 \<rparr> \<rparr>"
    define w2 where "w2 = (if dmaCycle (ppu w1) > 640 then executeDma rd w1 else w1)"
    define w3 where "w3 = (if (reg (ppu w2) ! 0) AND 0x80 \<noteq> 0 then snd (consumeClocks 1 w2) else w2)"
    have t1: "tracks P C w1" using "1.prems"(2)
      by (simp add: w1_def tracks_def at_position_def lcdEnabled_def vblank_requests_def)
    have t2: "tracks P C w2" using t1 executeDma_tracks[OF "1.prems"(1)] by (simp add: w2_def)
    then have lcd: "(reg (ppu w2) ! 0) AND 0x80 \<noteq> 0" by (simp add: tracks_def lcdEnabled_def)
    have "fst (consumeClocks 1 w2) = 1"
      using consume_tracks[OF t2, of 1] by linarith
    then have t3: "tracks (P + 1) C w3"
      using consume_tracks[OF t2, of 1] lcd by (simp add: w3_def)
    have step: "dmaLoop rd n w = dmaLoop rd (n - 1) w3"
      using True by (simp add: dmaLoop.simps[of rd n w] w1_def w2_def w3_def Let_def)
    have "0 \<le> fst (dmaLoop rd (n - 1) w3) \<and> fst (dmaLoop rd (n - 1) w3) \<le> n - 1
        \<and> tracks (P + 1 + (n - 1 - fst (dmaLoop rd (n - 1) w3))) C (snd (dmaLoop rd (n - 1) w3))"
      using "1.IH"[OF True w1_def w2_def w3_def "1.prems"(1) t3] True by simp
    then show ?thesis by (simp add: step algebra_simps)
  next
    case False
    have "dmaLoop rd n w = (n, w)" using False by (subst dmaLoop.simps) auto
    then show ?thesis using "1.prems" by simp
  qed
qed

lemma cycle_tracks:
  assumes "tracks P C w" "0 \<le> n" "reads_keep_ppu rd"
  shows "tracks (P + n) C (cycle rd n w)"
proof -
  obtain m w1 where dl: "dmaLoop rd n w = (m, w1)" by force
  from dmaLoop_tracks[OF assms(3) assms(1,2)] dl
  have m: "0 \<le> m" "m \<le> n" and t1: "tracks (P + (n - m)) C w1" by simp_all
  from t1 have lcd: "(reg (ppu w1) ! 0) AND 0x80 \<noteq> 0" by (simp add: tracks_def lcdEnabled_def)
  have "cycle rd n w = modeLoop m w1" using dl lcd by (simp add: cycle_def)
  then show ?thesis using modeLoop_tracks[OF t1 m(1)] by simp
qed


subsection \<open>OAM DMA\<close>

lemma modeLoop_0: "modeLoop 0 w = w"
  by (subst modeLoop.simps) simp

lemma dmaLoop_running:
  "dmaInProgress (ppu w) \<Longrightarrow> 0 \<le> n \<Longrightarrow> dmaCycle (ppu w) + n \<le> 640 \<Longrightarrow>
     fst (dmaLoop rd n w) = 0
     \<and> dmaInProgress (ppu (snd (dmaLoop rd n w)))
     \<and> dmaCycle (ppu (snd (dmaLoop rd n w))) = dmaCycle (ppu w) + n
     \<and> busLocked (snd (dmaLoop rd n w)) = busLocked w
     \<and> reg (ppu (snd (dmaLoop rd n w))) = reg (ppu w)
     \<and> oam (ppu (snd (dmaLoop rd n w))) = oam (ppu w)
     \<and> ext (snd (dmaLoop rd n w)) = ext w"
proof (induction rd n w rule: dmaLoop.induct)
  case (1 rd n w)
  show ?case
  proof (cases "0 < n")
    case True
    define w1 where "w1 = w\<lparr> ppu := (ppu w)\<lparr> dmaCycle := dmaCycle (ppu w) + 1 \<rparr> \<rparr>"
    define w2 where "w2 = (if dmaCycle (ppu w1) > 640 then executeDma rd w1 else w1)"
    define w3 where "w3 = (if (reg (ppu w2) ! 0) AND 0x80 \<noteq> 0 then snd (consumeClocks 1 w2) else w2)"
    have w2: "w2 = w1" using "1.prems" True by (simp add: w2_def w1_def)
    have w3: "dmaInProgress (ppu w3)" "dmaCycle (ppu w3) = dmaCycle (ppu w) + 1"
      "busLocked w3 = busLocked w" "reg (ppu w3) = reg (ppu w)" "oam (ppu w3) = oam (ppu w)"
      "ext w3 = ext w"
      using "1.prems"(1) by (simp_all add: w3_def w2 consumeClocks_keeps) (simp_all add: w1_def)
    have step: "dmaLoop rd n w = dmaLoop rd (n - 1) w3"
      using True "1.prems"(1) by (simp add: dmaLoop.simps[of rd n w] w1_def w2_def w3_def Let_def)
    have c: "dmaInProgress (ppu w) \<and> 0 < n" using True "1.prems"(1) by simp
    show ?thesis
      unfolding step
      using "1.IH"[OF c w1_def w2_def w3_def w3(1)] "1.prems" True
      by (simp add: w3)
  next
    case False
    have "dmaLoop rd n w = (n, w)" using False by (subst dmaLoop.simps) auto
    then show ?thesis using "1.prems" False by simp
  qed
qed

lemma dma_running:
  assumes p: "dma_pending v d w" and n: "0 \<le> n" "d + n \<le> 640"
  shows "dma_pending v (d + n) (cycle rd n w) \<and> oam (ppu (cycle rd n w)) = oam (ppu w)
         \<and> ext (cycle rd n w) = ext w"
proof -
  from p have ip: "dmaInProgress (ppu w)" and dc: "dmaCycle (ppu w) = d"
    by (simp_all add: dma_pending_def)
  obtain m w1 where dl: "dmaLoop rd n w = (m, w1)" by force
  from dmaLoop_running[OF ip n(1), of rd] n dc dl
  have m: "m = 0" and w1: "dmaInProgress (ppu w1)" "dmaCycle (ppu w1) = d + n"
    "busLocked w1 = busLocked w" "reg (ppu w1) = reg (ppu w)" "oam (ppu w1) = oam (ppu w)"
    "ext w1 = ext w" by simp_all
  have "cycle rd n w = w1" using dl m by (simp add: cycle_def modeLoop_0)
  then show ?thesis using w1 p by (simp add: dma_pending_def)
qed

lemma dma_started:
  assumes "Ppu_sized (ppu w)" "0 \<le> v" "v < 256"
  shows "dma_pending v 0 (dmaWrite a v w) \<and> oam (ppu (dmaWrite a v w)) = oam (ppu w)
         \<and> ext (dmaWrite a v w) = ext w"
  using assms
  by (simp add: dma_pending_def dmaWrite_def lock_def Ppu_sized_def ta_set8_def toUint8_def)

lemma busBytes_length: "length (busBytes rd base k i w) = k"
  by (induction k arbitrary: i w) (simp_all add: split_beta)

lemma reads_beside_oam_same:
  assumes "reads_beside_oam rd base" "0 \<le> i" "i < 160"
  shows "rd (base + i) w = (fst (rd (base + i) w), w\<lparr> ext := ext (snd (rd (base + i) w)) \<rparr>)"
proof -
  have "rd (base + i) (w\<lparr> ppu := (ppu w)\<lparr> oam := oam (ppu w) \<rparr> \<rparr>)
          = (fst (rd (base + i) w),
             w\<lparr> ppu := (ppu w)\<lparr> oam := oam (ppu w) \<rparr>, ext := ext (snd (rd (base + i) w)) \<rparr>)"
    using assms unfolding reads_beside_oam_def by blast
  then show ?thesis by simp
qed

lemma busBytes_oam:
  assumes r: "reads_beside_oam rd base"
  shows "0 \<le> i \<Longrightarrow> i + int k \<le> 160 \<Longrightarrow>
     busBytes rd base k i (w\<lparr> ppu := (ppu w)\<lparr> oam := xs \<rparr> \<rparr>) = busBytes rd base k i w"
proof (induction k arbitrary: i w)
  case 0
  then show ?case by simp
next
  case (Suc k)
  have i: "0 \<le> i" "i < 160" using Suc.prems by simp_all
  define e where "e = ext (snd (rd (base + i) w))"
  have a: "rd (base + i) w = (fst (rd (base + i) w), w\<lparr> ext := e \<rparr>)"
    unfolding e_def by (rule reads_beside_oam_same[OF r i])
  have b: "rd (base + i) (w\<lparr> ppu := (ppu w)\<lparr> oam := xs \<rparr> \<rparr>)
            = (fst (rd (base + i) w), w\<lparr> ppu := (ppu w)\<lparr> oam := xs \<rparr>, ext := e \<rparr>)"
    unfolding e_def using r i by (simp add: reads_beside_oam_def)
  have c: "w\<lparr> ppu := (ppu w)\<lparr> oam := xs \<rparr>, ext := e \<rparr>
             = (w\<lparr> ext := e \<rparr>)\<lparr> ppu := (ppu (w\<lparr> ext := e \<rparr>))\<lparr> oam := xs \<rparr> \<rparr>" by simp
  have "busBytes rd base k (i + 1) (w\<lparr> ppu := (ppu w)\<lparr> oam := xs \<rparr>, ext := e \<rparr>)
          = busBytes rd base k (i + 1) (w\<lparr> ext := e \<rparr>)"
    unfolding c using Suc.prems by (intro Suc.IH) simp_all
  then have "busBytes rd base (Suc k) i (w\<lparr> ppu := (ppu w)\<lparr> oam := xs \<rparr> \<rparr>)
      = fst (rd (base + i) w) # busBytes rd base k (i + 1) (w\<lparr> ext := e \<rparr>)"
    by (simp add: b)
  moreover have "busBytes rd base (Suc k) i w
      = fst (rd (base + i) w) # busBytes rd base k (i + 1) (w\<lparr> ext := e \<rparr>)"
    using a by (simp add: split_beta) (metis snd_conv)
  ultimately show ?case by simp
qed

lemma dmaCopy_bytes:
  assumes r: "reads_beside_oam rd base"
  shows "length (oam (ppu w)) = 160 \<Longrightarrow> 0 \<le> i \<Longrightarrow> i + int k \<le> 160 \<Longrightarrow>
     \<exists>X e. dmaCopy rd base k i w = w\<lparr> ppu := (ppu w)\<lparr> oam := X \<rparr>, ext := e \<rparr>
        \<and> length X = 160
        \<and> (\<forall>j<160. X ! j = (if i \<le> int j \<and> int j < i + int k
                              then toUint8 (busBytes rd base k i w ! (j - nat i))
                              else oam (ppu w) ! j))"
proof (induction k arbitrary: i w)
  case 0
  have "w = w\<lparr> ppu := (ppu w)\<lparr> oam := oam (ppu w) \<rparr>, ext := ext w \<rparr>" by simp
  then show ?case using 0 by (intro exI[of _ "oam (ppu w)"] exI[of _ "ext w"]) auto
next
  case (Suc k)
  have i: "0 \<le> i" "i < 160" using Suc.prems by simp_all
  define b where "b = fst (rd (base + i) w)"
  define e1 where "e1 = ext (snd (rd (base + i) w))"
  have rd: "rd (base + i) w = (b, w\<lparr> ext := e1 \<rparr>)"
    unfolding b_def e1_def by (rule reads_beside_oam_same[OF r i])
  let ?o2 = "ta_set8 (oam (ppu w)) i b"
  let ?w1 = "w\<lparr> ext := e1 \<rparr>"
  let ?w2 = "?w1\<lparr> ppu := (ppu ?w1)\<lparr> oam := ?o2 \<rparr> \<rparr>"
  have ni: "nat i < 160" using i by linarith
  have o2: "?o2 = (oam (ppu w))[nat i := toUint8 b]"
    using Suc.prems(1) i ni by (simp add: ta_set8_def)
  have "length (oam (ppu ?w2)) = 160" "0 \<le> i + 1" "i + 1 + int k \<le> 160"
    using Suc.prems by (simp_all add: o2)
  from Suc.IH[OF this] obtain X e where
    X: "dmaCopy rd base k (i + 1) ?w2 = ?w2\<lparr> ppu := (ppu ?w2)\<lparr> oam := X \<rparr>, ext := e \<rparr>"
       "length X = 160"
       "\<forall>j<160. X ! j = (if i + 1 \<le> int j \<and> int j < i + 1 + int k
                              then toUint8 (busBytes rd base k (i + 1) ?w2 ! (j - nat (i + 1)))
                              else oam (ppu ?w2) ! j)" by blast
  have bb: "busBytes rd base k (i + 1) ?w2 = busBytes rd base k (i + 1) ?w1"
    using Suc.prems i by (intro busBytes_oam[OF r]) simp_all
  have bs: "busBytes rd base (Suc k) i w = b # busBytes rd base k (i + 1) ?w1"
    by (simp add: rd)
  note X3 = X(3)[unfolded bb]
  have 1: "dmaCopy rd base (Suc k) i w = w\<lparr> ppu := (ppu w)\<lparr> oam := X \<rparr>, ext := e \<rparr>"
    using X(1) by (simp add: rd)
  have 2: "X ! j = (if i \<le> int j \<and> int j < i + int (Suc k)
                    then toUint8 (busBytes rd base (Suc k) i w ! (j - nat i))
                    else oam (ppu w) ! j)" if "j < 160" for j
  proof (cases "int j = i")
    case True
    then have "nat i = j" by simp
    then show ?thesis using X(3) that True Suc.prems(1)
      by (simp add: o2 bs del: busBytes.simps)
  next
    case False
    then have ne: "nat i \<noteq> j" using i by auto
    show ?thesis
    proof (cases "i + 1 \<le> int j \<and> int j < i + 1 + int k")
      case True
      then have "j - nat i = Suc (j - nat (i + 1))" using i by linarith
      then show ?thesis using X3 that True by (simp add: bs del: busBytes.simps)
    next
      case F2: False
      then have c: "\<not> (i \<le> int j \<and> int j < i + int (Suc k))" using False by auto
      have "X ! j = (if i + 1 \<le> int j \<and> int j < i + 1 + int k
                     then toUint8 (busBytes rd base k (i + 1) ?w2 ! (j - nat (i + 1)))
                     else oam (ppu ?w2) ! j)" using X(3) that by blast
      then have "X ! j = oam (ppu ?w2) ! j" by (simp only: F2 if_False)
      also have "\<dots> = oam (ppu w) ! j" using ne by (simp add: o2)
      finally have f: "X ! j = oam (ppu w) ! j" .
      show ?thesis by (simp only: c if_False f)
    qed
  qed
  show ?case using 1 2 X(2) by blast
qed

lemma dma_released_keeps:
  "dma_released (w\<lparr> ppu := (ppu w)\<lparr> dmaCycle := c \<rparr> \<rparr>) = dma_released w"
  "reg (ppu (dma_released w)) = reg (ppu w)" "oam (ppu (dma_released w)) = oam (ppu w)"
  "\<not> busLocked (dma_released w)" "\<not> dmaInProgress (ppu (dma_released w))"
  "dmaCycle (ppu (dma_released w)) = 0" "ext (dma_released w) = ext w"
  by (simp_all add: dma_released_def unlock_def)

lemma dma_base:
  assumes "0 \<le> v" "v < 256"
  shows "js_shl (js_rem v 0xe0) 8 = 256 * (v mod 224)"
proof -
  have r: "js_rem v 0xe0 = v mod 224" using assms by (cases "v = 0") (simp_all add: js_rem_def sgn_if)
  have b: "0 \<le> v mod 224" "v mod 224 < 224" by simp_all
  have "signed_take_bit 31 (256 * (v mod 224)) = 256 * (v mod 224)"
    using b by (intro signed_take_bit_int_eq_self) auto
  then show ?thesis by (simp add: js_shl_def r toInt32_def push_bit_eq_mult mult.commute)
qed

lemma executeDma_bytes:
  assumes "reg (ppu w) ! 6 = v" "0 \<le> v" "v < 256" "length (oam (ppu w)) = 160"
    and r: "reads_beside_oam rd (256 * (v mod 224))"
  shows "\<exists>e. executeDma rd w
           = (dma_released w)\<lparr> ppu := (ppu (dma_released w))\<lparr> oam :=
                 map toUint8 (busBytes rd (256 * (v mod 224)) 160 0 (dma_released w)) \<rparr>,
               ext := e \<rparr>"
proof -
  let ?w2 = "dma_released w"
  have ex: "executeDma rd w = dmaCopy rd (256 * (v mod 224)) 160 0 ?w2"
    using assms(1) dma_base[OF assms(2,3)]
    by (simp add: executeDma_def Let_def unlock_def dma_released_def)
  have "length (oam (ppu ?w2)) = 160" "(0::int) \<le> 0" "0 + int 160 \<le> 160"
    using assms(4) by (simp_all add: dma_released_keeps)
  from dmaCopy_bytes[OF r this] obtain X e where
    X: "dmaCopy rd (256 * (v mod 224)) 160 0 ?w2 = ?w2\<lparr> ppu := (ppu ?w2)\<lparr> oam := X \<rparr>, ext := e \<rparr>"
       "length X = 160"
       "\<forall>j<160. X ! j = (if 0 \<le> int j \<and> int j < 0 + int 160
             then toUint8 (busBytes rd (256 * (v mod 224)) 160 0 ?w2 ! (j - nat 0))
             else oam (ppu ?w2) ! j)" by blast
  have "X = map toUint8 (busBytes rd (256 * (v mod 224)) 160 0 ?w2)"
    using X(2,3) by (intro nth_equalityI) (simp_all add: busBytes_length)
  then show ?thesis using X(1) ex by auto
qed

lemma busBytes_pure:
  "(\<forall>j. 0 \<le> j \<and> j < 160 \<longrightarrow> snd (rd (base + j) w) = w) \<Longrightarrow> 0 \<le> i \<Longrightarrow> i + int k \<le> 160 \<Longrightarrow>
     busBytes rd base k i w = map (\<lambda>j. fst (rd (base + int j) w)) [nat i ..< nat i + k]"
proof (induction k arbitrary: i)
  case 0
  then show ?case by simp
next
  case (Suc k)
  have i: "0 \<le> i" "i < 160" using Suc.prems by simp_all
  then have s: "snd (rd (base + i) w) = w" using Suc.prems(1) by blast
  have n: "nat (i + 1) = Suc (nat i)" using i by simp
  have "busBytes rd base k (i + 1) w
          = map (\<lambda>j. fst (rd (base + int j) w)) [nat (i + 1) ..< nat (i + 1) + k]"
    using Suc.prems by (intro Suc.IH) simp_all
  then have "busBytes rd base (Suc k) i w
      = fst (rd (base + i) w) # map (\<lambda>j. fst (rd (base + int j) w)) [Suc (nat i) ..< Suc (nat i) + k]"
    using s by (simp add: split_beta n)
  also have "\<dots> = map (\<lambda>j. fst (rd (base + int j) w)) (nat i # [Suc (nat i) ..< Suc (nat i) + k])"
    using i by simp
  also have "nat i # [Suc (nat i) ..< Suc (nat i) + k] = [nat i ..< nat i + Suc k]"
    by (simp add: upt_rec[of "nat i"])
  finally show ?case .
qed

lemma dmaLoop_done:
  "dmaInProgress (ppu w) \<Longrightarrow> 0 \<le> dmaCycle (ppu w) \<Longrightarrow> dmaCycle (ppu w) \<le> 640 \<Longrightarrow>
   641 \<le> dmaCycle (ppu w) + n \<Longrightarrow> reg (ppu w) ! 6 = v \<Longrightarrow> 0 \<le> v \<Longrightarrow> v < 256 \<Longrightarrow>
   length (oam (ppu w)) = 160 \<Longrightarrow> reads_beside_oam rd (256 * (v mod 224)) \<Longrightarrow>
     0 \<le> fst (dmaLoop rd n w)
     \<and> \<not> dmaInProgress (ppu (snd (dmaLoop rd n w)))
     \<and> \<not> busLocked (snd (dmaLoop rd n w))
     \<and> oam (ppu (snd (dmaLoop rd n w)))
         = map toUint8 (busBytes rd (256 * (v mod 224)) 160 0
             (dma_released (snd (dmaLoop rd (640 - dmaCycle (ppu w)) w))))"
proof (induction rd n w rule: dmaLoop.induct)
  case (1 rd n w)
  have n: "0 < n" using "1.prems" by linarith
  define w1 where "w1 = w\<lparr> ppu := (ppu w)\<lparr> dmaCycle := dmaCycle (ppu w) + 1 \<rparr> \<rparr>"
  define w2 where "w2 = (if dmaCycle (ppu w1) > 640 then executeDma rd w1 else w1)"
  define w3 where "w3 = (if (reg (ppu w2) ! 0) AND 0x80 \<noteq> 0 then snd (consumeClocks 1 w2) else w2)"
  have step: "dmaLoop rd m w = dmaLoop rd (m - 1) w3" if "0 < m" for m
    using that "1.prems"(1) by (simp add: dmaLoop.simps[of rd m w] w1_def w2_def w3_def Let_def)
  have c: "dmaInProgress (ppu w) \<and> 0 < n" using n "1.prems"(1) by simp
  have w3k: "dmaInProgress (ppu w3) = dmaInProgress (ppu w2)" "dmaCycle (ppu w3) = dmaCycle (ppu w2)"
      "busLocked w3 = busLocked w2" "reg (ppu w3) = reg (ppu w2)" "oam (ppu w3) = oam (ppu w2)"
      "ext w3 = ext w2"
    by (simp_all add: w3_def consumeClocks_keeps)
  show ?case
  proof (cases "dmaCycle (ppu w) < 640")
    case True
    have w2: "w2 = w1" using True by (simp add: w2_def w1_def)
    have w3: "dmaInProgress (ppu w3)" "dmaCycle (ppu w3) = dmaCycle (ppu w) + 1"
      "reg (ppu w3) = reg (ppu w)" "oam (ppu w3) = oam (ppu w)"
      using "1.prems"(1) by (simp_all add: w3k w2) (simp_all add: w1_def)
    have s2: "dmaLoop rd (640 - dmaCycle (ppu w)) w = dmaLoop rd (640 - dmaCycle (ppu w3)) w3"
      using step[of "640 - dmaCycle (ppu w)"] True by (simp add: w3(2) algebra_simps)
    show ?thesis
      unfolding step[OF n] s2
      using "1.IH"[OF c w1_def w2_def w3_def w3(1)] "1.prems" True
      by (simp add: w3)
  next
    case False
    then have d: "dmaCycle (ppu w) = 640" using "1.prems" by simp
    have r1: "reg (ppu w1) ! 6 = v" "length (oam (ppu w1)) = 160"
      using "1.prems" by (simp_all add: w1_def)
    have rel: "dma_released w1 = dma_released w"
      unfolding w1_def by (rule dma_released_keeps(1))
    obtain e where ex: "executeDma rd w1 = (dma_released w1)\<lparr> ppu := (ppu (dma_released w1))\<lparr> oam :=
                 map toUint8 (busBytes rd (256 * (v mod 224)) 160 0 (dma_released w1)) \<rparr>,
               ext := e \<rparr>"
      using executeDma_bytes[OF r1(1) "1.prems"(6,7) r1(2) "1.prems"(9)] by blast
    have "dmaCycle (ppu w1) > 640" using d by (simp add: w1_def)
    then have "w2 = executeDma rd w1" by (simp add: w2_def)
    then have w2: "w2 = (dma_released w)\<lparr> ppu := (ppu (dma_released w))\<lparr> oam :=
                 map toUint8 (busBytes rd (256 * (v mod 224)) 160 0 (dma_released w)) \<rparr>,
               ext := e \<rparr>"
      unfolding ex rel .
    have w3: "\<not> dmaInProgress (ppu w3)" "\<not> busLocked w3"
      "oam (ppu w3) = map toUint8 (busBytes rd (256 * (v mod 224)) 160 0 (dma_released w))"
      by (simp_all add: w3k w2 dma_released_keeps)
    have z: "dmaLoop rd (640 - dmaCycle (ppu w)) w = (0, w)"
      using d by (subst dmaLoop.simps) simp
    have "dmaLoop rd (n - 1) w3 = (n - 1, w3)" using w3(1) by (subst dmaLoop.simps) simp
    then show ?thesis unfolding step[OF n] z using w3 n by simp
  qed
qed

lemma dmaLoop_cycle:
  assumes "dmaInProgress (ppu w)" "0 \<le> n" "dmaCycle (ppu w) + n \<le> 640"
  shows "snd (dmaLoop rd n w) = cycle rd n w"
proof -
  obtain m w1 where dl: "dmaLoop rd n w = (m, w1)" by force
  from dmaLoop_running[OF assms, of rd] dl have "m = 0" by simp
  then show ?thesis using dl by (simp add: cycle_def modeLoop_0)
qed

lemma dma_done:
  assumes p: "dma_pending v d w" and d: "0 \<le> d" "d \<le> 640" and n: "641 \<le> d + n"
    and v: "0 \<le> v" "v < 256"
    and r: "reads_beside_oam rd (256 * (v mod 224))"
  shows "\<not> busLocked (cycle rd n w) \<and> \<not> dmaInProgress (ppu (cycle rd n w))
         \<and> oam (ppu (cycle rd n w))
             = map toUint8 (busBytes rd (256 * (v mod 224)) 160 0
                 (dma_released (cycle rd (640 - d) w)))"
proof -
  from p have ip: "dmaInProgress (ppu w)" and dc: "dmaCycle (ppu w) = d"
    and rg: "reg (ppu w) ! 6 = v" and lo: "length (oam (ppu w)) = 160"
    by (simp_all add: dma_pending_def)
  obtain m w1 where dl: "dmaLoop rd n w = (m, w1)" by force
  have cy: "snd (dmaLoop rd (640 - d) w) = cycle rd (640 - d) w"
    using dmaLoop_cycle[OF ip, of "640 - d" rd] d dc by simp
  from dmaLoop_done[OF ip _ _ _ rg v lo r, of n] d n dc dl
  have w1: "\<not> dmaInProgress (ppu w1)" "\<not> busLocked w1"
    "oam (ppu w1) = map toUint8 (busBytes rd (256 * (v mod 224)) 160 0
                 (dma_released (cycle rd (640 - d) w)))" by (simp_all add: cy)
  have "cycle rd n w = w1 \<or> cycle rd n w = modeLoop m w1"
    using dl by (simp add: cycle_def)
  then show ?thesis using w1 modeLoop_keeps[of m w1] by auto
qed

lemma pure_reads_beside_oam:
  assumes "\<And>i w. 0 \<le> i \<Longrightarrow> i < 160 \<Longrightarrow> snd (rd (base + i) w) = w"
    and "\<And>i w xs. 0 \<le> i \<Longrightarrow> i < 160 \<Longrightarrow>
           fst (rd (base + i) (w\<lparr> ppu := (ppu w)\<lparr> oam := xs \<rparr> \<rparr>)) = fst (rd (base + i) w)"
  shows "reads_beside_oam rd base"
  unfolding reads_beside_oam_def
proof (intro allI impI)
  fix i :: int and w :: "'a World" and xs
  assume i: "0 \<le> i \<and> i < 160"
  let ?w' = "w\<lparr> ppu := (ppu w)\<lparr> oam := xs \<rparr> \<rparr>"
  have a: "fst (rd (base + i) ?w') = fst (rd (base + i) w)" using assms(2) i by simp
  have b: "snd (rd (base + i) ?w') = ?w'" using assms(1) i by simp
  have c: "ext (snd (rd (base + i) w)) = ext w" using assms(1) i by simp
  show "rd (base + i) ?w'
      = (fst (rd (base + i) w), w\<lparr> ppu := (ppu w)\<lparr> oam := xs \<rparr>, ext := ext (snd (rd (base + i) w)) \<rparr>)"
    by (simp add: prod_eq_iff a b c)
qed

lemma source_range:
  fixes v i :: int
  assumes "0 \<le> i" "i < 160"
  shows "0 \<le> 256 * (v mod 0xe0) + i" "256 * (v mod 0xe0) + i < 0xe000"
proof -
  have "0 \<le> v mod 0xe0" "v mod 0xe0 < 0xe0" by simp_all
  then show "0 \<le> 256 * (v mod 0xe0) + i" "256 * (v mod 0xe0) + i < 0xe000"
    using assms by linarith+
qed

lemma installed_reads_beside_oam:
  assumes vr: "\<And>a w. 0x8000 \<le> a \<Longrightarrow> a < 0xa000 \<Longrightarrow> rd a w = (num_or_0 (vramRead a (ppu w)), w)"
    and ot: "\<And>a w. 0 \<le> a \<Longrightarrow> a < 0xe000 \<Longrightarrow> \<not> (0x8000 \<le> a \<and> a < 0xa000) \<Longrightarrow>
                rd a w = (f a (ext w), w\<lparr> ext := g a (ext w) \<rparr>)"
  shows "reads_beside_oam rd (256 * (v mod 0xe0))"
  unfolding reads_beside_oam_def
proof (intro allI impI)
  fix i :: int and w :: "'a World" and xs
  assume i: "0 \<le> i \<and> i < 160"
  let ?a = "256 * (v mod 0xe0) + i"
  let ?w' = "w\<lparr> ppu := (ppu w)\<lparr> oam := xs \<rparr> \<rparr>"
  have a: "0 \<le> ?a" "?a < 0xe000" using source_range[of i v] i by simp_all
  show "rd ?a ?w' = (fst (rd ?a w), w\<lparr> ppu := (ppu w)\<lparr> oam := xs \<rparr>, ext := ext (snd (rd ?a w)) \<rparr>)"
  proof (cases "0x8000 \<le> ?a \<and> ?a < 0xa000")
    case True
    then show ?thesis using vr[of ?a w] vr[of ?a ?w'] by (simp add: vramRead_def)
  next
    case False
    then show ?thesis using ot[OF a False, of w] ot[OF a False, of ?w'] by simp
  qed
qed

lemma map_upt_const: "(\<And>j. j < n \<Longrightarrow> f j = c) \<Longrightarrow> map f [0..<n] = replicate n c"
  by (intro nth_equalityI) simp_all

lemma dma_released_mode:
  "mode (ppu (dma_released w)) = mode (ppu w)" "vram (ppu (dma_released w)) = vram (ppu w)"
  by (simp_all add: dma_released_def unlock_def)
subsection \<open>The example PPU\<close>

lemma demo_world_fields:
  "reg (ppu demo_world) ! 0 = 0x80" "mode (ppu demo_world) = oamScan"
  "scanline (ppu demo_world) = 0" "clockInMode (ppu demo_world) = 0"
  "raised demo_world = []" "ext demo_world = ()" "busLocked demo_world = False"
  "length (vram (ppu demo_world)) = 0x2000" "length (oam (ppu demo_world)) = 0xa0"
  "length (reg (ppu demo_world)) = 12" "length (frontBuffer (ppu demo_world)) = 160 * 144"
  "length (backBuffer (ppu demo_world)) = 160 * 144"
  "vram (ppu demo_world) = replicate 0x2000 0" "oam (ppu demo_world) = replicate 0xa0 0"
  by (simp_all add: demo_world_def Ppu_reset_def Ppu_new_def)

lemma demo_world_sized: "Ppu_sized (ppu demo_world)"
  by (simp add: Ppu_sized_def demo_world_fields)

lemma demo_world_lcd: "lcdEnabled (ppu demo_world)"
  by (simp add: lcdEnabled_def demo_world_fields)

lemma demo_world_start: "at_position (ppu demo_world) 0"
  by (simp add: at_position_def spec_mode_def spec_ly_def spec_clockInMode_def demo_world_fields)

lemma demo_rd_keeps: "reads_keep_ppu demo_rd"
  by (simp add: reads_keep_ppu_def demo_rd_def)

subsection \<open>Frame timing\<close>

text \<open>
  Claim C4. Let the LCD be enabled and the PPU be at position \<open>p\<close> of the schedule of
  the spec (\<open>spec_mode\<close>, \<open>spec_ly\<close>, \<open>spec_clockInMode\<close>: per line 80 clocks of OAM
  scan, 172 of drawing and 204 of horizontal blank, then 4560 clocks of vertical blank
  with LY counting 144 to 153), on a bus whose reads leave the PPU and the interrupt
  requests alone. Then \<open>cycle\<close> with \<open>n\<close> clocks, whatever DMA is in progress, leaves
  the PPU at position \<open>(p + n) mod 70224\<close>, and the number of vertical-blank interrupts
  it requests is the number of times position \<open>144 * 456\<close>, the start of the vertical
  blank, was reached. In particular 70224 clocks lead back to the same position with
  exactly one request.
\<close>

theorem C4_frame_timing:
  assumes "lcdEnabled (ppu w)" and "at_position (ppu w) p" and "0 \<le> p" and "p < 70224"
    and "0 \<le> n" and "reads_keep_ppu rd"
  shows "at_position (ppu (cycle rd n w)) ((p + n) mod 70224)
       \<and> lcdEnabled (ppu (cycle rd n w))
       \<and> vblank_requests (cycle rd n w)
           = vblank_requests w + ((p + n + 4560) div 70224 - (p + 4560) div 70224)
       \<and> (n = 70224 \<longrightarrow> at_position (ppu (cycle rd n w)) p
                         \<and> vblank_requests (cycle rd n w) = vblank_requests w + 1)"
proof -
  define C where "C = vblank_requests w - (p + 4560) div 70224"
  have pm: "p mod 70224 = p" "p div 70224 = 0" using assms(3,4) by simp_all
  have t0: "tracks p C w"
    using assms(1,2,3) vblank_count_closed[of p]
    by (simp add: tracks_def pm C_def)
  have t: "tracks (p + n) C (cycle rd n w)"
    by (rule cycle_tracks[OF t0 assms(5,6)])
  have 1: "at_position (ppu (cycle rd n w)) ((p + n) mod 70224)"
    and 2: "lcdEnabled (ppu (cycle rd n w))"
    using t by (simp_all add: tracks_def)
  have 3: "vblank_requests (cycle rd n w)
           = vblank_requests w + ((p + n + 4560) div 70224 - (p + 4560) div 70224)"
    using t vblank_count_closed[of "p + n"] by (simp add: tracks_def C_def)
  have 4: "n = 70224 \<longrightarrow> at_position (ppu (cycle rd n w)) p
                         \<and> vblank_requests (cycle rd n w) = vblank_requests w + 1"
  proof
    assume n: "n = 70224"
    have "(p + 70224) mod 70224 = p" using pm by simp
    moreover have "(p + 70224 + 4560) div 70224 = (p + 4560) div 70224 + 1"
      using div_add_self2[of 70224 "p + 4560"] by (simp add: add.commute add.left_commute)
    ultimately show "at_position (ppu (cycle rd n w)) p
                         \<and> vblank_requests (cycle rd n w) = vblank_requests w + 1"
      using 1 3 n by simp
  qed
  from 1 2 3 4 show ?thesis by blast
qed

theorem C4_witness:
  "lcdEnabled (ppu demo_world) \<and> at_position (ppu demo_world) 0 \<and> reads_keep_ppu demo_rd
   \<and> at_position (ppu (cycle demo_rd 70224 demo_world)) 0
   \<and> vblank_requests (cycle demo_rd 70224 demo_world) = 1
   \<and> at_position (ppu (cycle demo_rd 65664 demo_world)) 65664
   \<and> spec_mode 65664 = vblank \<and> spec_ly 65664 = 144"
  using C4_frame_timing [of demo_world 0 70224 demo_rd]
    C4_frame_timing [of demo_world 0 65664 demo_rd]
  by (simp add: demo_world_lcd demo_world_start demo_rd_keeps vblank_requests_def
        demo_world_fields spec_mode_def spec_ly_def)

subsection \<open>Access to VRAM and OAM\<close>

text \<open>
  Claim C5. For an address in VRAM (\<open>0x8000..0x9FFF\<close>): with the LCD enabled and the
  mode Draw a read returns \<open>0xFF\<close>; otherwise a read returns the byte stored for that
  address, a write stores the (low byte of the) value there, and the value is read back.
  For an address in OAM (\<open>0xFE00..0xFE9F\<close>) the same holds with the modes Draw and OAM
  scan in place of Draw.
\<close>

theorem C5_vram_oam_access:
  assumes sz: "Ppu_sized s"
  shows "(0x8000 \<le> a \<and> a \<le> 0x9fff \<longrightarrow>
           (lcdEnabled s \<and> mode s = draw \<longrightarrow> vramRead a s = Some 0xff)
         \<and> (\<not> (lcdEnabled s \<and> mode s = draw) \<longrightarrow>
              vramRead a s = Some (vram s ! nat (a - 0x8000))
            \<and> vramWrite a v s = s\<lparr> vram := (vram s)[nat (a - 0x8000) := v mod 256] \<rparr>
            \<and> vramRead a (vramWrite a v s) = Some (v mod 256)))
       \<and> (0xfe00 \<le> a \<and> a \<le> 0xfe9f \<longrightarrow>
           (lcdEnabled s \<and> (mode s = draw \<or> mode s = oamScan) \<longrightarrow> oamRead a s = Some 0xff)
         \<and> (\<not> (lcdEnabled s \<and> (mode s = draw \<or> mode s = oamScan)) \<longrightarrow>
              oamRead a s = Some (oam s ! nat (a - 0xfe00))
            \<and> oamWrite a v s = s\<lparr> oam := (oam s)[nat (a - 0xfe00) := v mod 256] \<rparr>
            \<and> oamRead a (oamWrite a v s) = Some (v mod 256)))"
proof (intro conjI impI)
  assume a: "0x8000 \<le> a \<and> a \<le> 0x9fff"
  then have i: "a AND 0x1fff = a - 0x8000" by (simp add: vram_index)
  have l: "nat (a - 0x8000) < length (vram s)" using a sz by (auto simp add: Ppu_sized_def)
  { assume "lcdEnabled s \<and> mode s = draw"
    then show "vramRead a s = Some 0xff" by (simp add: vramRead_def lcdEnabled_def) }
  { assume n: "\<not> (lcdEnabled s \<and> mode s = draw)"
    show "vramRead a s = Some (vram s ! nat (a - 0x8000))"
      using n a l by (auto simp add: vramRead_def lcdEnabled_def i ta_get_def)
    show "vramWrite a v s = s\<lparr> vram := (vram s)[nat (a - 0x8000) := v mod 256] \<rparr>"
      using n a l by (auto simp add: vramWrite_def lcdEnabled_def i ta_set8_def toUint8_def)
    show "vramRead a (vramWrite a v s) = Some (v mod 256)"
      using n a l by (auto simp add: vramRead_def vramWrite_def lcdEnabled_def i ta_get_def ta_set8_def toUint8_def) }
next
  assume a: "0xfe00 \<le> a \<and> a \<le> 0xfe9f"
  then have i: "a AND 0xff = a - 0xfe00" by (simp add: oam_index)
  have l: "nat (a - 0xfe00) < length (oam s)" using a sz by (auto simp add: Ppu_sized_def)
  { assume "lcdEnabled s \<and> (mode s = draw \<or> mode s = oamScan)"
    then show "oamRead a s = Some 0xff" by (auto simp add: oamRead_def lcdEnabled_def) }
  { assume n: "\<not> (lcdEnabled s \<and> (mode s = draw \<or> mode s = oamScan))"
    show "oamRead a s = Some (oam s ! nat (a - 0xfe00))"
      using n a l by (auto simp add: oamRead_def lcdEnabled_def i ta_get_def)
    show "oamWrite a v s = s\<lparr> oam := (oam s)[nat (a - 0xfe00) := v mod 256] \<rparr>"
      using n a l by (auto simp add: oamWrite_def lcdEnabled_def i ta_set8_def toUint8_def)
    show "oamRead a (oamWrite a v s) = Some (v mod 256)"
      using n a l by (auto simp add: oamRead_def oamWrite_def lcdEnabled_def i ta_get_def ta_set8_def toUint8_def) }
qed


theorem C5_witness:
  "Ppu_sized (ppu demo_world)
   \<and> vramRead 0x8000 (ppu demo_world) = Some 0
   \<and> vramRead 0x8000 (vramWrite 0x8000 0x42 (ppu demo_world)) = Some 0x42
   \<and> oamRead 0xfe00 (ppu demo_world) = Some 0xff"
proof -
  have m: "\<not> (lcdEnabled (ppu demo_world) \<and> mode (ppu demo_world) = draw)"
    "lcdEnabled (ppu demo_world) \<and> (mode (ppu demo_world) = draw \<or> mode (ppu demo_world) = oamScan)"
    by (simp_all add: demo_world_lcd demo_world_fields)
  have r: "(0x8000::int) \<le> 0x8000 \<and> (0x8000::int) \<le> 0x9fff"
    "(0xfe00::int) \<le> 0xfe00 \<and> (0xfe00::int) \<le> 0xfe9f" by simp_all
  have v: "vramRead 0x8000 (ppu demo_world) = Some (vram (ppu demo_world) ! nat (0x8000 - 0x8000))"
    "vramRead 0x8000 (vramWrite 0x8000 0x42 (ppu demo_world)) = Some (0x42 mod 256)"
    using C5_vram_oam_access [OF demo_world_sized, of "0x8000" "0x42"] m(1) r(1) by blast+
  have o: "oamRead 0xfe00 (ppu demo_world) = Some 0xff"
    using C5_vram_oam_access [OF demo_world_sized, of "0xfe00" "0x42"] m(2) r(2) by blast
  have z: "vram (ppu demo_world) ! nat (0x8000 - 0x8000) = 0"
    by (simp add: demo_world_fields)
  show ?thesis using v o z demo_world_sized by simp
qed

subsection \<open>OAM DMA\<close>

text \<open>
  Claim C6, as the code has it. A write of the byte \<open>v\<close> to the DMA register locks the
  bus and starts a transfer. As long as no more than 640 PPU clocks have passed since,
  the bus stays locked, the transfer stays in progress and OAM is what it was. With the
  641st clock the transfer is done: the bus is unlocked and OAM holds the 160 bytes
  that the bus returns for the addresses from \<open>(v mod 0xE0) * 0x100\<close> on, read one after
  the other in the world as it is after the first 640 clocks and the release of the
  bus, and all written in that one step. The bus is any whose reads of the source
  addresses are \<open>reads_beside_oam\<close>. Where these reads change nothing at all, byte \<open>j\<close>
  of OAM is what the bus answers for the address \<open>j\<close> of the source at that moment.
  The second and third part are stated for a transfer that has seen \<open>d\<close> clocks
  already, so that they cover clocks delivered in several calls.
\<close>

theorem C6_oam_dma:
  assumes "0 \<le> v" and "v < 256"
  shows "(Ppu_sized (ppu w) \<longrightarrow>
            dma_pending v 0 (dmaWrite a v w) \<and> oam (ppu (dmaWrite a v w)) = oam (ppu w)
            \<and> ext (dmaWrite a v w) = ext w)
       \<and> (dma_pending v d w \<and> 0 \<le> d \<and> 0 \<le> n \<and> d + n \<le> 640 \<longrightarrow>
            dma_pending v (d + n) (cycle rd n w) \<and> oam (ppu (cycle rd n w)) = oam (ppu w)
            \<and> ext (cycle rd n w) = ext w)
       \<and> (dma_pending v d w \<and> 0 \<le> d \<and> d \<le> 640 \<and> 641 \<le> d + n
            \<and> reads_beside_oam rd (256 * (v mod 0xe0)) \<longrightarrow>
            \<not> busLocked (cycle rd n w) \<and> \<not> dmaInProgress (ppu (cycle rd n w))
            \<and> oam (ppu (cycle rd n w))
                = map toUint8 (busBytes rd (256 * (v mod 0xe0)) 160 0
                    (dma_released (cycle rd (640 - d) w))))
       \<and> (Ppu_sized (ppu w) \<and> 0 \<le> n \<and> n \<le> 640 \<longrightarrow>
            busLocked (cycle rd n (dmaWrite a v w))
            \<and> dmaInProgress (ppu (cycle rd n (dmaWrite a v w)))
            \<and> oam (ppu (cycle rd n (dmaWrite a v w))) = oam (ppu w))
       \<and> (Ppu_sized (ppu w) \<and> 641 \<le> n \<and> reads_beside_oam rd (256 * (v mod 0xe0)) \<longrightarrow>
            \<not> busLocked (cycle rd n (dmaWrite a v w))
            \<and> \<not> dmaInProgress (ppu (cycle rd n (dmaWrite a v w)))
            \<and> oam (ppu (cycle rd n (dmaWrite a v w)))
                = map toUint8 (busBytes rd (256 * (v mod 0xe0)) 160 0
                    (dma_released (cycle rd 640 (dmaWrite a v w)))))
       \<and> ((\<forall>j. 0 \<le> j \<and> j < 160 \<longrightarrow> snd (rd (256 * (v mod 0xe0) + j) u) = u) \<longrightarrow>
            busBytes rd (256 * (v mod 0xe0)) 160 0 u
              = map (\<lambda>j. fst (rd (256 * (v mod 0xe0) + int j) u)) [0..<160])"
proof (intro conjI impI)
  assume "Ppu_sized (ppu w)"
  from dma_started[OF this assms, of a]
  show "dma_pending v 0 (dmaWrite a v w)" "oam (ppu (dmaWrite a v w)) = oam (ppu w)"
    "ext (dmaWrite a v w) = ext w" by simp_all
next
  assume h: "dma_pending v d w \<and> 0 \<le> d \<and> 0 \<le> n \<and> d + n \<le> 640"
  from dma_running[of v d w n rd] h
  show "dma_pending v (d + n) (cycle rd n w)" "oam (ppu (cycle rd n w)) = oam (ppu w)"
    "ext (cycle rd n w) = ext w" by simp_all
next
  assume h: "dma_pending v d w \<and> 0 \<le> d \<and> d \<le> 640 \<and> 641 \<le> d + n
            \<and> reads_beside_oam rd (256 * (v mod 0xe0))"
  from dma_done[of v d w n rd] h assms
  show "\<not> busLocked (cycle rd n w)" "\<not> dmaInProgress (ppu (cycle rd n w))"
    "oam (ppu (cycle rd n w))
       = map toUint8 (busBytes rd (256 * (v mod 0xe0)) 160 0 (dma_released (cycle rd (640 - d) w)))"
    by simp_all
next
  assume h: "Ppu_sized (ppu w) \<and> 0 \<le> n \<and> n \<le> 640"
  then have st: "dma_pending v 0 (dmaWrite a v w)" "oam (ppu (dmaWrite a v w)) = oam (ppu w)"
    using dma_started[OF _ assms, of w a] by simp_all
  from dma_running[OF st(1), of n rd] h st(2)
  show "busLocked (cycle rd n (dmaWrite a v w))"
    "dmaInProgress (ppu (cycle rd n (dmaWrite a v w)))"
    "oam (ppu (cycle rd n (dmaWrite a v w))) = oam (ppu w)"
    by (simp_all add: dma_pending_def)
next
  assume h: "Ppu_sized (ppu w) \<and> 641 \<le> n \<and> reads_beside_oam rd (256 * (v mod 0xe0))"
  then have st: "dma_pending v 0 (dmaWrite a v w)"
    using dma_started[OF _ assms, of w a] by simp
  from dma_done[OF st _ _ _ assms, of n rd] h
  show "\<not> busLocked (cycle rd n (dmaWrite a v w))"
    "\<not> dmaInProgress (ppu (cycle rd n (dmaWrite a v w)))"
    "oam (ppu (cycle rd n (dmaWrite a v w)))
       = map toUint8 (busBytes rd (256 * (v mod 0xe0)) 160 0
           (dma_released (cycle rd 640 (dmaWrite a v w))))"
    by simp_all
next
  assume h: "\<forall>j. 0 \<le> j \<and> j < 160 \<longrightarrow> snd (rd (256 * (v mod 0xe0) + j) u) = u"
  from busBytes_pure[where rd = rd and base = "256 * (v mod 0xe0)" and w = u and i = 0
      and k = 160] h
  show "busBytes rd (256 * (v mod 0xe0)) 160 0 u
          = map (\<lambda>j. fst (rd (256 * (v mod 0xe0) + int j) u)) [0..<160]" by simp
qed

lemma demo_rd_beside: "reads_beside_oam demo_rd base"
  by (rule pure_reads_beside_oam) (simp_all add: demo_rd_def)

lemma wired_rd_beside: "reads_beside_oam wired_rd (256 * (v mod 0xe0))"
proof (rule installed_reads_beside_oam[where f = "\<lambda>a e. if a < 0xa0 then 0x11 else 0x22"
      and g = "\<lambda>a e. e"])
  fix a :: int and w :: "unit World"
  show "0x8000 \<le> a \<Longrightarrow> a < 0xa000 \<Longrightarrow> wired_rd a w = (num_or_0 (vramRead a (ppu w)), w)"
    by (simp add: wired_rd_def)
  show "0 \<le> a \<Longrightarrow> a < 0xe000 \<Longrightarrow> \<not> (0x8000 \<le> a \<and> a < 0xa000) \<Longrightarrow>
          wired_rd a w = (if a < 0xa0 then 0x11 else 0x22, w\<lparr> ext := ext w \<rparr>)"
    by (auto simp add: wired_rd_def demo_rd_def)
qed

lemma wired_rd_keeps: "reads_keep_ppu wired_rd"
  by (simp add: reads_keep_ppu_def wired_rd_def demo_rd_def)

lemma demo_dma_draw:
  "mode (ppu (cycle wired_rd 640 (dmaWrite 0xff46 0x80 demo_world))) = draw"
  "lcdEnabled (ppu (cycle wired_rd 640 (dmaWrite 0xff46 0x80 demo_world)))"
proof -
  let ?w0 = "dmaWrite 0xff46 0x80 demo_world"
  have "tracks 0 0 ?w0"
    by (simp add: tracks_def at_position_def lcdEnabled_def vblank_requests_def dmaWrite_def
          lock_def spec_mode_def spec_ly_def spec_clockInMode_def demo_world_fields ta_set8_def)
  from cycle_tracks[OF this _ wired_rd_keeps, of 640]
  have t: "tracks 640 0 (cycle wired_rd 640 ?w0)" by simp
  then show "mode (ppu (cycle wired_rd 640 ?w0)) = draw"
    "lcdEnabled (ppu (cycle wired_rd 640 ?w0))"
    by (simp_all add: tracks_def at_position_def spec_mode_def)
qed

theorem C6_witness:
  "(0::int) \<le> 0x80 \<and> (0x80::int) < 256 \<and> Ppu_sized (ppu demo_world)
   \<and> reads_beside_oam wired_rd (256 * (0x80 mod 0xe0))
   \<and> busLocked (cycle wired_rd 640 (dmaWrite 0xff46 0x80 demo_world))
   \<and> oam (ppu (cycle wired_rd 640 (dmaWrite 0xff46 0x80 demo_world))) = replicate 0xa0 0
   \<and> mode (ppu (cycle wired_rd 640 (dmaWrite 0xff46 0x80 demo_world))) = draw
   \<and> \<not> busLocked (cycle wired_rd 641 (dmaWrite 0xff46 0x80 demo_world))
   \<and> \<not> dmaInProgress (ppu (cycle wired_rd 641 (dmaWrite 0xff46 0x80 demo_world)))
   \<and> oam (ppu (cycle wired_rd 641 (dmaWrite 0xff46 0x80 demo_world))) = replicate 160 0xff
   \<and> oam (ppu (cycle wired_rd 641 (dmaWrite 0xff46 0x12 demo_world))) = replicate 160 0x22"
proof -
  let ?w0 = "dmaWrite 0xff46 0x80 demo_world"
  let ?u = "dma_released (cycle wired_rd 640 ?w0)"
  let ?w1 = "dmaWrite 0xff46 0x12 demo_world"
  let ?u1 = "dma_released (cycle wired_rd 640 ?w1)"
  note r = wired_rd_beside[of "0x80"]
  have pure: "\<forall>j. 0 \<le> j \<and> j < 160 \<longrightarrow> snd (wired_rd (256 * (0x80 mod 0xe0) + j) ?u) = ?u"
    by (simp add: wired_rd_def demo_rd_def)
  from C6_oam_dma [where v = "0x80" and w = demo_world and a = "0xff46" and n = 640
      and rd = wired_rd]
  have a: "busLocked (cycle wired_rd 640 ?w0)"
    "oam (ppu (cycle wired_rd 640 ?w0)) = replicate 0xa0 0"
    by (simp_all add: demo_world_sized demo_world_fields)
  from C6_oam_dma [where v = "0x80" and w = demo_world and a = "0xff46" and n = 641
      and rd = wired_rd and u = ?u] r pure
  have b: "\<not> busLocked (cycle wired_rd 641 ?w0)"
    "\<not> dmaInProgress (ppu (cycle wired_rd 641 ?w0))"
    "oam (ppu (cycle wired_rd 641 ?w0))
       = map toUint8 (busBytes wired_rd (256 * (0x80 mod 0xe0)) 160 0 ?u)"
    "busBytes wired_rd (256 * (0x80 mod 0xe0)) 160 0 ?u
       = map (\<lambda>j. fst (wired_rd (256 * (0x80 mod 0xe0) + int j) ?u)) [0..<160]"
    by (simp_all add: demo_world_sized)
  have blocked: "fst (wired_rd (256 * (0x80 mod 0xe0) + int j) ?u) = 0xff" if "j < 160" for j
    using that demo_dma_draw
    by (simp add: wired_rd_def vramRead_def num_or_0_def dma_released_mode dma_released_keeps
          lcdEnabled_def)
  have o: "oam (ppu (cycle wired_rd 641 ?w0)) = replicate 160 0xff"
    unfolding b(3) b(4) using map_upt_const[of 160 _ "0xff", OF blocked]
    by (simp add: toUint8_def)
  have pure1: "\<forall>j. 0 \<le> j \<and> j < 160 \<longrightarrow> snd (wired_rd (256 * (0x12 mod 0xe0) + j) ?u1) = ?u1"
    by (simp add: wired_rd_def demo_rd_def)
  from C6_oam_dma [where v = "0x12" and w = demo_world and a = "0xff46" and n = 641
      and rd = wired_rd and u = ?u1] wired_rd_beside[of "0x12"] pure1
  have c: "oam (ppu (cycle wired_rd 641 ?w1))
       = map toUint8 (busBytes wired_rd (256 * (0x12 mod 0xe0)) 160 0 ?u1)"
    "busBytes wired_rd (256 * (0x12 mod 0xe0)) 160 0 ?u1
       = map (\<lambda>j. fst (wired_rd (256 * (0x12 mod 0xe0) + int j) ?u1)) [0..<160]"
    by (simp_all add: demo_world_sized)
  have plain: "fst (wired_rd (256 * (0x12 mod 0xe0) + int j) ?u1) = 0x22" if "j < 160" for j
    using that by (simp add: wired_rd_def demo_rd_def)
  have o1: "oam (ppu (cycle wired_rd 641 ?w1)) = replicate 160 0x22"
    unfolding c(1) c(2) using map_upt_const[of 160 _ "0x22", OF plain]
    by (simp add: toUint8_def)
  show ?thesis using a b(1,2) r demo_dma_draw(1) o o1 by (simp add: demo_world_sized)
qed

text \<open>
  The claim as stated fails: for \<open>v = 0xE0\<close> the source is not \<open>v << 8 = 0xE000\<close>,
  where the example bus answers \<open>0x22\<close>, but \<open>0x0000\<close>, where it answers \<open>0x11\<close>; and
  after 640 clocks the bus is still locked.
\<close>

theorem C6_counterexample:
  "fst (demo_rd (push_bit 8 0xe0) demo_world) = 0x22
   \<and> oam (ppu (cycle demo_rd 641 (dmaWrite 0xff46 0xe0 demo_world))) = replicate 160 0x11
   \<and> busLocked (cycle demo_rd 640 (dmaWrite 0xff46 0xe0 demo_world))"
proof -
  let ?w0 = "dmaWrite 0xff46 0xe0 demo_world"
  let ?u = "dma_released (cycle demo_rd 640 ?w0)"
  have v: "(0::int) \<le> 0xe0" "(0xe0::int) < 256" by simp_all
  from dma_started[OF demo_world_sized v, of "0xff46"]
  have st: "dma_pending 0xe0 0 ?w0" by simp
  have "busBytes demo_rd 0 160 0 ?u = map (\<lambda>j. fst (demo_rd (0 + int j) ?u)) [0..<160]"
    using busBytes_pure[where rd = demo_rd and base = 0 and w = ?u and i = 0 and k = 160]
    by (simp add: demo_rd_def)
  also have "\<dots> = replicate 160 0x11"
    by (intro map_upt_const) (simp add: demo_rd_def)
  finally have bytes: "busBytes demo_rd 0 160 0 ?u = replicate 160 0x11" .
  have 1: "oam (ppu (cycle demo_rd 641 ?w0)) = replicate 160 0x11"
    using dma_done[OF st _ _ _ v demo_rd_beside, of 641]
    by (simp add: bytes toUint8_def)
  have 2: "busLocked (cycle demo_rd 640 ?w0)"
    using dma_running[OF st, of 640 demo_rd] by (simp add: dma_pending_def)
  have 3: "fst (demo_rd (push_bit 8 0xe0) demo_world) = 0x22"
    by (simp add: demo_rd_def)
  from 1 2 3 show ?thesis by blast
qed
section \<open>Properties of the MBC3 controller\<close>

subsection \<open>Auxiliary facts\<close>

lemma and_pow2_cases: "(v::int) AND 2 ^ n = (if bit v n then 2 ^ n else 0)"
  by (rule bit_eqI) (auto simp: bit_simps)

lemma toUint8_take_bit: "toUint8 x = take_bit 8 x"
  by (simp add: toUint8_def take_bit_eq_mod)

lemma toUint32_take_bit: "toUint32 x = take_bit 32 x"
  by (simp add: toUint32_def take_bit_eq_mod)

lemma toInt32_id: "- (2 ^ 31) \<le> r \<Longrightarrow> r < 2 ^ 31 \<Longrightarrow> toInt32 (take_bit 32 r) = r"
  using signed_take_bit_int_eq_self[of 31 r]
  by (simp add: toInt32_def signed_take_bit_take_bit)

lemma bytes_join:
  "take_bit 8 r OR push_bit 8 (take_bit 8 (drop_bit 8 (take_bit 32 r)))
    OR push_bit 16 (take_bit 8 (drop_bit 16 (take_bit 32 r)))
    OR push_bit 24 (take_bit 8 (drop_bit 24 (take_bit 32 r))) = take_bit 32 (r::int)"
proof (rule bit_eqI)
  fix n :: nat
  consider "n < 8" | "8 \<le> n" "n < 16" | "16 \<le> n" "n < 24" | "24 \<le> n" "n < 32" | "32 \<le> n"
    by linarith
  then show "bit (take_bit 8 r OR push_bit 8 (take_bit 8 (drop_bit 8 (take_bit 32 r)))
    OR push_bit 16 (take_bit 8 (drop_bit 16 (take_bit 32 r)))
    OR push_bit 24 (take_bit 8 (drop_bit 24 (take_bit 32 r)))) n = bit (take_bit 32 r) n"
    by cases (auto simp: bit_simps)
qed

lemma demo_cart_fields:
  "ramEnable demo_cart = False" "registerSelect demo_cart = 0"
  "length (ram demo_cart) = 0x2000" "secondsLatched demo_cart = 0"
  "cartridgeType demo_cart = mbc3_timer_ram_battery" "halt demo_cart = False"
  "referenceTimestamp demo_cart = 1000" "ramBankIndex demo_cart = Some 0"
  by (simp_all add: demo_cart_def Mbc3_constructor_def js_rem_def Mbc3_reset_def latch_def
        materializeClock_def is_battery_def Let_def)

lemma rtc_cart_fields:
  "ramEnable (rtc_cart 0x08)" "registerSelect (rtc_cart 0x08) = 0x08"
  "secondsLatched (rtc_cart 0x08) = 0"
  "ramEnable (rtc_cart 0x05)" "registerSelect (rtc_cart 0x05) = 0x05"
  by (simp_all add: rtc_cart_def writeRamBankIndex_def writeRamEnable_def demo_cart_fields)

lemma saved_cart_fields:
  "cartridgeType saved_cart = mbc3_timer_ram_battery" "length (ram saved_cart) = 0x2000"
  "referenceTimestamp saved_cart = 1000" "ram saved_cart ! 0 = 0x42"
  by (simp_all add: saved_cart_def writeBankRam_def writeRamEnable_def demo_cart_fields
        ramBank_index_def ramBanks_length_def ta_set8_def toUint8_def)

lemma latch_keeps:
  "ram (latch n u) = ram u" "referenceTimestamp (latch n u) = referenceTimestamp u"
  "cartridgeType (latch n u) = cartridgeType u"
  by (simp_all add: latch_def materializeClock_def Let_def)

lemma readRegister_latched_only:
  assumes "secondsLatched t = secondsLatched s" "minutesLatched t = minutesLatched s"
    "hoursLatched t = hoursLatched s" "daysLatched t = daysLatched s" "halt t = halt s"
  shows "readRegister r t = readRegister r s"
  using assms by (simp add: readRegister_def)

lemma materializeClock_latched:
  "secondsLatched (materializeClock n s) = secondsLatched s"
  "minutesLatched (materializeClock n s) = minutesLatched s"
  "hoursLatched (materializeClock n s) = hoursLatched s"
  "daysLatched (materializeClock n s) = daysLatched s"
  "halt (materializeClock n s) = halt s"
  "ramEnable (materializeClock n s) = ramEnable s"
  "registerSelect (materializeClock n s) = registerSelect s"
  by (simp_all add: materializeClock_def Let_def)

lemma updateClock_latched:
  "secondsLatched (updateClock n s) = secondsLatched s"
  "minutesLatched (updateClock n s) = minutesLatched s"
  "hoursLatched (updateClock n s) = hoursLatched s"
  "daysLatched (updateClock n s) = daysLatched s"
  "halt (updateClock n s) = halt s"
  "ramEnable (updateClock n s) = ramEnable s"
  "registerSelect (updateClock n s) = registerSelect s"
  by (simp_all add: updateClock_def Let_def)

lemma writeRegister_latched:
  "secondsLatched (writeRegister n1 n2 r v s) = secondsLatched s"
  "minutesLatched (writeRegister n1 n2 r v s) = minutesLatched s"
  "hoursLatched (writeRegister n1 n2 r v s) = hoursLatched s"
  "daysLatched (writeRegister n1 n2 r v s) = daysLatched s"
  "ramEnable (writeRegister n1 n2 r v s) = ramEnable s"
  "registerSelect (writeRegister n1 n2 r v s) = registerSelect s"
  by (simp_all add: writeRegister_def Let_def materializeClock_latched updateClock_latched)

lemma writeRegister_halt:
  "halt (writeRegister n1 n2 r v s) = (if r = 0x0c then v AND 0x40 \<noteq> 0 else halt s)"
  by (simp add: writeRegister_def Let_def materializeClock_latched updateClock_latched)

lemma readRegister_0c_after:
  "readRegister 0x0c (writeRegister n1 n2 0x0c v s)
     = (readRegister 0x0c s AND NOT 0x40) OR (v AND 0x40)"
proof -
  have v: "v AND 64 = (if bit v 6 then 64 else 0)"
    using and_pow2_cases[of v 6] by simp
  have d: "daysLatched s AND 256 = (if bit (daysLatched s) 8 then 256 else 0)"
    using and_pow2_cases[of "daysLatched s" 8] by simp
  show ?thesis
    by (simp add: readRegister_def writeRegister_latched writeRegister_halt v d)
qed

subsection \<open>RAM enable latch\<close>

text \<open>
  Claim C7, as the code has it. A write of \<open>v\<close> to \<open>0x0000..0x1FFF\<close> enables the
  cartridge RAM exactly when \<open>v\<close> is \<open>0x0A\<close> itself and the cartridge has RAM; every
  other value disables it. While the RAM is disabled, a read from \<open>0xA000..0xBFFF\<close>
  returns \<open>0xFF\<close> and a write there changes nothing.
\<close>

theorem C7_ram_enable_latch:
  "(ramEnable (writeRamEnable a v s) \<longleftrightarrow> (v = 0x0a \<and> length (ram s) > 0))
   \<and> (\<not> ramEnable s \<longrightarrow>
        readBankRam a' s = Some 0xff \<and> writeBankRam n1 n2 a' x s = s)"
  by (simp add: writeRamEnable_def readBankRam_def writeBankRam_def)

theorem C7_witness:
  "\<not> ramEnable demo_cart
   \<and> readBankRam 0xa000 demo_cart = Some 0xff
   \<and> writeBankRam 1000 1000 0xa000 7 demo_cart = demo_cart
   \<and> ramEnable (writeRamEnable 0x0000 0x0a demo_cart)"
  using C7_ram_enable_latch [of "0x0000" "0x0a" demo_cart "0xa000" 1000 1000 7]
  by (simp add: demo_cart_fields)

text \<open>
  The claim as stated (enabled if and only if \<open>v & 0x0F = 0x0A\<close>) fails: \<open>0x1A\<close> has
  the low nibble \<open>0xA\<close> and leaves the RAM of a cartridge with RAM disabled.
\<close>

theorem C7_counterexample:
  "(0x1a::int) AND 0x0f = 0x0a \<and> length (ram demo_cart) > 0
   \<and> \<not> ramEnable (writeRamEnable 0x0000 0x1a demo_cart)"
  by (simp add: writeRamEnable_def demo_cart_fields)

subsection \<open>RTC registers: a write followed by a read\<close>

lemma writeRegister_other:
  "ram (writeRegister n1 n2 r v s) = ram s"
  "image (writeRegister n1 n2 r v s) = image s"
  "romBankIndex (writeRegister n1 n2 r v s) = romBankIndex s"
  "ramBankIndex (writeRegister n1 n2 r v s) = ramBankIndex s"
  "lastLatch (writeRegister n1 n2 r v s) = lastLatch s"
  by (simp_all add: writeRegister_def Let_def materializeClock_def updateClock_def)

lemma writeRegister_running:
  "secondsCurrent (writeRegister n1 n2 r v s)
     = (if r = 0x08 then v AND 60
        else if r \<in> {0x09, 0x0a, 0x0b, 0x0c}
        then secondsCurrent (if halt s then s else materializeClock n1 s)
        else secondsCurrent s)"
  "minutesCurrent (writeRegister n1 n2 r v s)
     = (if r = 0x09 then v AND 60
        else if r \<in> {0x08, 0x0a, 0x0b, 0x0c}
        then minutesCurrent (if halt s then s else materializeClock n1 s)
        else minutesCurrent s)"
  "hoursCurrent (writeRegister n1 n2 r v s)
     = (if r = 0x0a then v AND 24
        else if r \<in> {0x08, 0x09, 0x0b, 0x0c}
        then hoursCurrent (if halt s then s else materializeClock n1 s)
        else hoursCurrent s)"
  "daysCurrent (writeRegister n1 n2 r v s)
     = (if r = 0x0b then (daysCurrent (if halt s then s else materializeClock n1 s) AND NOT 0xff) OR v
        else if r = 0x0c
        then (daysCurrent (if halt s then s else materializeClock n1 s) AND 0xff)
               OR push_bit 8 (v AND 0x01)
        else if r \<in> {0x08, 0x09, 0x0a}
        then daysCurrent (if halt s then s else materializeClock n1 s)
        else daysCurrent s)"
  by (simp_all add: writeRegister_def Let_def materializeClock_latched updateClock_def)

lemma writeRegister_reference:
  assumes "r \<in> {0x08, 0x09, 0x0a, 0x0b, 0x0c}"
  shows "referenceTimestamp (writeRegister n1 n2 r v s)
     = (if halt (writeRegister n1 n2 r v s) then referenceTimestamp s
        else n2 - ((daysCurrent (writeRegister n1 n2 r v s) AND 0x01ff) * 24 * 3600
                   + js_rem (hoursCurrent (writeRegister n1 n2 r v s)) 24 * 3600
                   + js_rem (minutesCurrent (writeRegister n1 n2 r v s)) 60 * 60
                   + js_rem (secondsCurrent (writeRegister n1 n2 r v s)) 60))"
  using assms
  by (auto simp add: writeRegister_def Let_def materializeClock_def updateClock_def)

text \<open>
  Claim C8, as the code has it. With RAM enabled and an RTC register \<open>r\<close> selected,
  a write of \<open>v\<close> to \<open>0xA000..0xBFFF\<close> goes to the running clock and a read comes from
  the latched fields. The write leaves the latched fields, the RAM, the RAM enable and
  the selector as they were. Unless the clock is halted it first rematerialises the
  running fields (\<open>m\<close> below); then the running field of \<open>r\<close> takes the byte, through
  the mask \<^verbatim>\<open>writeRegister\<close> applies to it, and the other running fields stay as
  rematerialised; \<open>r = 0x0C\<close> sets the halt flag from bit \<open>0x40\<close> and the ninth bit of
  the running day counter from bit \<open>0x01\<close>. Unless the clock is halted after that, the
  reference timestamp is set so that the running fields are the time passed at \<open>n2\<close>.
  For \<open>r\<close> in \<open>0x08..0x0B\<close> the value read back after the write is therefore the value
  read before it, whatever byte was written. For \<open>r = 0x0C\<close> the halt bit (\<open>0x40\<close>)
  reads back as written and the other bits as before.
\<close>

theorem C8_rtc_write_then_read:
  assumes "ramEnable s" and "registerSelect s = r"
  shows "let t = writeBankRam n1 n2 a v s;
             m = (if halt s then s else materializeClock n1 s)
         in (r \<in> {0x08, 0x09, 0x0a, 0x0b, 0x0c} \<longrightarrow>
               secondsLatched t = secondsLatched s \<and> minutesLatched t = minutesLatched s
               \<and> hoursLatched t = hoursLatched s \<and> daysLatched t = daysLatched s
               \<and> ram t = ram s \<and> ramEnable t \<and> registerSelect t = r
               \<and> referenceTimestamp t
                   = (if halt t then referenceTimestamp s
                      else n2 - ((daysCurrent t AND 0x01ff) * 24 * 3600
                                 + js_rem (hoursCurrent t) 24 * 3600
                                 + js_rem (minutesCurrent t) 60 * 60
                                 + js_rem (secondsCurrent t) 60)))
          \<and> (r = 0x08 \<longrightarrow>
                secondsCurrent t = v AND 60 \<and> minutesCurrent t = minutesCurrent m
                \<and> hoursCurrent t = hoursCurrent m \<and> daysCurrent t = daysCurrent m
                \<and> halt t = halt s)
          \<and> (r = 0x09 \<longrightarrow>
                minutesCurrent t = v AND 60 \<and> secondsCurrent t = secondsCurrent m
                \<and> hoursCurrent t = hoursCurrent m \<and> daysCurrent t = daysCurrent m
                \<and> halt t = halt s)
          \<and> (r = 0x0a \<longrightarrow>
                hoursCurrent t = v AND 24 \<and> secondsCurrent t = secondsCurrent m
                \<and> minutesCurrent t = minutesCurrent m \<and> daysCurrent t = daysCurrent m
                \<and> halt t = halt s)
          \<and> (r = 0x0b \<longrightarrow>
                daysCurrent t = (daysCurrent m AND NOT 0xff) OR v
                \<and> secondsCurrent t = secondsCurrent m \<and> minutesCurrent t = minutesCurrent m
                \<and> hoursCurrent t = hoursCurrent m \<and> halt t = halt s)
          \<and> (r = 0x0c \<longrightarrow>
                (halt t \<longleftrightarrow> v AND 0x40 \<noteq> 0)
                \<and> daysCurrent t = (daysCurrent m AND 0xff) OR push_bit 8 (v AND 0x01)
                \<and> secondsCurrent t = secondsCurrent m \<and> minutesCurrent t = minutesCurrent m
                \<and> hoursCurrent t = hoursCurrent m)
          \<and> (r \<in> {0x08, 0x09, 0x0a, 0x0b} \<longrightarrow> readBankRam a' t = readBankRam a' s)
          \<and> (r = 0x0c \<longrightarrow>
                readBankRam a' t = Some ((readRegister 0x0c s AND NOT 0x40) OR (v AND 0x40)))"
proof -
  define t where "t = writeRegister n1 n2 r v s"
  define m where "m = (if halt s then s else materializeClock n1 s)"
  have w: "r \<in> {0x08, 0x09, 0x0a, 0x0b, 0x0c} \<Longrightarrow> writeBankRam n1 n2 a v s = t"
    using assms by (auto simp add: writeBankRam_def t_def)
  have 1: "r \<in> {0x08, 0x09, 0x0a, 0x0b, 0x0c} \<longrightarrow>
               secondsLatched t = secondsLatched s \<and> minutesLatched t = minutesLatched s
               \<and> hoursLatched t = hoursLatched s \<and> daysLatched t = daysLatched s
               \<and> ram t = ram s \<and> ramEnable t \<and> registerSelect t = r
               \<and> referenceTimestamp t
                   = (if halt t then referenceTimestamp s
                      else n2 - ((daysCurrent t AND 0x01ff) * 24 * 3600
                                 + js_rem (hoursCurrent t) 24 * 3600
                                 + js_rem (minutesCurrent t) 60 * 60
                                 + js_rem (secondsCurrent t) 60))"
    using assms writeRegister_reference[of r n1 n2 v s]
    by (simp add: t_def writeRegister_latched writeRegister_other)
  have 2: "r = 0x08 \<longrightarrow>
                secondsCurrent t = v AND 60 \<and> minutesCurrent t = minutesCurrent m
                \<and> hoursCurrent t = hoursCurrent m \<and> daysCurrent t = daysCurrent m
                \<and> halt t = halt s"
    by (simp add: t_def m_def writeRegister_running writeRegister_halt)
  have 3: "r = 0x09 \<longrightarrow>
                minutesCurrent t = v AND 60 \<and> secondsCurrent t = secondsCurrent m
                \<and> hoursCurrent t = hoursCurrent m \<and> daysCurrent t = daysCurrent m
                \<and> halt t = halt s"
    by (simp add: t_def m_def writeRegister_running writeRegister_halt)
  have 4: "r = 0x0a \<longrightarrow>
                hoursCurrent t = v AND 24 \<and> secondsCurrent t = secondsCurrent m
                \<and> minutesCurrent t = minutesCurrent m \<and> daysCurrent t = daysCurrent m
                \<and> halt t = halt s"
    by (simp add: t_def m_def writeRegister_running writeRegister_halt)
  have 5: "r = 0x0b \<longrightarrow>
                daysCurrent t = (daysCurrent m AND NOT 0xff) OR v
                \<and> secondsCurrent t = secondsCurrent m \<and> minutesCurrent t = minutesCurrent m
                \<and> hoursCurrent t = hoursCurrent m \<and> halt t = halt s"
    by (simp add: t_def m_def writeRegister_running writeRegister_halt)
  have 6: "r = 0x0c \<longrightarrow>
                (halt t \<longleftrightarrow> v AND 0x40 \<noteq> 0)
                \<and> daysCurrent t = (daysCurrent m AND 0xff) OR push_bit 8 (v AND 0x01)
                \<and> secondsCurrent t = secondsCurrent m \<and> minutesCurrent t = minutesCurrent m
                \<and> hoursCurrent t = hoursCurrent m"
    by (simp add: t_def m_def writeRegister_running writeRegister_halt)
  have 7: "r \<in> {0x08, 0x09, 0x0a, 0x0b} \<longrightarrow> readBankRam a' t = readBankRam a' s"
  proof
    assume r: "r \<in> {0x08, 0x09, 0x0a, 0x0b}"
    then have nc: "r \<noteq> 0x0c" by auto
    have "readRegister r t = readRegister r s"
      unfolding t_def using nc
      by (intro readRegister_latched_only) (simp_all add: writeRegister_latched writeRegister_halt)
    then show "readBankRam a' t = readBankRam a' s"
      using assms r by (auto simp add: readBankRam_def t_def writeRegister_latched)
  qed
  have 8: "r = 0x0c \<longrightarrow>
             readBankRam a' t = Some ((readRegister 0x0c s AND NOT 0x40) OR (v AND 0x40))"
    using assms
    by (simp add: readBankRam_def t_def writeRegister_latched readRegister_0c_after)
  show ?thesis
  proof (cases "r \<in> {0x08, 0x09, 0x0a, 0x0b, 0x0c}")
    case True
    from w[OF True] show ?thesis
      unfolding Let_def m_def[symmetric]
      using 1 2 3 4 5 6 7 8 by simp
  next
    case False
    then show ?thesis by (simp add: Let_def)
  qed
qed

lemma rtc_cart_clock:
  "halt (rtc_cart 0x08) = False" "referenceTimestamp (rtc_cart 0x08) = 1000"
  by (simp_all add: rtc_cart_def writeRamBankIndex_def writeRamEnable_def demo_cart_fields)

lemma rtc_cart_materialized:
  "daysCurrent (materializeClock 1000 (rtc_cart 0x08)) = 0"
  "hoursCurrent (materializeClock 1000 (rtc_cart 0x08)) = 0"
  "minutesCurrent (materializeClock 1000 (rtc_cart 0x08)) = 0"
  by (simp_all add: materializeClock_def rtc_cart_clock js_idiv_def toInt32_def Let_def)

theorem C8_witness:
  "ramEnable (rtc_cart 0x08) \<and> registerSelect (rtc_cart 0x08) = 0x08
   \<and> secondsCurrent (writeBankRam 1000 1000 0xa000 12 (rtc_cart 0x08)) = 12
   \<and> secondsLatched (writeBankRam 1000 1000 0xa000 12 (rtc_cart 0x08)) = 0
   \<and> referenceTimestamp (writeBankRam 1000 1000 0xa000 12 (rtc_cart 0x08)) = 988
   \<and> readBankRam 0xa000 (writeBankRam 1000 1000 0xa000 12 (rtc_cart 0x08)) = Some 0"
proof -
  let ?t = "writeBankRam 1000 1000 0xa000 12 (rtc_cart 0x08)"
  let ?m = "materializeClock 1000 (rtc_cart 0x08)"
  from C8_rtc_write_then_read [where s = "rtc_cart 0x08" and r = "0x08" and ?n1.0 = 1000 and ?n2.0 = 1000
      and a = "0xa000" and v = 12 and a' = "0xa000"]
  have f: "secondsLatched ?t = secondsLatched (rtc_cart 0x08)"
    "secondsCurrent ?t = 12 AND 60" "minutesCurrent ?t = minutesCurrent ?m"
    "hoursCurrent ?t = hoursCurrent ?m" "daysCurrent ?t = daysCurrent ?m"
    "halt ?t = halt (rtc_cart 0x08)"
    "referenceTimestamp ?t
       = (if halt ?t then referenceTimestamp (rtc_cart 0x08)
          else 1000 - ((daysCurrent ?t AND 0x01ff) * 24 * 3600 + js_rem (hoursCurrent ?t) 24 * 3600
                       + js_rem (minutesCurrent ?t) 60 * 60 + js_rem (secondsCurrent ?t) 60))"
    "readBankRam 0xa000 ?t = readBankRam 0xa000 (rtc_cart 0x08)"
    by (simp_all add: Let_def rtc_cart_fields rtc_cart_clock)
  have a: "(12::int) AND 60 = 12" by simp
  have rd: "readBankRam 0xa000 (rtc_cart 0x08) = Some 0"
    by (simp add: readBankRam_def readRegister_def rtc_cart_fields)
  show ?thesis
    by (simp add: f a rd rtc_cart_fields rtc_cart_clock rtc_cart_materialized js_rem_def)
qed


text \<open>
  The claim as stated fails: with the seconds register selected, writing 5 and reading
  at once yields 0, not \<open>5 mod 60\<close>.
\<close>

theorem C8_counterexample:
  "readBankRam 0xa000 (writeBankRam 1000 1000 0xa000 5 (rtc_cart 0x08)) = Some 0
   \<and> (5::int) mod 60 \<noteq> 0"
  by (simp add: readBankRam_def writeBankRam_def writeRegister_latched rtc_cart_fields
        readRegister_def)

subsection \<open>Saving and loading battery-backed RAM\<close>

text \<open>
  Claim C9. Let \<open>s\<close> be a battery-backed cartridge and \<open>sv\<close> the array \<open>getRam\<close>
  produces for it (the RAM, then the reference timestamp as four little-endian bytes).
  Resetting a cartridge \<open>t\<close> of the same type and RAM size with \<open>sv\<close> gives the RAM of
  \<open>s\<close>, and saving again gives \<open>sv\<close> byte for byte; the reference timestamp itself is
  that of \<open>s\<close> whenever it is a 32-bit value. A saved array of any other length than
  RAM size + 4 changes neither the RAM nor the reference timestamp.
\<close>

theorem C9_save_load_round_trip:
  assumes b: "is_battery (cartridgeType s)"
    and ct: "cartridgeType t = cartridgeType s"
    and len: "length (ram t) = length (ram s)"
    and sv: "getRam s = Some sv"
  shows "ram (Mbc3_reset n1 n2 (Some sv) t) = ram s
       \<and> getRam (Mbc3_reset n1 n2 (Some sv) t) = Some sv
       \<and> (- (2 ^ 31) \<le> referenceTimestamp s \<and> referenceTimestamp s < 2 ^ 31 \<longrightarrow>
            referenceTimestamp (Mbc3_reset n1 n2 (Some sv) t) = referenceTimestamp s)
       \<and> (length sv' \<noteq> length (ram t) + 4 \<longrightarrow>
            ram (Mbc3_reset n1 n2 (Some sv') t) = ram t
            \<and> referenceTimestamp (Mbc3_reset n1 n2 (Some sv') t) = referenceTimestamp t)"
proof -
  let ?r = "referenceTimestamp s"
  have sv_eq: "sv = ram s @ [take_bit 8 ?r, take_bit 8 (drop_bit 8 (take_bit 32 ?r)),
        take_bit 8 (drop_bit 16 (take_bit 32 ?r)), take_bit 8 (drop_bit 24 (take_bit 32 ?r))]"
    using sv b by (simp add: getRam_def toUint8_take_bit toUint32_take_bit)
  have emp: "ram t = [] \<longleftrightarrow> ram s = []"
    using len by (metis length_0_conv)
  have ref: "referenceTimestamp (Mbc3_reset n1 n2 (Some sv) t) = toInt32 (take_bit 32 ?r)"
    using b ct len
    by (simp add: Mbc3_reset_def Let_def latch_keeps sv_eq nth_append bytes_join)
  have 1: "ram (Mbc3_reset n1 n2 (Some sv) t) = ram s"
    using b ct len emp by (simp add: Mbc3_reset_def Let_def latch_keeps sv_eq)
  have ty: "cartridgeType (Mbc3_reset n1 n2 (Some sv) t) = cartridgeType s"
    using b ct len by (simp add: Mbc3_reset_def Let_def latch_keeps sv_eq)
  have tb: "take_bit 32 (toInt32 (take_bit 32 ?r)) = take_bit 32 ?r"
    "take_bit 8 (toInt32 (take_bit 32 ?r)) = take_bit 8 ?r"
    by (simp_all add: toInt32_def take_bit_signed_take_bit)
  have "getRam (Mbc3_reset n1 n2 (Some sv) t) =
      Some (ram s @ [toUint8 (toInt32 (take_bit 32 ?r)),
                     toUint8 (drop_bit 8 (toUint32 (toInt32 (take_bit 32 ?r)))),
                     toUint8 (drop_bit 16 (toUint32 (toInt32 (take_bit 32 ?r)))),
                     toUint8 (drop_bit 24 (toUint32 (toInt32 (take_bit 32 ?r))))])"
    using b by (simp add: getRam_def ty 1 ref)
  also have "\<dots> = Some sv"
    by (simp add: sv_eq toUint8_take_bit toUint32_take_bit tb)
  finally have 2: "getRam (Mbc3_reset n1 n2 (Some sv) t) = Some sv" .
  have 3: "- (2 ^ 31) \<le> referenceTimestamp s \<and> referenceTimestamp s < 2 ^ 31 \<longrightarrow>
          referenceTimestamp (Mbc3_reset n1 n2 (Some sv) t) = referenceTimestamp s"
    by (simp add: ref toInt32_id)
  have 4: "length sv' \<noteq> length (ram t) + 4 \<longrightarrow>
          ram (Mbc3_reset n1 n2 (Some sv') t) = ram t
          \<and> referenceTimestamp (Mbc3_reset n1 n2 (Some sv') t) = referenceTimestamp t"
    using b ct by (simp add: Mbc3_reset_def Let_def latch_keeps)
  from 1 2 3 4 show ?thesis by blast
qed

theorem C9_witness:
  "is_battery (cartridgeType saved_cart)
   \<and> getRam saved_cart = Some (ram saved_cart @ [232, 3, 0, 0])
   \<and> ram (Mbc3_reset 2000 2000 (Some (ram saved_cart @ [232, 3, 0, 0])) demo_cart)
       = ram saved_cart
   \<and> referenceTimestamp (Mbc3_reset 2000 2000 (Some (ram saved_cart @ [232, 3, 0, 0])) demo_cart)
       = 1000
   \<and> ram (Mbc3_reset 2000 2000 (Some []) demo_cart) = ram demo_cart"
  using C9_save_load_round_trip
    [of saved_cart demo_cart "ram saved_cart @ [232, 3, 0, 0]" 2000 2000 "[]"]
  by (simp add: saved_cart_fields demo_cart_fields is_battery_def getRam_def toUint8_def
        toUint32_def)

subsection \<open>Selector values that name neither a RAM bank nor an RTC register\<close>

text \<open>
  Claim C10. A value \<open>v\<close> with \<open>0x04 \<le> v \<le> 0x07\<close> or \<open>v \<ge> 0x0D\<close> written to
  \<open>0x4000..0x5FFF\<close> becomes the selector as it is. In every state \<open>t\<close> with that
  selector, a read from \<open>0xA000..0xBFFF\<close> with RAM enabled returns \<open>0x00\<close> and a write
  there leaves the whole state as it was, so the selector stays and the same holds for
  every later access.
\<close>

theorem C10_undefined_selector:
  assumes "(0x04 \<le> v \<and> v \<le> 0x07) \<or> 0x0d \<le> v"
  shows "registerSelect (writeRamBankIndex a v s) = v
       \<and> ramEnable (writeRamBankIndex a v s) = ramEnable s
       \<and> (registerSelect t = v \<and> ramEnable t \<longrightarrow> readBankRam a' t = Some 0x00)
       \<and> (registerSelect t = v \<longrightarrow> writeBankRam n1 n2 a' x t = t)"
proof -
  from assms have v: "\<not> v \<le> 3" "v > 0" "v \<noteq> 8" "v \<noteq> 9" "v \<noteq> 10" "v \<noteq> 11" "v \<noteq> 12"
    by auto
  have 1: "registerSelect (writeRamBankIndex a v s) = v"
    using v by (simp add: writeRamBankIndex_def)
  have 2: "ramEnable (writeRamBankIndex a v s) = ramEnable s"
    using v by (simp add: writeRamBankIndex_def)
  have 3: "registerSelect t = v \<and> ramEnable t \<longrightarrow> readBankRam a' t = Some 0x00"
    using v by (auto simp add: readBankRam_def readRegister_def)
  have 4: "registerSelect t = v \<longrightarrow> writeBankRam n1 n2 a' x t = t"
    using v by (auto simp add: writeBankRam_def writeRegister_def Let_def)
  from 1 2 3 4 show ?thesis by blast
qed

theorem C10_witness:
  "((0x04 \<le> (5::int) \<and> (5::int) \<le> 0x07) \<or> 0x0d \<le> (5::int))
   \<and> registerSelect (rtc_cart 0x05) = 0x05 \<and> ramEnable (rtc_cart 0x05)
   \<and> readBankRam 0xa000 (rtc_cart 0x05) = Some 0x00
   \<and> writeBankRam 1000 1000 0xa000 0x77 (rtc_cart 0x05) = rtc_cart 0x05"
  using C10_undefined_selector
    [of 5 "0x4000" "writeRamEnable 0x0000 0x0a demo_cart" "rtc_cart 0x05" "0xa000" 1000 1000 "0x77"]
  by (simp add: rtc_cart_fields)

end
